(* ===== verification/Prelude.thy ===== *)
theory Prelude
  imports Main "HOL-Library.Word" "HOL-Library.Monad_Syntax" "HOL-Library.Sublist"
begin

unbundle bit_operations_syntax

section \<open>Shared types, Go's \<^verbatim>\<open>math/big\<close> and slices\<close>

text \<open>
  This theory holds what every component uses of the Go language and of its standard
  library: bytes and fixed-width unsigned integers (as words, so \<open>+\<close>, \<open>-\<close> and \<open>*\<close> wrap
  around), arbitrary-precision integers (\<^verbatim>\<open>big.Int\<close>, as \<^typ>\<open>int\<close>) with the conversions the
  sources call on them, and bounds-checked slices. A Go runtime panic (nil dereference,
  slice index out of range) is \<^const>\<open>None\<close>.
\<close>

named_theorems bigint_simps "equations of the model of math/big"
named_theorems slice_simps "equations of the model of Go slices"

type_synonym byte = "8 word"
type_synonym bytes = "byte list"
type_synonym uint64 = "64 word"

lemmas option_bind_splits = Option.bind_split Option.bind_split_asm

subsection \<open>Outcomes\<close>

text \<open>
  Straight-line code that can only panic has type \<open>'a option\<close>. Code with a loop or a nested
  execution has one of three outcomes: a value, a panic, or \<open>NoFuel\<close>, which says that the
  bound of the model was reached before the code returned.
\<close>

datatype 'a outcome = Val 'a | Panic | NoFuel

primrec obind :: "'a outcome \<Rightarrow> ('a \<Rightarrow> 'b outcome) \<Rightarrow> 'b outcome" where
  "obind (Val a) f = f a"
| "obind Panic f = Panic"
| "obind NoFuel f = NoFuel"

primrec of_option :: "'a option \<Rightarrow> 'a outcome" where
  "of_option None = Panic"
| "of_option (Some a) = Val a"

lemma of_option_eq_simps [simp]:
  "of_option m = Val a \<longleftrightarrow> m = Some a"
  "of_option m = Panic \<longleftrightarrow> m = None"
  "of_option m \<noteq> NoFuel"
  by (cases m; simp)+

lemma obind_eq_Val: "obind m f = Val b \<longleftrightarrow> (\<exists>a. m = Val a \<and> f a = Val b)"
  by (cases m) auto

lemma obind_eq_NoFuel: "obind m f = NoFuel \<longleftrightarrow> m = NoFuel \<or> (\<exists>a. m = Val a \<and> f a = NoFuel)"
  by (cases m) auto

lemma obind_eq_Panic: "obind m f = Panic \<longleftrightarrow> m = Panic \<or> (\<exists>a. m = Val a \<and> f a = Panic)"
  by (cases m) auto

lemmas outcome_simps = obind_eq_Val obind_eq_NoFuel obind_eq_Panic

subsection \<open>Sizes: \<^verbatim>\<open>BitLen\<close>\<close>

text \<open>\<^verbatim>\<open>x.BitLen()\<close> is the number of bits of the absolute value; it is 0 for 0.\<close>

fun nat_BitLen :: "nat \<Rightarrow> nat" where
  "nat_BitLen n = (if n = 0 then 0 else Suc (nat_BitLen (n div 2)))"

declare nat_BitLen.simps [simp del]

definition BitLen :: "int \<Rightarrow> nat" where
  "BitLen x = nat_BitLen (nat \<bar>x\<bar>)"

lemma nat_BitLen_le_iff: "nat_BitLen n \<le> k \<longleftrightarrow> n < 2 ^ k"
proof (induction n arbitrary: k rule: nat_BitLen.induct)
  case (1 n)
  show ?case
  proof (cases "n = 0")
    case True
    then show ?thesis by (simp add: nat_BitLen.simps)
  next
    case nz: False
    show ?thesis
    proof (cases k)
      case 0
      with nz show ?thesis by (simp add: nat_BitLen.simps [of n])
    next
      case (Suc j)
      have "nat_BitLen n \<le> k \<longleftrightarrow> nat_BitLen (n div 2) \<le> j"
        using nz Suc by (simp add: nat_BitLen.simps [of n])
      also have "\<dots> \<longleftrightarrow> n div 2 < 2 ^ j" using "1.IH" nz by blast
      also have "\<dots> \<longleftrightarrow> n < 2 ^ k" using Suc by (simp add: div_less_iff_less_mult mult.commute)
      finally show ?thesis .
    qed
  qed
qed

lemma BitLen_le_iff [bigint_simps]: "BitLen x \<le> k \<longleftrightarrow> \<bar>x\<bar> < 2 ^ k"
  by (simp add: BitLen_def nat_BitLen_le_iff nat_less_iff)

lemma BitLen_gt_iff [bigint_simps]: "k < BitLen x \<longleftrightarrow> 2 ^ k \<le> \<bar>x\<bar>"
  using BitLen_le_iff [of x k] by linarith

lemma BitLen_pos_iff [bigint_simps]: "0 < BitLen x \<longleftrightarrow> x \<noteq> 0"
  by (simp add: BitLen_gt_iff) linarith

subsection \<open>Bytes: \<^verbatim>\<open>Bytes\<close>, \<^verbatim>\<open>SetBytes\<close>\<close>

text \<open>
  \<^verbatim>\<open>x.Bytes()\<close> is the absolute value as a big-endian byte slice with no leading zero;
  \<^verbatim>\<open>z.SetBytes(b)\<close> reads a big-endian slice.
\<close>

fun nat_Bytes :: "nat \<Rightarrow> bytes" where
  "nat_Bytes n = (if n = 0 then [] else nat_Bytes (n div 256) @ [word_of_nat (n mod 256)])"

declare nat_Bytes.simps [simp del]

definition Bytes :: "int \<Rightarrow> bytes" where
  "Bytes x = nat_Bytes (nat \<bar>x\<bar>)"

definition nat_SetBytes :: "bytes \<Rightarrow> nat" where
  "nat_SetBytes bs = foldl (\<lambda>acc b. 256 * acc + unat b) 0 bs"

definition SetBytes :: "bytes \<Rightarrow> int" where
  "SetBytes bs = int (nat_SetBytes bs)"

lemma nat_SetBytes_Nil [simp]: "nat_SetBytes [] = 0"
  by (simp add: nat_SetBytes_def)

lemma nat_SetBytes_snoc [simp]: "nat_SetBytes (bs @ [b]) = 256 * nat_SetBytes bs + unat b"
  by (simp add: nat_SetBytes_def)

lemma nat_SetBytes_append: "nat_SetBytes (xs @ ys) = nat_SetBytes xs * 256 ^ length ys + nat_SetBytes ys"
proof (induction ys rule: rev_induct)
  case Nil
  then show ?case by simp
next
  case (snoc y ys)
  have "nat_SetBytes (xs @ ys @ [y]) = 256 * nat_SetBytes (xs @ ys) + unat y"
    using nat_SetBytes_snoc [of "xs @ ys" y] by simp
  with snoc show ?case by (simp add: algebra_simps)
qed

lemma unat_uint64_less: "unat (w :: uint64) < 2 ^ 64"
  using unsigned_less [of w, where 'a = nat] by simp

lemma unat_byte_less [simp]: "unat (b :: byte) < 256"
  using unsigned_less [of b] by simp

lemma nat_SetBytes_less: "nat_SetBytes bs < 256 ^ length bs"
proof (induction bs rule: rev_induct)
  case Nil
  then show ?case by simp
next
  case (snoc b bs)
  have "Suc (nat_SetBytes bs) \<le> 256 ^ length bs" using snoc by simp
  then have "256 * Suc (nat_SetBytes bs) \<le> 256 * 256 ^ length bs" by (rule mult_le_mono2)
  moreover have "256 * nat_SetBytes bs + unat b < 256 * Suc (nat_SetBytes bs)"
    using unat_byte_less [of b] by simp
  ultimately show ?case
    unfolding length_append_singleton power_Suc nat_SetBytes_snoc by linarith
qed

lemma nat_SetBytes_zeros [simp]: "nat_SetBytes (replicate k 0) = 0"
proof (induction k)
  case (Suc k)
  have "nat_SetBytes (replicate k 0 @ [0 :: byte]) = 0" using Suc by simp
  then show ?case by (simp add: replicate_append_same)
qed simp

lemma nat_SetBytes_pad [simp]: "nat_SetBytes (replicate k 0 @ bs) = nat_SetBytes bs"
  by (simp add: nat_SetBytes_append)

lemma nat_SetBytes_Bytes [simp]: "nat_SetBytes (nat_Bytes n) = n"
proof (induction n rule: nat_Bytes.induct)
  case (1 n)
  have "unat (word_of_nat (n mod 256) :: byte) = n mod 256"
    by (simp add: unat_of_nat)
  with 1 show ?case by (simp add: nat_Bytes.simps [of n])
qed

lemma length_nat_Bytes_le: "n < 256 ^ k \<Longrightarrow> length (nat_Bytes n) \<le> k"
proof (induction n arbitrary: k rule: nat_Bytes.induct)
  case (1 n)
  show ?case
  proof (cases "n = 0")
    case True
    then show ?thesis by (simp add: nat_Bytes.simps)
  next
    case False
    with "1.prems" obtain j where j: "k = Suc j" by (cases k) auto
    have "n div 256 < 256 ^ j"
      using "1.prems" j by (simp add: div_less_iff_less_mult mult.commute)
    with "1.IH" False have "length (nat_Bytes (n div 256)) \<le> j" by blast
    with False j show ?thesis by (simp add: nat_Bytes.simps [of n])
  qed
qed

lemma SetBytes_Bytes [bigint_simps]: "SetBytes (Bytes x) = \<bar>x\<bar>"
  by (simp add: SetBytes_def Bytes_def)

lemma SetBytes_nonneg [simp]: "0 \<le> SetBytes bs"
  by (simp add: SetBytes_def)

lemma SetBytes_less: "SetBytes bs < 256 ^ length bs"
proof -
  have "int (nat_SetBytes bs) < int (256 ^ length bs)"
    using nat_SetBytes_less [of bs] by (rule of_nat_less_iff [THEN iffD2])
  then show ?thesis by (simp add: SetBytes_def)
qed

lemma SetBytes_pad [simp]: "SetBytes (replicate k 0 @ bs) = SetBytes bs"
  by (simp add: SetBytes_def)

lemma SetBytes_Nil [simp]: "SetBytes [] = 0"
  by (simp add: SetBytes_def)

text \<open>A number is determined by its fixed-width big-endian bytes, and conversely.\<close>

definition pad_bytes :: "nat \<Rightarrow> bytes \<Rightarrow> bytes" where
  "pad_bytes k bs = replicate (k - length bs) 0 @ bs"

lemma length_pad_bytes: "length bs \<le> k \<Longrightarrow> length (pad_bytes k bs) = k"
  by (simp add: pad_bytes_def)

lemma nat_SetBytes_inj:
  "length xs = length ys \<Longrightarrow> nat_SetBytes xs = nat_SetBytes ys \<Longrightarrow> xs = ys"
proof (induction xs arbitrary: ys rule: rev_induct)
  case Nil
  then show ?case by simp
next
  case (snoc x xs)
  then obtain zs z where ys: "ys = zs @ [z]" by (cases ys rule: rev_cases) auto
  have eq: "256 * nat_SetBytes xs + unat x = 256 * nat_SetBytes zs + unat z"
    using snoc.prems ys by simp
  then have "(256 * nat_SetBytes xs + unat x) mod 256 = (256 * nat_SetBytes zs + unat z) mod 256"
    by simp
  then have xz: "unat x = unat z" by simp
  with eq have "nat_SetBytes xs = nat_SetBytes zs" by simp
  then have "xs = zs" using snoc.IH snoc.prems ys by simp
  with xz ys show ?case by (simp add: word_unat_eq_iff)
qed

subsection \<open>Machine words of a big integer\<close>

text \<open>
  \<^verbatim>\<open>x.Uint64()\<close> and \<^verbatim>\<open>x.Int64()\<close> take the low 64 bits of the absolute value (\<^verbatim>\<open>Int64\<close> then
  negates them for a negative \<open>x\<close>); \<^verbatim>\<open>IsUint64\<close> and \<^verbatim>\<open>IsInt64\<close> say when nothing is lost.
  \<^verbatim>\<open>x.Bits()\<close> is the absolute value as a little-endian slice of 64-bit machine words,
  without leading zero words.
\<close>

definition Uint64 :: "int \<Rightarrow> uint64" where
  "Uint64 x = word_of_int \<bar>x\<bar>"

definition Int64 :: "int \<Rightarrow> int" where
  "Int64 x = sint (if x < 0 then - Uint64 x else Uint64 x)"

definition IsUint64 :: "int \<Rightarrow> bool" where
  "IsUint64 x \<longleftrightarrow> 0 \<le> x \<and> BitLen x \<le> 64"

definition IsInt64 :: "int \<Rightarrow> bool" where
  "IsInt64 x \<longleftrightarrow> - (2 ^ 63) \<le> x \<and> x < 2 ^ 63"

fun nat_Bits :: "nat \<Rightarrow> uint64 list" where
  "nat_Bits n = (if n = 0 then [] else word_of_nat (n mod 2 ^ 64) # nat_Bits (n div 2 ^ 64))"

declare nat_Bits.simps [simp del]

definition Bits :: "int \<Rightarrow> uint64 list" where
  "Bits x = nat_Bits (nat \<bar>x\<bar>)"

lemma IsUint64_iff [bigint_simps]: "IsUint64 x \<longleftrightarrow> 0 \<le> x \<and> x < 2 ^ 64"
  by (auto simp: IsUint64_def BitLen_le_iff)

lemma uint_Uint64: "IsUint64 x \<Longrightarrow> uint (Uint64 x) = x"
  by (simp add: IsUint64_iff Uint64_def uint_word_of_int_eq take_bit_int_eq_self)

lemma unat_Uint64 [bigint_simps]: "IsUint64 x \<Longrightarrow> unat (Uint64 x) = nat x"
  by (simp add: uint_Uint64 flip: nat_uint_eq)

lemma Uint64_of_nat [simp]: "Uint64 (int n) = word_of_nat n"
  by (simp add: Uint64_def)

lemma Uint64_0 [simp]: "Uint64 0 = 0"
  by (simp add: Uint64_def)

lemma IsUint64_uint [simp]: "IsUint64 (uint (w :: uint64))"
  using uint_lt2p [of w] by (simp add: IsUint64_iff)

lemma Uint64_uint [simp]: "Uint64 (uint (w :: uint64)) = w"
  by (simp add: Uint64_def)

subsection \<open>Slices\<close>

text \<open>
  \<^verbatim>\<open>b[i:j]\<close> panics unless \<open>i \<le> j \<le> len b\<close>; \<^verbatim>\<open>copy(b[i:], src)\<close> overwrites
  \<open>min (len b - i) (len src)\<close> elements.
\<close>

definition slice :: "'a list \<Rightarrow> nat \<Rightarrow> nat \<Rightarrow> 'a list option" where
  "slice xs i j = (if i \<le> j \<and> j \<le> length xs then Some (take (j - i) (drop i xs)) else None)"

definition copy_at :: "'a list \<Rightarrow> nat \<Rightarrow> 'a list \<Rightarrow> 'a list" where
  "copy_at dst i src =
     take i dst @ take (length dst - i) src @ drop (i + length src) dst"

lemma slice_Some [slice_simps]: "i \<le> j \<Longrightarrow> j \<le> length xs \<Longrightarrow> slice xs i j = Some (take (j - i) (drop i xs))"
  by (simp add: slice_def)

lemma slice_SomeD: "slice xs i j = Some ys \<Longrightarrow> length ys = j - i \<and> i \<le> j \<and> j \<le> length xs"
  by (auto simp: slice_def split: if_splits)

lemma length_copy_at [simp]: "i \<le> length dst \<Longrightarrow> length (copy_at dst i src) = length dst"
  by (simp add: copy_at_def)

lemma slice_copy_at [slice_simps]:
  "i + length src \<le> length dst \<Longrightarrow> slice (copy_at dst i src) i (i + length src) = Some src"
  by (simp add: slice_def copy_at_def)

lemma nth_copy_at:
  assumes "i + length src \<le> length dst" and "k < length dst"
  shows "copy_at dst i src ! k = (if i \<le> k \<and> k < i + length src then src ! (k - i) else dst ! k)"
  using assms by (auto simp: copy_at_def nth_append min_def)

end
