(* ===== verification/Runtime.thy ===== *)
theory Runtime
  imports Prelude
begin

section \<open>Forks, fixed-size types and the runtime interface\<close>

text \<open>
  Models \<^verbatim>\<open>chain/params.go\<close> (fork activation), the fixed-size types of \<^verbatim>\<open>types/types.go\<close>, the
  contract address derivation of \<^verbatim>\<open>crypto/crypto.go\<close> and the interface between a contract
  runtime and its host in \<^verbatim>\<open>state/runtime/runtime.go\<close>.

  A \<^verbatim>\<open>[32]byte\<close> hash and a \<^verbatim>\<open>[20]byte\<close> address are the words whose big-endian bytes they
  are; \<open>BytesToHash_copy\<close> and \<open>BytesToAddress_copy\<close> show that the conversions are the byte
  copies of the sources. A Go interface is a record of functions over an abstract state
  \<open>'h\<close>: a method that changes its receiver returns the new state.
\<close>

type_synonym Hash = "256 word"
type_synonym Address = "160 word"

subsection \<open>Fixed-size types (\<^verbatim>\<open>types/types.go\<close>)\<close>

definition BytesToHash :: "bytes \<Rightarrow> Hash" where
  "BytesToHash b = word_of_nat (nat_SetBytes b)"

definition Hash_Bytes :: "Hash \<Rightarrow> bytes" where
  "Hash_Bytes h = pad_bytes 32 (Bytes (uint h))"

definition BytesToAddress :: "bytes \<Rightarrow> Address" where
  "BytesToAddress b = word_of_nat (nat_SetBytes b)"

definition Address_Bytes :: "Address \<Rightarrow> bytes" where
  "Address_Bytes a = pad_bytes 20 (Bytes (uint a))"

lemma length_Bytes_le: "\<bar>x\<bar> < 256 ^ k \<Longrightarrow> length (Bytes x) \<le> k"
  unfolding Bytes_def by (rule length_nat_Bytes_le) (simp add: nat_less_iff)

lemma length_Hash_Bytes [simp]: "length (Hash_Bytes h) = 32"
proof -
  have "\<bar>uint h\<bar> < 256 ^ 32" using uint_lt2p [of h] by simp
  then show ?thesis by (simp add: Hash_Bytes_def length_pad_bytes length_Bytes_le)
qed

lemma length_Address_Bytes [simp]: "length (Address_Bytes a) = 20"
proof -
  have "\<bar>uint a\<bar> < 256 ^ 20" using uint_lt2p [of a] by simp
  then show ?thesis by (simp add: Address_Bytes_def length_pad_bytes length_Bytes_le)
qed

lemma nat_SetBytes_Hash_Bytes [simp]: "nat_SetBytes (Hash_Bytes h) = unat h"
  by (simp add: Hash_Bytes_def pad_bytes_def Bytes_def)

lemma nat_SetBytes_Address_Bytes [simp]: "nat_SetBytes (Address_Bytes a) = unat a"
  by (simp add: Address_Bytes_def pad_bytes_def Bytes_def)

lemma SetBytes_Hash_Bytes [bigint_simps]: "SetBytes (Hash_Bytes h) = uint h"
  by (simp add: SetBytes_def)

lemma SetBytes_Address_Bytes [bigint_simps]: "SetBytes (Address_Bytes a) = uint a"
  by (simp add: SetBytes_def)

lemma Address_Bytes_inj [simp]: "Address_Bytes a = Address_Bytes b \<longleftrightarrow> a = b"
  by (metis nat_SetBytes_Address_Bytes word_unat_eq_iff)

lemma Hash_Bytes_inj [simp]: "Hash_Bytes a = Hash_Bytes b \<longleftrightarrow> a = b"
  by (metis nat_SetBytes_Hash_Bytes word_unat_eq_iff)

lemma BytesToHash_Bytes [simp]: "BytesToHash (Hash_Bytes h) = h"
  by (simp add: BytesToHash_def)

lemma BytesToAddress_Bytes [simp]: "BytesToAddress (Address_Bytes a) = a"
  by (simp add: BytesToAddress_def)

lemma Address_Bytes_neq_Hash_Bytes [simp]:
  "Address_Bytes a \<noteq> Hash_Bytes h" "Hash_Bytes h \<noteq> Address_Bytes a"
  using length_Address_Bytes [of a] length_Hash_Bytes [of h] by fastforce+

text \<open>The sources copy the last 32 (or 20) bytes of the slice to the end of a zeroed array.\<close>

lemma SetBytes_mod_suffix:
  assumes "length b = n + k"
  shows "nat_SetBytes b mod 256 ^ k = nat_SetBytes (drop n b)"
proof -
  have "nat_SetBytes b = nat_SetBytes (take n b) * 256 ^ k + nat_SetBytes (drop n b)"
    using nat_SetBytes_append [of "take n b" "drop n b"] assms by simp
  moreover have "nat_SetBytes (drop n b) < 256 ^ k"
    using nat_SetBytes_less [of "drop n b"] assms by simp
  ultimately show ?thesis by simp
qed

lemma SetBytes_mod_copy:
  "nat_SetBytes b mod 256 ^ k = nat_SetBytes (replicate (k - min (length b) k) 0 @ drop (length b - min (length b) k) b)"
proof (cases "length b \<le> k")
  case True
  have "nat_SetBytes b < 256 ^ length b" by (rule nat_SetBytes_less)
  also have "\<dots> \<le> 256 ^ k" using True by (simp add: power_increasing)
  finally show ?thesis using True by simp
next
  case False
  then have "length b = (length b - k) + k" by simp
  from SetBytes_mod_suffix [OF this] show ?thesis using False by (simp add: min_def)
qed

lemma BytesToHash_copy:
  "Hash_Bytes (BytesToHash b) =
     replicate (32 - min (length b) 32) 0 @ drop (length b - min (length b) 32) b"
  using SetBytes_mod_copy [of b 32]
  by (intro nat_SetBytes_inj) (simp_all add: BytesToHash_def unat_of_nat)

lemma BytesToAddress_copy:
  "Address_Bytes (BytesToAddress b) =
     replicate (20 - min (length b) 20) 0 @ drop (length b - min (length b) 20) b"
  using SetBytes_mod_copy [of b 20]
  by (intro nat_SetBytes_inj) (simp_all add: BytesToAddress_def unat_of_nat)

subsection \<open>Fork activation (\<^verbatim>\<open>chain/params.go\<close>)\<close>

record Forks =
  f_Homestead :: "uint64 option"
  f_Byzantium :: "uint64 option"
  f_Constantinople :: "uint64 option"
  f_Petersburg :: "uint64 option"
  f_Istanbul :: "uint64 option"
  f_EIP150 :: "uint64 option"
  f_EIP158 :: "uint64 option"
  f_EIP155 :: "uint64 option"

record ForksInTime =
  Homestead :: bool
  Byzantium :: bool
  Constantinople :: bool
  Petersburg :: bool
  Istanbul :: bool
  EIP150 :: bool
  EIP158 :: bool
  EIP155 :: bool

definition Fork_Active :: "uint64 \<Rightarrow> uint64 \<Rightarrow> bool" where
  "Fork_Active f block \<longleftrightarrow> f \<le> block"

definition Forks_active :: "uint64 option \<Rightarrow> uint64 \<Rightarrow> bool" where
  "Forks_active ff block = (case ff of None \<Rightarrow> False | Some f \<Rightarrow> Fork_Active f block)"

definition Forks_At :: "Forks \<Rightarrow> uint64 \<Rightarrow> ForksInTime" where
  "Forks_At f block = \<lparr>
     Homestead = Forks_active (f_Homestead f) block,
     Byzantium = Forks_active (f_Byzantium f) block,
     Constantinople = Forks_active (f_Constantinople f) block,
     Petersburg = Forks_active (f_Petersburg f) block,
     Istanbul = Forks_active (f_Istanbul f) block,
     EIP150 = Forks_active (f_EIP150 f) block,
     EIP158 = Forks_active (f_EIP158 f) block,
     EIP155 = Forks_active (f_EIP155 f) block \<rparr>"

definition AllForksEnabled :: Forks where
  "AllForksEnabled = \<lparr>
     f_Homestead = Some 0, f_Byzantium = Some 0, f_Constantinople = Some 0,
     f_Petersburg = Some 0, f_Istanbul = Some 0, f_EIP150 = Some 0,
     f_EIP158 = Some 0, f_EIP155 = Some 0 \<rparr>"

lemma Forks_At_AllForksEnabled:
  "Forks_At AllForksEnabled block =
     \<lparr>Homestead = True, Byzantium = True, Constantinople = True, Petersburg = True,
      Istanbul = True, EIP150 = True, EIP158 = True, EIP155 = True\<rparr>"
  by (simp add: Forks_At_def AllForksEnabled_def Forks_active_def Fork_Active_def)

text \<open>A fork, once active, stays active at every later block.\<close>

lemma Forks_active_mono: "Forks_active ff b \<Longrightarrow> b \<le> b' \<Longrightarrow> Forks_active ff b'"
  by (auto simp: Forks_active_def Fork_Active_def split: option.splits)

subsection \<open>The runtime interface (\<^verbatim>\<open>state/runtime/runtime.go\<close>)\<close>

record TxContext =
  x_GasPrice :: Hash
  x_Origin :: Address
  x_Coinbase :: Address
  x_Number :: int
  x_Timestamp :: int
  x_GasLimit :: int
  x_ChainID :: int
  x_Difficulty :: Hash

datatype StorageStatus =
  StorageUnchanged | StorageModified | StorageModifiedAgain | StorageAdded | StorageDeleted

text \<open>
  The errors of the runtime package, of the EVM (\<^verbatim>\<open>state/runtime/evm/state.go\<close>, lines 38--48)
  and of the executor; \<open>errPrecompiled\<close> stands for an error a precompiled contract returns.
\<close>

datatype vm_error =
  ErrOutOfGas | ErrStackOverflow | ErrStackUnderflow | ErrNotEnoughFunds
| ErrInsufficientBalance | ErrMaxCodeSizeExceeded | ErrContractAddressCollision
| ErrDepth | ErrExecutionReverted | ErrCodeStoreOutOfGas
| errGasUintOverflow | errWriteProtection | errInvalidJump | errOpCodeNotFound
| errReturnDataOutOfBounds | errRuntimeNotFound | errPrecompiled string

datatype CallType = Call | CallCode | DelegateCall | StaticCall | Create | Create2

record Contract =
  c_Code :: bytes
  c_Type :: CallType
  c_CodeAddress :: Address
  c_Address :: Address
  c_Origin :: Address
  c_Caller :: Address
  c_Depth :: int
  c_Value :: "int option"
  c_Input :: bytes
  c_Gas :: uint64
  c_Static :: bool

record ExecutionResult =
  r_ReturnValue :: bytes
  r_GasLeft :: uint64
  r_GasUsed :: uint64
  r_Err :: "vm_error option"

definition Succeeded :: "ExecutionResult \<Rightarrow> bool" where
  "Succeeded r \<longleftrightarrow> r_Err r = None"

definition Failed :: "ExecutionResult \<Rightarrow> bool" where
  "Failed r \<longleftrightarrow> r_Err r \<noteq> None"

definition Reverted :: "ExecutionResult \<Rightarrow> bool" where
  "Reverted r \<longleftrightarrow> r_Err r = Some ErrExecutionReverted"

definition UpdateGasUsed :: "ExecutionResult \<Rightarrow> uint64 \<Rightarrow> uint64 \<Rightarrow> ExecutionResult" where
  "UpdateGasUsed r gasLimit refund =
     (let used = gasLimit - r_GasLeft r;
          maxRefund = used div 2;
          refund' = (if refund > maxRefund then maxRefund else refund)
      in r\<lparr>r_GasLeft := r_GasLeft r + refund', r_GasUsed := used - refund'\<rparr>)"

definition NewContract ::
    "int \<Rightarrow> Address \<Rightarrow> Address \<Rightarrow> Address \<Rightarrow> int option \<Rightarrow> uint64 \<Rightarrow> bytes \<Rightarrow> Contract" where
  "NewContract depth origin from to' value' gas' code' = \<lparr>
     c_Code = code', c_Type = Call, c_CodeAddress = to', c_Address = to', c_Origin = origin,
     c_Caller = from, c_Depth = depth, c_Value = value', c_Input = [], c_Gas = gas',
     c_Static = False \<rparr>"

definition NewContractCreation ::
    "int \<Rightarrow> Address \<Rightarrow> Address \<Rightarrow> Address \<Rightarrow> int option \<Rightarrow> uint64 \<Rightarrow> bytes \<Rightarrow> Contract" where
  "NewContractCreation depth origin from to' value' gas' code' =
     NewContract depth origin from to' value' gas' code'"

definition NewContractCall ::
    "int \<Rightarrow> Address \<Rightarrow> Address \<Rightarrow> Address \<Rightarrow> int option \<Rightarrow> uint64 \<Rightarrow> bytes \<Rightarrow> bytes \<Rightarrow> Contract" where
  "NewContractCall depth origin from to' value' gas' code' input' =
     (NewContract depth origin from to' value' gas' code')\<lparr>c_Input := input'\<rparr>"

lemmas NewContract_defs = NewContract_def NewContractCreation_def NewContractCall_def

text \<open>
  The host of a running contract. Reading code goes through a cache, so it returns a new
  host state; \<open>Callx\<close> runs a nested execution, which may panic.
\<close>

record 'h Host =
  AccountExists :: "'h \<Rightarrow> Address \<Rightarrow> bool"
  GetStorage :: "'h \<Rightarrow> Address \<Rightarrow> Hash \<Rightarrow> Hash"
  SetStorage :: "'h \<Rightarrow> Address \<Rightarrow> Hash \<Rightarrow> Hash \<Rightarrow> ForksInTime \<Rightarrow> StorageStatus \<times> 'h"
  GetBalance :: "'h \<Rightarrow> Address \<Rightarrow> int"
  GetCodeSize :: "'h \<Rightarrow> Address \<Rightarrow> nat \<times> 'h"
  GetCodeHash :: "'h \<Rightarrow> Address \<Rightarrow> Hash"
  GetCode :: "'h \<Rightarrow> Address \<Rightarrow> bytes \<times> 'h"
  Selfdestruct :: "'h \<Rightarrow> Address \<Rightarrow> Address \<Rightarrow> 'h"
  GetTxContext :: "'h \<Rightarrow> TxContext"
  GetBlockHash :: "'h \<Rightarrow> int \<Rightarrow> Hash"
  EmitLog :: "'h \<Rightarrow> Address \<Rightarrow> Hash list \<Rightarrow> bytes \<Rightarrow> 'h"
  Callx :: "'h \<Rightarrow> Contract \<Rightarrow> (ExecutionResult \<times> 'h) outcome"
  Empty :: "'h \<Rightarrow> Address \<Rightarrow> bool"
  GetNonce :: "'h \<Rightarrow> Address \<Rightarrow> uint64"
  GetRefund :: "'h \<Rightarrow> uint64"

subsection \<open>Contract addresses (\<^verbatim>\<open>crypto/crypto.go\<close>)\<close>

text \<open>
  The Keccak-256 hash (\<^verbatim>\<open>golang.org/x/crypto/sha3\<close>) and the RLP encoding of an address and a
  nonce (\<^verbatim>\<open>umbracle/fastrlp\<close>) are parameters, and so is the capacity of a byte slice of a given
  length. In the sources the capacity of the memory also depends on how it grew and on earlier uses of the pooled
  machine; it decides only whether a call with an empty return area behind the memory panics, and no theorem
  makes an assumption on it.
\<close>

record crypto_lib =
  Keccak256 :: "bytes \<Rightarrow> bytes"
  rlp_address_nonce :: "bytes \<Rightarrow> uint64 \<Rightarrow> bytes"
  slice_cap :: "nat \<Rightarrow> nat"

definition CreateAddress :: "crypto_lib \<Rightarrow> Address \<Rightarrow> uint64 \<Rightarrow> Address" where
  "CreateAddress L addr nonce =
     BytesToAddress (drop 12 (Keccak256 L (rlp_address_nonce L (Address_Bytes addr) nonce)))"

definition CreateAddress2 :: "crypto_lib \<Rightarrow> Address \<Rightarrow> Hash \<Rightarrow> bytes \<Rightarrow> Address" where
  "CreateAddress2 L addr salt inithash =
     BytesToAddress (drop 12 (Keccak256 L
       ([0xff] @ Address_Bytes addr @ Hash_Bytes salt @ Keccak256 L inithash)))"

subsection \<open>Gas accounting of a result\<close>

text \<open>
  Settling the gas of a transaction loses nothing and creates nothing: after the
  refund, gas used and gas left add up to the gas limit, the gas left is not below what
  execution returned, and the refund is at most half of the gas execution used.
\<close>

lemma UpdateGasUsed_balance:
  assumes "r_GasLeft r \<le> gasLimit"
  shows "unat (r_GasUsed (UpdateGasUsed r gasLimit refund)) +
           unat (r_GasLeft (UpdateGasUsed r gasLimit refund)) = unat gasLimit \<and>
         unat (r_GasLeft r) \<le> unat (r_GasLeft (UpdateGasUsed r gasLimit refund)) \<and>
         unat (r_GasLeft (UpdateGasUsed r gasLimit refund)) - unat (r_GasLeft r) \<le>
           (unat gasLimit - unat (r_GasLeft r)) div 2"
proof -
  define used where "used = gasLimit - r_GasLeft r"
  define rf where "rf = (if refund > used div 2 then used div 2 else refund)"
  have used: "unat used = unat gasLimit - unat (r_GasLeft r)"
    using assms by (simp add: used_def unat_sub)
  have le: "unat (r_GasLeft r) \<le> unat gasLimit" using assms by (simp add: word_le_nat_alt)
  have "rf \<le> used div 2" by (auto simp: rf_def not_less)
  then have rf: "unat rf \<le> unat used div 2" by (simp add: word_le_nat_alt unat_div)
  have lim: "unat gasLimit < 2 ^ 64" using unsigned_less [of gasLimit] by simp
  have left: "unat (r_GasLeft r + rf) = unat (r_GasLeft r) + unat rf"
    by (rule unat_add_lem [THEN iffD1]) (use rf used le lim in simp)
  have u: "unat (used - rf) = unat used - unat rf"
    by (rule unat_sub) (use rf in \<open>simp add: word_le_nat_alt\<close>)
  have "UpdateGasUsed r gasLimit refund =
      r\<lparr>r_GasLeft := r_GasLeft r + rf, r_GasUsed := used - rf\<rparr>"
    by (simp add: UpdateGasUsed_def Let_def used_def rf_def)
  then show ?thesis using left u rf used le by simp
qed

end
