(* ===== verification/EVM_State.thy ===== *)
theory EVM_State
  imports Runtime
begin

section \<open>The EVM's execution state (\<^verbatim>\<open>state/runtime/evm/state.go\<close>, \<^verbatim>\<open>bitmap.go\<close>)\<close>

text \<open>
  The state of a running contract: program counter, stack, memory, gas and the jump
  destination bitmap, with the primitive operations the instructions are made of.

  The stack is the list \<open>stack[sp-1], \<dots>, stack[0]\<close> (top first); the slots of the Go slice
  above \<open>sp\<close> are never read before they are written. Stack values are \<^verbatim>\<open>*big.Int\<close>, so they
  are unbounded integers here too, and that they stay below \<open>2^256\<close> is a theorem. The
  scratch buffer \<^verbatim>\<open>tmp\<close> is local to each instruction. The tracer is nil, as it is when blocks
  are executed.
\<close>

named_theorems evm_defs "the primitives of the EVM state"

subsection \<open>Pooled byte buffers\<close>

text \<open>
  States and their buffers are reused through a \<^verbatim>\<open>sync.Pool\<close>. A Go slice is its backing
  array up to its capacity and a length. \<open>extendByteSlice\<close> first reslices to the capacity,
  so whatever a previous user left there becomes visible; \<open>extra\<close> is the additional
  capacity \<^verbatim>\<open>append\<close> may allocate (the runtime's choice, zeroed).
\<close>

record pooled =
  arr :: bytes
  len :: nat

definition visible :: "pooled \<Rightarrow> bytes" where
  "visible b = take (len b) (arr b)"

definition pooled_extend :: "nat \<Rightarrow> pooled \<Rightarrow> nat \<Rightarrow> pooled" where
  "pooled_extend extra b needLen =
     (if length (arr b) < needLen
      then \<lparr>arr = arr b @ replicate (needLen - length (arr b)) 0 @ replicate extra 0, len = needLen\<rparr>
      else b\<lparr>len := needLen\<rparr>)"

text \<open>\<^verbatim>\<open>for i := range b { b[i] = 0 }; b = b[:0]\<close>\<close>

definition pooled_reset :: "pooled \<Rightarrow> pooled" where
  "pooled_reset b = \<lparr>arr = replicate (len b) 0 @ drop (len b) (arr b), len = 0\<rparr>"

definition pooled_write :: "pooled \<Rightarrow> nat \<Rightarrow> byte \<Rightarrow> pooled" where
  "pooled_write b i v = (if i < len b then b\<lparr>arr := (arr b)[i := v]\<rparr> else b)"

definition pool_clean :: "pooled \<Rightarrow> bool" where
  "pool_clean b \<longleftrightarrow> len b \<le> length (arr b) \<and> (\<forall>x \<in> set (drop (len b) (arr b)). x = 0)"

text \<open>
  What the EVM relies on: extending a buffer shows zeros only. The contract is stated once,
  for any representation, and holds of the slices of the sources and of plain lists, which
  the model of the EVM uses.
\<close>

locale byte_buffer =
  fixes view :: "'b \<Rightarrow> bytes"
    and extend :: "'b \<Rightarrow> nat \<Rightarrow> 'b"
    and reset_buffer :: "'b \<Rightarrow> 'b"
    and store :: "'b \<Rightarrow> nat \<Rightarrow> byte \<Rightarrow> 'b"
    and ok :: "'b \<Rightarrow> bool"
  assumes view_extend:
      "ok b \<Longrightarrow> length (view b) \<le> n \<Longrightarrow> view (extend b n) = view b @ replicate (n - length (view b)) 0"
    and view_reset: "ok b \<Longrightarrow> view (reset_buffer b) = []"
    and view_write: "ok b \<Longrightarrow> i < length (view b) \<Longrightarrow> view (store b i v) = (view b)[i := v]"
    and ok_extend: "ok b \<Longrightarrow> length (view b) \<le> n \<Longrightarrow> ok (extend b n)"
    and ok_reset: "ok b \<Longrightarrow> ok (reset_buffer b)"
    and ok_write: "ok b \<Longrightarrow> i < length (view b) \<Longrightarrow> ok (store b i v)"
begin

lemma reused_is_zero: "ok b \<Longrightarrow> view (extend (reset_buffer b) n) = replicate n 0"
  by (simp add: view_extend view_reset ok_reset)

lemma read_after_write:
  "ok b \<Longrightarrow> i < length (view b) \<Longrightarrow> view (store b i v) ! j = (if i = j then v else view b ! j)"
  by (simp add: view_write nth_list_update)

end

definition extendByteSlice :: "bytes \<Rightarrow> nat \<Rightarrow> bytes" where
  "extendByteSlice b needLen = take needLen b @ replicate (needLen - length b) 0"

interpretation list_buffer: byte_buffer "\<lambda>b. b" extendByteSlice "\<lambda>_. []" "\<lambda>b i v. b[i := v]" "\<lambda>_. True"
  by unfold_locales (auto simp: extendByteSlice_def)

lemma length_visible: "pool_clean b \<Longrightarrow> length (visible b) = len b"
  by (simp add: visible_def pool_clean_def)

lemma clean_tail: "pool_clean b \<Longrightarrow> drop (len b) (arr b) = replicate (length (arr b) - len b) 0"
  by (auto simp: pool_clean_def intro!: replicate_eqI)

lemma arr_split: "pool_clean b \<Longrightarrow> arr b = visible b @ replicate (length (arr b) - len b) 0"
  unfolding visible_def by (simp flip: clean_tail)

lemma visible_extend:
  assumes "pool_clean b" and "len b \<le> n"
  shows "visible (pooled_extend extra b n) = visible b @ replicate (n - len b) 0"
proof -
  define v k where "v = visible b" and "k = length (arr b) - len b"
  have lv: "length v = len b" using assms(1) by (simp add: v_def length_visible)
  have arr: "arr b = v @ replicate k 0" using assms(1) by (simp add: v_def k_def flip: arr_split)
  have lk: "length (arr b) = len b + k" using arr lv by simp
  show ?thesis
  proof (cases "length (arr b) < n")
    case True
    then have "visible (pooled_extend extra b n) = v @ replicate (k + (n - (len b + k))) 0"
      by (simp add: pooled_extend_def visible_def lk arr lv flip: replicate_add)
    then show ?thesis using True lk by (simp add: v_def)
  next
    case False
    then have "visible (pooled_extend extra b n) = v @ replicate (min (n - len b) k) 0"
      using assms(2) by (simp add: pooled_extend_def visible_def arr lv)
    then show ?thesis using False lk by (simp add: v_def min_absorb1)
  qed
qed

lemma pool_clean_extend:
  assumes "pool_clean b" and "len b \<le> n"
  shows "pool_clean (pooled_extend extra b n)"
proof -
  have "set (drop n (arr b)) \<subseteq> set (drop (len b) (arr b))"
    using assms(2) by (rule set_drop_subset_set_drop)
  then show ?thesis using assms by (auto simp: pooled_extend_def pool_clean_def)
qed

lemma pool_clean_reset: "pool_clean b \<Longrightarrow> pool_clean (pooled_reset b)"
  by (auto simp: pooled_reset_def pool_clean_def)

interpretation pooled_buffer: byte_buffer visible "pooled_extend extra" pooled_reset pooled_write pool_clean
  for extra
proof
  fix b n assume "pool_clean b" "length (visible b) \<le> n"
  then show "visible (pooled_extend extra b n) = visible b @ replicate (n - length (visible b)) 0"
    and "pool_clean (pooled_extend extra b n)"
    by (simp_all add: length_visible visible_extend pool_clean_extend)
next
  fix b :: pooled assume "pool_clean b"
  then show "visible (pooled_reset b) = []" and "pool_clean (pooled_reset b)"
    by (simp_all add: pool_clean_reset) (simp add: visible_def pooled_reset_def)
next
  fix b i v assume "pool_clean b" "i < length (visible b)"
  then show "visible (pooled_write b i v) = (visible b)[i := v]" and "pool_clean (pooled_write b i v)"
    by (simp_all add: length_visible pooled_write_def)
      (simp_all add: visible_def pool_clean_def take_update_swap)
qed

subsection \<open>The jump destination bitmap (\<^verbatim>\<open>bitmap.go\<close>)\<close>

definition isPushOp :: "byte \<Rightarrow> bool" where
  "isPushOp i \<longleftrightarrow> drop_bit 5 i = 3"

definition bitmap_isSet :: "bytes \<Rightarrow> nat \<Rightarrow> bool option" where
  "bitmap_isSet buf i =
     (if i div 8 < length buf
      then Some (buf ! (i div 8) AND push_bit (i mod 8) 1 \<noteq> 0) else None)"

definition bitmap_set :: "bytes \<Rightarrow> nat \<Rightarrow> bytes option" where
  "bitmap_set buf i =
     (if i div 8 < length buf
      then Some (buf[i div 8 := buf ! (i div 8) OR push_bit (i mod 8) 1]) else None)"

text \<open>The loop of \<^verbatim>\<open>setCode\<close> at index \<open>i\<close>.\<close>

function setCode_loop :: "bytes \<Rightarrow> nat \<Rightarrow> bytes \<Rightarrow> bytes option" where
  "setCode_loop cd i buf =
     (if i < length cd then
        (let c = cd ! i in
         if isPushOp c then setCode_loop cd (i + unat (c - 0x60 + 2)) buf
         else if c = 0x5B then
           (case bitmap_set buf i of None \<Rightarrow> None | Some buf' \<Rightarrow> setCode_loop cd (i + 1) buf')
         else setCode_loop cd (i + 1) buf)
      else Some buf)"
  by pat_completeness auto

text \<open>A push instruction advances by between 2 and 33.\<close>

lemma div_32_eq_3: "(n :: nat) div 32 = 3 \<longleftrightarrow> 96 \<le> n \<and> n \<le> 127"
  by linarith

lemma isPushOp_range: "isPushOp c \<longleftrightarrow> 0x60 \<le> c \<and> c \<le> 0x7F"
proof -
  have *: "unat (drop_bit 5 c) = unat c div 32"
    by (simp only: drop_bit_eq_div unat_div) simp
  have three: "unat (3 :: byte) = 3" by simp
  have "drop_bit 5 c = 3 \<longleftrightarrow> unat (drop_bit 5 c) = unat (3 :: byte)"
    by (rule word_unat_eq_iff)
  also have "\<dots> \<longleftrightarrow> unat c div 32 = 3" unfolding * three ..
  also have "\<dots> \<longleftrightarrow> 96 \<le> unat c \<and> unat c \<le> 127" by (rule div_32_eq_3)
  finally show ?thesis by (simp add: isPushOp_def word_le_nat_alt)
qed

lemma isPushOp_size:
  assumes "isPushOp c"
  shows "unat (c - 0x60 + 2) = unat c - 94"
proof -
  have "c - 0x60 + 2 = c - 94" by simp
  moreover have "94 \<le> c" using assms by (simp add: isPushOp_range word_le_nat_alt)
  ultimately show ?thesis by (simp only: unat_sub) simp
qed

lemma isPushOp_size_pos:
  assumes "isPushOp c"
  shows "2 \<le> unat (c - 0x60 + 2)"
proof -
  have "96 \<le> unat c" using assms by (simp add: isPushOp_range word_le_nat_alt)
  then show ?thesis unfolding isPushOp_size [OF assms] by simp
qed

termination setCode_loop
  by (relation "measure (\<lambda>(cd, i, buf). length cd - i)")
    (auto dest: isPushOp_size_pos)

declare setCode_loop.simps [simp del]

definition setCode :: "bytes \<Rightarrow> bytes \<Rightarrow> bytes option" where
  "setCode buf cd = setCode_loop cd 0 (extendByteSlice buf (length cd div 8 + 1))"

subsection \<open>The state record\<close>

record 'h state =
  s_ip :: int
  s_code :: bytes
  s_host :: 'h
  s_msg :: Contract
  s_config :: ForksInTime
  s_memory :: bytes
  s_lastGasCost :: uint64
  s_stack :: "int list"
  s_err :: "vm_error option"
  s_stop :: bool
  s_gas :: uint64
  s_currentConsumedGas :: uint64
  s_bitmap :: bytes
  s_returnData :: bytes
  s_ret :: bytes

definition stackSize :: nat where
  "stackSize = 1024"

definition state_reset :: "'h state \<Rightarrow> 'h state" where
  "state_reset c = c\<lparr>s_ip := 0, s_gas := 0, s_currentConsumedGas := 0, s_lastGasCost := 0,
     s_stop := False, s_err := None, s_bitmap := [], s_stack := [], s_ret := [], s_code := [],
     s_memory := []\<rparr>"

definition Halt :: "'h state \<Rightarrow> 'h state" where
  [evm_defs]: "Halt c = c\<lparr>s_stop := True\<rparr>"

definition exit :: "'h state \<Rightarrow> vm_error \<Rightarrow> 'h state" where
  [evm_defs]: "exit c e = c\<lparr>s_stop := True, s_err := Some e\<rparr>"

definition validJumpdest :: "'h state \<Rightarrow> int \<Rightarrow> bool option" where
  "validJumpdest c dest =
     (let udest = Uint64 dest in
      if BitLen dest \<ge> 63 \<or> udest \<ge> word_of_nat (length (s_code c)) then Some False
      else bitmap_isSet (s_bitmap c) (unat udest))"

text \<open>\<^verbatim>\<open>c.push1().Set(v)\<close>: every use of \<^verbatim>\<open>push1\<close> writes the slot it returns.\<close>

definition push :: "'h state \<Rightarrow> int \<Rightarrow> 'h state" where
  [evm_defs]: "push c v = c\<lparr>s_stack := v # s_stack c\<rparr>"

definition stackAtLeast :: "'h state \<Rightarrow> nat \<Rightarrow> bool" where
  [evm_defs]: "stackAtLeast c n \<longleftrightarrow> length (s_stack c) \<ge> n"

text \<open>\<^verbatim>\<open>pop\<close> and \<^verbatim>\<open>top\<close> return nil on an empty stack.\<close>

definition pop :: "'h state \<Rightarrow> int option \<times> 'h state" where
  [evm_defs]: "pop c = (case s_stack c of [] \<Rightarrow> (None, c) | v # st \<Rightarrow> (Some v, c\<lparr>s_stack := st\<rparr>))"

definition top :: "'h state \<Rightarrow> int option" where
  [evm_defs]: "top c = (case s_stack c of [] \<Rightarrow> None | v # st \<Rightarrow> Some v)"

text \<open>
  \<open>popv\<close> and \<open>topv\<close> are the uses that dereference the result: a nil pointer panics.
  \<open>set_top\<close> writes through the pointer \<^verbatim>\<open>top\<close> returned.
\<close>

definition popv :: "'h state \<Rightarrow> (int \<times> 'h state) option" where
  [evm_defs]: "popv c = (case pop c of (None, _) \<Rightarrow> None | (Some v, c') \<Rightarrow> Some (v, c'))"

definition set_top :: "'h state \<Rightarrow> int \<Rightarrow> 'h state" where
  [evm_defs]: "set_top c v = c\<lparr>s_stack := v # tl (s_stack c)\<rparr>"

definition popHash :: "'h state \<Rightarrow> (Hash \<times> 'h state) option" where
  [evm_defs]: "popHash c = (case popv c of None \<Rightarrow> None | Some (v, c') \<Rightarrow> Some (BytesToHash (Bytes v), c'))"

definition popAddr :: "'h state \<Rightarrow> (Address \<times> bool) \<times> 'h state" where
  [evm_defs]: "popAddr c = (case pop c of
     (None, c') \<Rightarrow> ((0, False), c')
   | (Some b, c') \<Rightarrow> ((BytesToAddress (Bytes b), True), c'))"

definition peekAt :: "'h state \<Rightarrow> nat \<Rightarrow> int option" where
  [evm_defs]: "peekAt c n =
     (if 0 < n \<and> n \<le> length (s_stack c) then Some (s_stack c ! (n - 1)) else None)"

definition swap :: "'h state \<Rightarrow> nat \<Rightarrow> 'h state option" where
  [evm_defs]: "swap c n =
     (if n < length (s_stack c)
      then Some (c\<lparr>s_stack := (s_stack c)[0 := s_stack c ! n, n := s_stack c ! 0]\<rparr>)
      else None)"

definition consumeGas :: "'h state \<Rightarrow> uint64 \<Rightarrow> bool \<times> 'h state" where
  "consumeGas c g =
     (let c = c\<lparr>s_currentConsumedGas := s_currentConsumedGas c + g\<rparr> in
      if s_gas c < g then (False, exit c ErrOutOfGas)
      else (True, c\<lparr>s_gas := s_gas c - g\<rparr>))"

definition resetReturnData :: "'h state \<Rightarrow> 'h state" where
  [evm_defs]: "resetReturnData c = c\<lparr>s_returnData := []\<rparr>"

definition inStaticCall :: "'h state \<Rightarrow> bool" where
  [evm_defs]: "inStaticCall c = c_Static (s_msg c)"

definition bigToHash :: "int \<Rightarrow> Hash" where
  "bigToHash b = BytesToHash (Bytes b)"

definition allocateMemory :: "'h state \<Rightarrow> int \<Rightarrow> int \<Rightarrow> bool \<times> 'h state" where
  "allocateMemory c offset sz =
     (if \<not> IsUint64 offset \<or> \<not> IsUint64 sz then (False, exit c errGasUintOverflow)
      else if sz = 0 then (True, c)
      else
        (let o' = Uint64 offset; s' = Uint64 sz in
         if o' > 0xffffffffe0 \<or> s' > 0xffffffffe0 then (False, exit c errGasUintOverflow)
         else
           (let newSize = o' + s'; currentSize = word_of_nat (length (s_memory c)) in
            if currentSize < newSize then
              (let w = (newSize + 31) div 32;
                   newCost = 3 * w + w * w div 512;
                   cost = newCost - s_lastGasCost c;
                   c = c\<lparr>s_lastGasCost := newCost\<rparr>
               in case consumeGas c cost of
                    (False, c) \<Rightarrow> (False, exit c ErrOutOfGas)
                  | (True, c) \<Rightarrow> (True, c\<lparr>s_memory := extendByteSlice (s_memory c) (unat (w * 32))\<rparr>))
            else (True, c))))"

text \<open>
  \<open>get2\<close> is the slice appended to the (empty) destination, or a failure; \<^const>\<open>None\<close> when the
  slice expression \<^verbatim>\<open>c.memory[o:o+l]\<close> panics.
\<close>

definition get2 :: "'h state \<Rightarrow> int \<Rightarrow> int \<Rightarrow> (bytes option \<times> 'h state) option" where
  "get2 c offset l =
     (if l = 0 then Some (Some [], c)
      else case allocateMemory c offset l of
        (False, c) \<Rightarrow> Some (None, c)
      | (True, c) \<Rightarrow>
          (let o' = Uint64 offset; l' = Uint64 l in
           case slice (s_memory c) (unat o') (unat (o' + l')) of
             None \<Rightarrow> None
           | Some bs \<Rightarrow> Some (Some bs, c)))"

definition CurrentOpCode :: "'h state \<Rightarrow> (byte \<times> bool) option" where
  "CurrentOpCode c =
     (if s_ip c \<ge> int (length (s_code c)) then Some (0, False)
      else if s_ip c < 0 then None
      else Some (s_code c ! nat (s_ip c), True))"

end
