(* ===== verification/EVM_Opcodes.thy ===== *)
theory EVM_Opcodes
  imports Prelude
begin

section \<open>Operation codes (\<^verbatim>\<open>state/runtime/evm/opcodes.go\<close>)\<close>

text \<open>
  The constants of the operation codes and the map from codes to names. An operation code
  is a byte of the code being run, as the dispatch table has 256 entries.
\<close>

abbreviation (input) OP_STOP :: byte where "OP_STOP \<equiv> 0x00"
abbreviation (input) OP_ADD :: byte where "OP_ADD \<equiv> 0x01"
abbreviation (input) OP_MUL :: byte where "OP_MUL \<equiv> 0x02"
abbreviation (input) OP_SUB :: byte where "OP_SUB \<equiv> 0x03"
abbreviation (input) OP_DIV :: byte where "OP_DIV \<equiv> 0x04"
abbreviation (input) OP_SDIV :: byte where "OP_SDIV \<equiv> 0x05"
abbreviation (input) OP_MOD :: byte where "OP_MOD \<equiv> 0x06"
abbreviation (input) OP_SMOD :: byte where "OP_SMOD \<equiv> 0x07"
abbreviation (input) OP_ADDMOD :: byte where "OP_ADDMOD \<equiv> 0x08"
abbreviation (input) OP_MULMOD :: byte where "OP_MULMOD \<equiv> 0x09"
abbreviation (input) OP_EXP :: byte where "OP_EXP \<equiv> 0x0A"
abbreviation (input) OP_SIGNEXTEND :: byte where "OP_SIGNEXTEND \<equiv> 0x0B"
abbreviation (input) OP_LT :: byte where "OP_LT \<equiv> 0x10"
abbreviation (input) OP_GT :: byte where "OP_GT \<equiv> 0x11"
abbreviation (input) OP_SLT :: byte where "OP_SLT \<equiv> 0x12"
abbreviation (input) OP_SGT :: byte where "OP_SGT \<equiv> 0x13"
abbreviation (input) OP_EQ :: byte where "OP_EQ \<equiv> 0x14"
abbreviation (input) OP_ISZERO :: byte where "OP_ISZERO \<equiv> 0x15"
abbreviation (input) OP_AND :: byte where "OP_AND \<equiv> 0x16"
abbreviation (input) OP_OR :: byte where "OP_OR \<equiv> 0x17"
abbreviation (input) OP_XOR :: byte where "OP_XOR \<equiv> 0x18"
abbreviation (input) OP_NOT :: byte where "OP_NOT \<equiv> 0x19"
abbreviation (input) OP_BYTE :: byte where "OP_BYTE \<equiv> 0x1A"
abbreviation (input) OP_SHL :: byte where "OP_SHL \<equiv> 0x1B"
abbreviation (input) OP_SHR :: byte where "OP_SHR \<equiv> 0x1C"
abbreviation (input) OP_SAR :: byte where "OP_SAR \<equiv> 0x1D"
abbreviation (input) OP_SHA3 :: byte where "OP_SHA3 \<equiv> 0x20"
abbreviation (input) OP_ADDRESS :: byte where "OP_ADDRESS \<equiv> 0x30"
abbreviation (input) OP_BALANCE :: byte where "OP_BALANCE \<equiv> 0x31"
abbreviation (input) OP_ORIGIN :: byte where "OP_ORIGIN \<equiv> 0x32"
abbreviation (input) OP_CALLER :: byte where "OP_CALLER \<equiv> 0x33"
abbreviation (input) OP_CALLVALUE :: byte where "OP_CALLVALUE \<equiv> 0x34"
abbreviation (input) OP_CALLDATALOAD :: byte where "OP_CALLDATALOAD \<equiv> 0x35"
abbreviation (input) OP_CALLDATASIZE :: byte where "OP_CALLDATASIZE \<equiv> 0x36"
abbreviation (input) OP_CALLDATACOPY :: byte where "OP_CALLDATACOPY \<equiv> 0x37"
abbreviation (input) OP_CODESIZE :: byte where "OP_CODESIZE \<equiv> 0x38"
abbreviation (input) OP_CODECOPY :: byte where "OP_CODECOPY \<equiv> 0x39"
abbreviation (input) OP_GASPRICE :: byte where "OP_GASPRICE \<equiv> 0x3A"
abbreviation (input) OP_EXTCODESIZE :: byte where "OP_EXTCODESIZE \<equiv> 0x3B"
abbreviation (input) OP_EXTCODECOPY :: byte where "OP_EXTCODECOPY \<equiv> 0x3C"
abbreviation (input) OP_RETURNDATASIZE :: byte where "OP_RETURNDATASIZE \<equiv> 0x3D"
abbreviation (input) OP_RETURNDATACOPY :: byte where "OP_RETURNDATACOPY \<equiv> 0x3E"
abbreviation (input) OP_EXTCODEHASH :: byte where "OP_EXTCODEHASH \<equiv> 0x3F"
abbreviation (input) OP_BLOCKHASH :: byte where "OP_BLOCKHASH \<equiv> 0x40"
abbreviation (input) OP_COINBASE :: byte where "OP_COINBASE \<equiv> 0x41"
abbreviation (input) OP_TIMESTAMP :: byte where "OP_TIMESTAMP \<equiv> 0x42"
abbreviation (input) OP_NUMBER :: byte where "OP_NUMBER \<equiv> 0x43"
abbreviation (input) OP_DIFFICULTY :: byte where "OP_DIFFICULTY \<equiv> 0x44"
abbreviation (input) OP_GASLIMIT :: byte where "OP_GASLIMIT \<equiv> 0x45"
abbreviation (input) OP_CHAINID :: byte where "OP_CHAINID \<equiv> 0x46"
abbreviation (input) OP_SELFBALANCE :: byte where "OP_SELFBALANCE \<equiv> 0x47"
abbreviation (input) OP_POP :: byte where "OP_POP \<equiv> 0x50"
abbreviation (input) OP_MLOAD :: byte where "OP_MLOAD \<equiv> 0x51"
abbreviation (input) OP_MSTORE :: byte where "OP_MSTORE \<equiv> 0x52"
abbreviation (input) OP_MSTORE8 :: byte where "OP_MSTORE8 \<equiv> 0x53"
abbreviation (input) OP_SLOAD :: byte where "OP_SLOAD \<equiv> 0x54"
abbreviation (input) OP_SSTORE :: byte where "OP_SSTORE \<equiv> 0x55"
abbreviation (input) OP_JUMP :: byte where "OP_JUMP \<equiv> 0x56"
abbreviation (input) OP_JUMPI :: byte where "OP_JUMPI \<equiv> 0x57"
abbreviation (input) OP_PC :: byte where "OP_PC \<equiv> 0x58"
abbreviation (input) OP_MSIZE :: byte where "OP_MSIZE \<equiv> 0x59"
abbreviation (input) OP_GAS :: byte where "OP_GAS \<equiv> 0x5A"
abbreviation (input) OP_JUMPDEST :: byte where "OP_JUMPDEST \<equiv> 0x5B"
abbreviation (input) OP_PUSH1 :: byte where "OP_PUSH1 \<equiv> 0x60"
abbreviation (input) OP_PUSH32 :: byte where "OP_PUSH32 \<equiv> 0x7F"
abbreviation (input) OP_DUP1 :: byte where "OP_DUP1 \<equiv> 0x80"
abbreviation (input) OP_DUP16 :: byte where "OP_DUP16 \<equiv> 0x8F"
abbreviation (input) OP_SWAP1 :: byte where "OP_SWAP1 \<equiv> 0x90"
abbreviation (input) OP_SWAP16 :: byte where "OP_SWAP16 \<equiv> 0x9F"
abbreviation (input) OP_LOG0 :: byte where "OP_LOG0 \<equiv> 0xA0"
abbreviation (input) OP_LOG1 :: byte where "OP_LOG1 \<equiv> 0xA1"
abbreviation (input) OP_LOG2 :: byte where "OP_LOG2 \<equiv> 0xA2"
abbreviation (input) OP_LOG3 :: byte where "OP_LOG3 \<equiv> 0xA3"
abbreviation (input) OP_LOG4 :: byte where "OP_LOG4 \<equiv> 0xA4"
abbreviation (input) OP_CREATE :: byte where "OP_CREATE \<equiv> 0xF0"
abbreviation (input) OP_CALL :: byte where "OP_CALL \<equiv> 0xF1"
abbreviation (input) OP_CALLCODE :: byte where "OP_CALLCODE \<equiv> 0xF2"
abbreviation (input) OP_RETURN :: byte where "OP_RETURN \<equiv> 0xF3"
abbreviation (input) OP_DELEGATECALL :: byte where "OP_DELEGATECALL \<equiv> 0xF4"
abbreviation (input) OP_CREATE2 :: byte where "OP_CREATE2 \<equiv> 0xF5"
abbreviation (input) OP_STATICCALL :: byte where "OP_STATICCALL \<equiv> 0xFA"
abbreviation (input) OP_REVERT :: byte where "OP_REVERT \<equiv> 0xFD"
abbreviation (input) OP_SELFDESTRUCT :: byte where "OP_SELFDESTRUCT \<equiv> 0xFF"

text \<open>The literal of the name map.\<close>

definition opcode_names :: "(byte \<times> string) list" where
  "opcode_names = [
     (OP_STOP, ''STOP''),
     (OP_ADD, ''ADD''),
     (OP_MUL, ''MUL''),
     (OP_SUB, ''SUB''),
     (OP_DIV, ''DIV''),
     (OP_SDIV, ''SDIV''),
     (OP_MOD, ''MOD''),
     (OP_SMOD, ''SMOD''),
     (OP_EXP, ''EXP''),
     (OP_NOT, ''NOT''),
     (OP_LT, ''LT''),
     (OP_GT, ''GT''),
     (OP_SLT, ''SLT''),
     (OP_SGT, ''SGT''),
     (OP_EQ, ''EQ''),
     (OP_ISZERO, ''ISZERO''),
     (OP_SIGNEXTEND, ''SIGNEXTEND''),
     (OP_AND, ''AND''),
     (OP_OR, ''OR''),
     (OP_XOR, ''XOR''),
     (OP_BYTE, ''BYTE''),
     (OP_SHL, ''SHL''),
     (OP_SHR, ''SHR''),
     (OP_SAR, ''SAR''),
     (OP_ADDMOD, ''ADDMOD''),
     (OP_MULMOD, ''MULMOD''),
     (OP_SHA3, ''SHA3''),
     (OP_ADDRESS, ''ADDRESS''),
     (OP_BALANCE, ''BALANCE''),
     (OP_ORIGIN, ''ORIGIN''),
     (OP_CALLER, ''CALLER''),
     (OP_CALLVALUE, ''CALLVALUE''),
     (OP_CALLDATALOAD, ''CALLDATALOAD''),
     (OP_CALLDATASIZE, ''CALLDATASIZE''),
     (OP_CALLDATACOPY, ''CALLDATACOPY''),
     (OP_CODESIZE, ''CODESIZE''),
     (OP_CODECOPY, ''CODECOPY''),
     (OP_GASPRICE, ''GASPRICE''),
     (OP_EXTCODESIZE, ''EXTCODESIZE''),
     (OP_EXTCODECOPY, ''EXTCODECOPY''),
     (OP_RETURNDATASIZE, ''RETURNDATASIZE''),
     (OP_RETURNDATACOPY, ''RETURNDATACOPY''),
     (OP_EXTCODEHASH, ''EXTCODEHASH''),
     (OP_BLOCKHASH, ''BLOCKHASH''),
     (OP_COINBASE, ''COINBASE''),
     (OP_TIMESTAMP, ''TIMESTAMP''),
     (OP_NUMBER, ''NUMBER''),
     (OP_DIFFICULTY, ''DIFFICULTY''),
     (OP_GASLIMIT, ''GASLIMIT''),
     (OP_POP, ''POP''),
     (OP_MLOAD, ''MLOAD''),
     (OP_MSTORE, ''MSTORE''),
     (OP_MSTORE8, ''MSTORE8''),
     (OP_SLOAD, ''SLOAD''),
     (OP_SSTORE, ''SSTORE''),
     (OP_JUMP, ''JUMP''),
     (OP_JUMPI, ''JUMPI''),
     (OP_PC, ''PC''),
     (OP_MSIZE, ''MSIZE''),
     (OP_GAS, ''GAS''),
     (OP_JUMPDEST, ''JUMPDEST''),
     (OP_CREATE, ''CREATE''),
     (OP_CALL, ''CALL''),
     (OP_RETURN, ''RETURN''),
     (OP_CALLCODE, ''CALLCODE''),
     (OP_DELEGATECALL, ''DELEGATECALL''),
     (OP_CREATE2, ''CREATE2''),
     (OP_STATICCALL, ''STATICCALL''),
     (OP_REVERT, ''REVERT''),
     (OP_SELFDESTRUCT, ''SELFDESTRUCT''),
     (OP_CHAINID, ''CHAINID''),
     (OP_SELFBALANCE, ''SELFBALANCE'')]"

fun decimal :: "nat \<Rightarrow> string" where
  "decimal n = (if n < 10 then [char_of (48 + n)] else decimal (n div 10) @ [char_of (48 + n mod 10)])"

text \<open>\<^verbatim>\<open>opCodesToString(from, to, str)\<close> names a range, counting from 1, or from 0 for \<^verbatim>\<open>LOG0\<close>.\<close>

definition opCodesToString :: "byte \<Rightarrow> byte \<Rightarrow> string \<Rightarrow> (byte \<times> string) list" where
  "opCodesToString from to' str =
     (let c = (if from = OP_LOG0 then 0 else 1)
      in map (\<lambda>k. (from + word_of_nat k, str @ decimal (c + k))) [0..<Suc (unat to' - unat from)])"

definition opCodeToString :: "(byte \<times> string) list" where
  "opCodeToString = opcode_names
     @ opCodesToString OP_PUSH1 OP_PUSH32 ''PUSH''
     @ opCodesToString OP_DUP1 OP_DUP16 ''DUP''
     @ opCodesToString OP_LOG0 OP_LOG4 ''LOG''
     @ opCodesToString OP_SWAP1 OP_SWAP16 ''SWAP''"

text \<open>A code without a name prints as the empty string.\<close>

definition OpCode_String :: "byte \<Rightarrow> string" where
  "OpCode_String op = (case map_of opCodeToString op of None \<Rightarrow> [] | Some s \<Rightarrow> s)"

end
