(* ===== verification/EVM_Instructions.thy ===== *)
theory EVM_Instructions
  imports EVM_State EVM_Opcodes
begin

section \<open>The EVM's instructions (\<^verbatim>\<open>state/runtime/evm/instructions.go\<close>)\<close>

text \<open>
  One definition per instruction, in the order of the sources. An instruction takes the
  state and returns the new state; \<^const>\<open>None\<close> is a Go panic. An instruction that runs
  nested code (\<open>opCreate\<close>, \<open>opCall\<close>) returns an \<^typ>\<open>'h state outcome\<close>. \<open>H\<close> is the host, \<open>L\<close> the
  external libraries.
\<close>

named_theorems op_defs "the instructions"

text \<open>
  The early returns of the sources: \<^verbatim>\<open>if !c.consumeGas(g) { ... }\<close>,
  \<^verbatim>\<open>if !c.allocateMemory(o, s) { ... }\<close> and \<^verbatim>\<open>if bs, ok = c.get2(o, s); !ok { ... }\<close>. \<open>f\<close> is what
  follows the failure, \<open>k\<close> the rest of the function. The \<open>with\<close> forms just return on failure.
\<close>

definition tryGas :: "'h state \<Rightarrow> uint64 \<Rightarrow> ('h state \<Rightarrow> 'a) \<Rightarrow> ('h state \<Rightarrow> 'a) \<Rightarrow> 'a" where
  "tryGas c g f k = (case consumeGas c g of (False, c) \<Rightarrow> f c | (True, c) \<Rightarrow> k c)"

definition tryMemory :: "'h state \<Rightarrow> int \<Rightarrow> int \<Rightarrow> ('h state \<Rightarrow> 'a) \<Rightarrow> ('h state \<Rightarrow> 'a) \<Rightarrow> 'a" where
  "tryMemory c offset sz f k =
     (case allocateMemory c offset sz of (False, c) \<Rightarrow> f c | (True, c) \<Rightarrow> k c)"

definition tryGet2 ::
    "'h state \<Rightarrow> int \<Rightarrow> int \<Rightarrow> ('h state \<Rightarrow> 'a option) \<Rightarrow> (bytes \<Rightarrow> 'h state \<Rightarrow> 'a option) \<Rightarrow> 'a option" where
  "tryGet2 c offset l f k =
     (case get2 c offset l of
        None \<Rightarrow> None
      | Some (None, c) \<Rightarrow> f c
      | Some (Some bs, c) \<Rightarrow> k bs c)"

abbreviation withGas :: "'h state \<Rightarrow> uint64 \<Rightarrow> ('h state \<Rightarrow> 'h state option) \<Rightarrow> 'h state option" where
  "withGas c g k \<equiv> tryGas c g Some k"

abbreviation withMemory ::
    "'h state \<Rightarrow> int \<Rightarrow> int \<Rightarrow> ('h state \<Rightarrow> 'h state option) \<Rightarrow> 'h state option" where
  "withMemory c offset sz k \<equiv> tryMemory c offset sz Some k"

abbreviation withGet2 ::
    "'h state \<Rightarrow> int \<Rightarrow> int \<Rightarrow> (bytes \<Rightarrow> 'h state \<Rightarrow> 'h state option) \<Rightarrow> 'h state option" where
  "withGet2 c offset l k \<equiv> tryGet2 c offset l Some k"

subsection \<open>Words\<close>

definition tt256 :: int where
  "tt256 = 2 ^ 256"

definition toU256 :: "int \<Rightarrow> int" where
  "toU256 x = (if x < 0 \<or> BitLen x > 256 then x AND (tt256 - 1) else x)"

definition to256 :: "int \<Rightarrow> int" where
  "to256 x = (if BitLen x > 255 then x - tt256 else x)"

text \<open>\<^verbatim>\<open>big.Int\<close>'s \<^verbatim>\<open>Div\<close> and \<^verbatim>\<open>Mod\<close> are Euclidean.\<close>

definition big_Div :: "int \<Rightarrow> int \<Rightarrow> int" where
  "big_Div a b = (if 0 < b then a div b else - (a div (- b)))"

definition big_Mod :: "int \<Rightarrow> int \<Rightarrow> int" where
  "big_Mod a b = a mod \<bar>b\<bar>"

definition bool_word :: "bool \<Rightarrow> int" where
  "bool_word b = (if b then 1 else 0)"

subsection \<open>Arithmetic\<close>

definition opAdd :: "'h state \<Rightarrow> 'h state option" where
  [op_defs]: "opAdd c = do { (a, c) \<leftarrow> popv c; b \<leftarrow> top c; Some (set_top c (toU256 (a + b))) }"

definition opMul :: "'h state \<Rightarrow> 'h state option" where
  [op_defs]: "opMul c = do { (a, c) \<leftarrow> popv c; b \<leftarrow> top c; Some (set_top c (toU256 (a * b))) }"

definition opSub :: "'h state \<Rightarrow> 'h state option" where
  [op_defs]: "opSub c = do { (a, c) \<leftarrow> popv c; b \<leftarrow> top c; Some (set_top c (toU256 (a - b))) }"

definition opDiv :: "'h state \<Rightarrow> 'h state option" where
  [op_defs]: "opDiv c = do { (a, c) \<leftarrow> popv c; b \<leftarrow> top c;
     if b = 0 then Some (set_top c 0) else Some (set_top c (toU256 (big_Div a b))) }"

definition opSDiv :: "'h state \<Rightarrow> 'h state option" where
  [op_defs]: "opSDiv c = do { (a, c) \<leftarrow> popv c; b \<leftarrow> top c;
     let a = to256 a; b = to256 b in
     if b = 0 then Some (set_top c 0)
     else (let neg = (sgn a \<noteq> sgn b); q = big_Div \<bar>a\<bar> \<bar>b\<bar>; q = (if neg then - q else q)
           in Some (set_top c (toU256 q))) }"

definition opMod :: "'h state \<Rightarrow> 'h state option" where
  [op_defs]: "opMod c = do { (a, c) \<leftarrow> popv c; b \<leftarrow> top c;
     if b = 0 then Some (set_top c 0) else Some (set_top c (toU256 (big_Mod a b))) }"

definition opSMod :: "'h state \<Rightarrow> 'h state option" where
  [op_defs]: "opSMod c = do { (a, c) \<leftarrow> popv c; b \<leftarrow> top c;
     let a = to256 a; b = to256 b in
     if b = 0 then Some (set_top c 0)
     else (let neg = (a < 0); m = big_Mod \<bar>a\<bar> \<bar>b\<bar>; m = (if neg then - m else m)
           in Some (set_top c (toU256 m))) }"

text \<open>Square-and-multiply over the machine words of the exponent.\<close>

fun exp_word :: "nat \<Rightarrow> uint64 \<Rightarrow> int \<Rightarrow> int \<Rightarrow> int \<times> int" where
  "exp_word 0 d x z = (x, z)"
| "exp_word (Suc i) d x z =
     (let z = (if d AND 1 = 1 then toU256 (z * x) else z);
          d = drop_bit 1 d;
          x = toU256 (x * x)
      in exp_word i d x z)"

fun exp_loop :: "uint64 list \<Rightarrow> int \<Rightarrow> int \<Rightarrow> int" where
  "exp_loop [] x z = z"
| "exp_loop (d # ds) x z = (let (x, z) = exp_word 64 d x z in exp_loop ds x z)"

definition opExp :: "'h state \<Rightarrow> 'h state option" where
  [op_defs]: "opExp c = do { (x, c) \<leftarrow> popv c; y \<leftarrow> top c;
     let g = (if EIP158 (s_config c) then 50 else 10);
         gasCost = word_of_nat ((BitLen y + 7) div 8) * g
     in withGas c gasCost (\<lambda>c. Some (set_top c (exp_loop (Bits y) x 1))) }"

definition opAddMod :: "'h state \<Rightarrow> 'h state option" where
  [op_defs]: "opAddMod c = do { (a, c) \<leftarrow> popv c; (b, c) \<leftarrow> popv c; z \<leftarrow> top c;
     if z = 0 then Some (set_top c 0) else Some (set_top c (toU256 (big_Mod (a + b) z))) }"

definition opMulMod :: "'h state \<Rightarrow> 'h state option" where
  [op_defs]: "opMulMod c = do { (a, c) \<leftarrow> popv c; (b, c) \<leftarrow> popv c; z \<leftarrow> top c;
     if z = 0 then Some (set_top c 0) else Some (set_top c (toU256 (big_Mod (a * b) z))) }"

subsection \<open>Bits and comparisons\<close>

definition opAnd :: "'h state \<Rightarrow> 'h state option" where
  [op_defs]: "opAnd c = do { (a, c) \<leftarrow> popv c; b \<leftarrow> top c; Some (set_top c (a AND b)) }"

definition opOr :: "'h state \<Rightarrow> 'h state option" where
  [op_defs]: "opOr c = do { (a, c) \<leftarrow> popv c; b \<leftarrow> top c; Some (set_top c (a OR b)) }"

definition opXor :: "'h state \<Rightarrow> 'h state option" where
  [op_defs]: "opXor c = do { (a, c) \<leftarrow> popv c; b \<leftarrow> top c; Some (set_top c (a XOR b)) }"

text \<open>The index is the low 64 bits of the operand, as a signed integer.\<close>

definition opByte :: "'h state \<Rightarrow> 'h state option" where
  [op_defs]: "opByte c = do { (x, c) \<leftarrow> popv c; y \<leftarrow> top c;
     let indx = Int64 x in
     if indx > 31 then Some (set_top c 0)
     else (let sh = (31 - word_of_int indx) * 8 :: uint64
           in Some (set_top c (drop_bit (unat sh) y AND 255))) }"

definition opNot :: "'h state \<Rightarrow> 'h state option" where
  [op_defs]: "opNot c = do { a \<leftarrow> top c; Some (set_top c (toU256 (NOT a))) }"

definition opIsZero :: "'h state \<Rightarrow> 'h state option" where
  [op_defs]: "opIsZero c = do { a \<leftarrow> top c; Some (set_top c (bool_word (a = 0))) }"

definition opEq :: "'h state \<Rightarrow> 'h state option" where
  [op_defs]: "opEq c = do { (a, c) \<leftarrow> popv c; b \<leftarrow> top c; Some (set_top c (bool_word (a = b))) }"

definition opLt :: "'h state \<Rightarrow> 'h state option" where
  [op_defs]: "opLt c = do { (a, c) \<leftarrow> popv c; b \<leftarrow> top c; Some (set_top c (bool_word (a < b))) }"

definition opGt :: "'h state \<Rightarrow> 'h state option" where
  [op_defs]: "opGt c = do { (a, c) \<leftarrow> popv c; b \<leftarrow> top c; Some (set_top c (bool_word (a > b))) }"

definition opSlt :: "'h state \<Rightarrow> 'h state option" where
  [op_defs]: "opSlt c = do { (a, c) \<leftarrow> popv c; b \<leftarrow> top c;
     Some (set_top c (bool_word (to256 a < to256 b))) }"

definition opSgt :: "'h state \<Rightarrow> 'h state option" where
  [op_defs]: "opSgt c = do { (a, c) \<leftarrow> popv c; b \<leftarrow> top c;
     Some (set_top c (bool_word (to256 a > to256 b))) }"

definition opSignExtension :: "'h state \<Rightarrow> 'h state option" where
  [op_defs]: "opSignExtension c = do { (ext, c) \<leftarrow> popv c;
     if ext > 32 then Some c
     else (case top c of
       None \<Rightarrow> Some c
     | Some x \<Rightarrow>
         (let b = unat (Uint64 ext * 8 + 7);
              mask = push_bit b 1 - 1;
              x = (if bit x b then x OR NOT mask else x AND mask)
          in Some (set_top c (toU256 x)))) }"

definition equalOrOverflowsUint256 :: "int \<Rightarrow> bool" where
  "equalOrOverflowsUint256 b \<longleftrightarrow> BitLen b > 8"

definition opShl :: "'h state \<Rightarrow> 'h state option" where
  [op_defs]: "opShl c = (if \<not> Constantinople (s_config c) then Some (exit c errOpCodeNotFound)
     else do { (sh, c) \<leftarrow> popv c; v \<leftarrow> top c;
       if equalOrOverflowsUint256 sh then Some (set_top c 0)
       else Some (set_top c (toU256 (push_bit (unat (Uint64 sh)) v))) })"

definition opShr :: "'h state \<Rightarrow> 'h state option" where
  [op_defs]: "opShr c = (if \<not> Constantinople (s_config c) then Some (exit c errOpCodeNotFound)
     else do { (sh, c) \<leftarrow> popv c; v \<leftarrow> top c;
       if equalOrOverflowsUint256 sh then Some (set_top c 0)
       else Some (set_top c (toU256 (drop_bit (unat (Uint64 sh)) v))) })"

definition opSar :: "'h state \<Rightarrow> 'h state option" where
  [op_defs]: "opSar c = (if \<not> Constantinople (s_config c) then Some (exit c errOpCodeNotFound)
     else do { (sh, c) \<leftarrow> popv c; v \<leftarrow> top c;
       let v = to256 v in
       if equalOrOverflowsUint256 sh then Some (set_top c (if v \<ge> 0 then 0 else tt256 - 1))
       else Some (set_top c (toU256 (drop_bit (unat (Uint64 sh)) v))) })"

subsection \<open>Memory\<close>

definition opMload :: "'h state \<Rightarrow> 'h state option" where
  [op_defs]: "opMload c = do { (offset, c) \<leftarrow> popv c;
     withGet2 c offset 32 (\<lambda>bs c. Some (push c (SetBytes bs))) }"

text \<open>
  \<open>MSTORE\<close> writes the bytes of the machine words of the value from the end of the 32-byte
  slot backwards, then fills the rest with zeros. Running below index 0 panics.
\<close>

fun mstore_word :: "nat \<Rightarrow> uint64 \<Rightarrow> nat \<Rightarrow> bytes \<Rightarrow> (nat \<times> bytes) option" where
  "mstore_word 0 d i buf = Some (i, buf)"
| "mstore_word (Suc j) d i buf =
     (if i = 0 then None
      else mstore_word j (drop_bit 8 d) (i - 1) (buf[i - 1 := ucast d]))"

fun mstore_words :: "uint64 list \<Rightarrow> nat \<Rightarrow> bytes \<Rightarrow> (nat \<times> bytes) option" where
  "mstore_words [] i buf = Some (i, buf)"
| "mstore_words (d # ds) i buf =
     (case mstore_word 8 d i buf of None \<Rightarrow> None | Some (i, buf) \<Rightarrow> mstore_words ds i buf)"

fun mstore_fill :: "nat \<Rightarrow> bytes \<Rightarrow> bytes" where
  "mstore_fill 0 buf = buf"
| "mstore_fill (Suc i) buf = mstore_fill i (buf[i := 0])"

definition opMStore :: "'h state \<Rightarrow> 'h state option" where
  [op_defs]: "opMStore c = do { (offset, c) \<leftarrow> popv c; (val, c) \<leftarrow> popv c;
     withMemory c offset 32 (\<lambda>c. do {
       let o' = Uint64 offset;
       buf \<leftarrow> slice (s_memory c) (unat o') (unat (o' + 32));
       (i, buf) \<leftarrow> mstore_words (Bits val) 32 buf;
       Some (c\<lparr>s_memory := copy_at (s_memory c) (unat o') (mstore_fill i buf)\<rparr>) }) }"

definition opMStore8 :: "'h state \<Rightarrow> 'h state option" where
  [op_defs]: "opMStore8 c = do { (offset, c) \<leftarrow> popv c; (val, c) \<leftarrow> popv c;
     withMemory c offset 1 (\<lambda>c.
       let i = unat (Uint64 offset) in
       if i < length (s_memory c)
       then Some (c\<lparr>s_memory := (s_memory c)[i := ucast (Uint64 val AND 0xff)]\<rparr>)
       else None) }"

subsection \<open>Storage\<close>

definition opSload :: "('h, 'z) Host_scheme \<Rightarrow> 'h state \<Rightarrow> 'h state option" where
  [op_defs]: "opSload H c = do { loc \<leftarrow> top c;
     let g = (if Istanbul (s_config c) then 800 else if EIP150 (s_config c) then 200 else 50)
     in withGas c g (\<lambda>c.
       let val = GetStorage H (s_host c) (c_Address (s_msg c)) (bigToHash loc)
       in Some (set_top c (SetBytes (Hash_Bytes val)))) }"

fun sstore_cost :: "ForksInTime \<Rightarrow> StorageStatus \<Rightarrow> uint64" where
  "sstore_cost cfg StorageUnchanged =
     (if Istanbul cfg then 800
      else if \<not> Istanbul cfg \<and> (Petersburg cfg \<or> \<not> Constantinople cfg) then 5000 else 200)"
| "sstore_cost cfg StorageModified = 5000"
| "sstore_cost cfg StorageModifiedAgain =
     (if Istanbul cfg then 800
      else if \<not> Istanbul cfg \<and> (Petersburg cfg \<or> \<not> Constantinople cfg) then 5000 else 200)"
| "sstore_cost cfg StorageAdded = 20000"
| "sstore_cost cfg StorageDeleted = 5000"

definition opSStore :: "('h, 'z) Host_scheme \<Rightarrow> 'h state \<Rightarrow> 'h state option" where
  [op_defs]: "opSStore H c =
     (if inStaticCall c then Some (exit c errWriteProtection)
      else if Istanbul (s_config c) \<and> s_gas c \<le> 2300 then Some (exit c ErrOutOfGas)
      else do { (key, c) \<leftarrow> popHash c; (val, c) \<leftarrow> popHash c;
        let (status, h) = SetStorage H (s_host c) (c_Address (s_msg c)) key val (s_config c);
            c = c\<lparr>s_host := h\<rparr>
        in withGas c (sstore_cost (s_config c) status) Some })"

definition sha3WordGas :: uint64 where
  "sha3WordGas = 6"

definition opSha3 :: "crypto_lib \<Rightarrow> 'h state \<Rightarrow> 'h state option" where
  [op_defs]: "opSha3 L c = do { (offset, c) \<leftarrow> popv c; (l, c) \<leftarrow> popv c;
     withGet2 c offset l (\<lambda>bs c.
       let sz = Uint64 l in
       withGas c ((sz + 31) div 32 * sha3WordGas) (\<lambda>c.
         Some (push c (SetBytes (Keccak256 L bs))))) }"

definition opPop :: "'h state \<Rightarrow> 'h state option" where
  [op_defs]: "opPop c = Some (snd (pop c))"

subsection \<open>Context\<close>

definition opAddress :: "'h state \<Rightarrow> 'h state option" where
  [op_defs]: "opAddress c = Some (push c (SetBytes (Address_Bytes (c_Address (s_msg c)))))"

definition opBalance :: "('h, 'z) Host_scheme \<Rightarrow> 'h state \<Rightarrow> 'h state option" where
  [op_defs]: "opBalance H c =
     (let ((addr, _), c) = popAddr c;
          g = (if Istanbul (s_config c) then 700 else if EIP150 (s_config c) then 400 else 20)
      in withGas c g (\<lambda>c. Some (push c (GetBalance H (s_host c) addr))))"

definition opSelfBalance :: "('h, 'z) Host_scheme \<Rightarrow> 'h state \<Rightarrow> 'h state option" where
  [op_defs]: "opSelfBalance H c =
     (if \<not> Istanbul (s_config c) then Some (exit c errOpCodeNotFound)
      else Some (push c (GetBalance H (s_host c) (c_Address (s_msg c)))))"

definition opChainID :: "('h, 'z) Host_scheme \<Rightarrow> 'h state \<Rightarrow> 'h state option" where
  [op_defs]: "opChainID H c =
     (if \<not> Istanbul (s_config c) then Some (exit c errOpCodeNotFound)
      else Some (push c (uint (word_of_int (x_ChainID (GetTxContext H (s_host c))) :: uint64))))"

definition opOrigin :: "('h, 'z) Host_scheme \<Rightarrow> 'h state \<Rightarrow> 'h state option" where
  [op_defs]: "opOrigin H c =
     Some (push c (SetBytes (Address_Bytes (x_Origin (GetTxContext H (s_host c))))))"

definition opCaller :: "'h state \<Rightarrow> 'h state option" where
  [op_defs]: "opCaller c = Some (push c (SetBytes (Address_Bytes (c_Caller (s_msg c)))))"

definition opCallValue :: "'h state \<Rightarrow> 'h state option" where
  [op_defs]: "opCallValue c =
     (case c_Value (s_msg c) of Some v \<Rightarrow> Some (push c v) | None \<Rightarrow> Some (push c 0))"

text \<open>
  \<^verbatim>\<open>setBytes(dst, input, size, dataOffset)\<close> fills the first \<open>size\<close> bytes of \<open>dst\<close> with the
  input from the offset on, and with zeros past the end of the input.
\<close>

definition setBytes :: "bytes \<Rightarrow> bytes \<Rightarrow> uint64 \<Rightarrow> int \<Rightarrow> bytes option" where
  "setBytes dst input sz dataOffset =
     (if \<not> IsUint64 dataOffset then
        (if unat sz \<le> length dst then Some (copy_at dst 0 (replicate (unat sz) 0)) else None)
      else
        (let inputSize = word_of_nat (length input);
             start = min (Uint64 dataOffset) inputSize;
             copySize = min sz (inputSize - start);
             dst = (if copySize > 0
                    then copy_at dst 0 (take (unat copySize) (drop (unat start) input)) else dst)
         in if sz - copySize > 0
            then (if unat copySize + unat (sz - copySize) \<le> length dst
                  then Some (copy_at dst (unat copySize) (replicate (unat (sz - copySize)) 0))
                  else None)
            else Some dst))"

text \<open>\<^verbatim>\<open>c.setBytes(c.memory[off:], input, size, dataOffset)\<close>\<close>

definition setMemory :: "'h state \<Rightarrow> uint64 \<Rightarrow> bytes \<Rightarrow> uint64 \<Rightarrow> int \<Rightarrow> 'h state option" where
  "setMemory c off input sz dataOffset =
     (if unat off \<le> length (s_memory c)
      then do { d \<leftarrow> setBytes (drop (unat off) (s_memory c)) input sz dataOffset;
                Some (c\<lparr>s_memory := take (unat off) (s_memory c) @ d\<rparr>) }
      else None)"

definition opCallDataLoad :: "'h state \<Rightarrow> 'h state option" where
  [op_defs]: "opCallDataLoad c = do { offset \<leftarrow> top c;
     buf \<leftarrow> setBytes (replicate 32 0) (c_Input (s_msg c)) 32 offset;
     Some (set_top c (SetBytes buf)) }"

definition opCallDataSize :: "'h state \<Rightarrow> 'h state option" where
  [op_defs]: "opCallDataSize c = Some (push c (uint (word_of_nat (length (c_Input (s_msg c))) :: uint64)))"

definition opCodeSize :: "'h state \<Rightarrow> 'h state option" where
  [op_defs]: "opCodeSize c = Some (push c (uint (word_of_nat (length (s_code c)) :: uint64)))"

definition opExtCodeSize :: "('h, 'z) Host_scheme \<Rightarrow> 'h state \<Rightarrow> 'h state option" where
  [op_defs]: "opExtCodeSize H c =
     (let ((addr, _), c) = popAddr c; g = (if EIP150 (s_config c) then 700 else 20)
      in withGas c g (\<lambda>c.
           let (n, h) = GetCodeSize H (s_host c) addr
           in Some (push (c\<lparr>s_host := h\<rparr>) (uint (word_of_nat n :: uint64)))))"

definition opGasPrice :: "('h, 'z) Host_scheme \<Rightarrow> 'h state \<Rightarrow> 'h state option" where
  [op_defs]: "opGasPrice H c =
     Some (push c (SetBytes (Hash_Bytes (x_GasPrice (GetTxContext H (s_host c))))))"

definition opReturnDataSize :: "'h state \<Rightarrow> 'h state option" where
  [op_defs]: "opReturnDataSize c =
     (if \<not> Byzantium (s_config c) then Some (exit c errOpCodeNotFound)
      else Some (push c (uint (word_of_nat (length (s_returnData c)) :: uint64))))"

definition opExtCodeHash :: "('h, 'z) Host_scheme \<Rightarrow> 'h state \<Rightarrow> 'h state option" where
  [op_defs]: "opExtCodeHash H c =
     (if \<not> Constantinople (s_config c) then Some (exit c errOpCodeNotFound)
      else
        (let ((address, _), c) = popAddr c; g = (if Istanbul (s_config c) then 700 else 400)
         in withGas c g (\<lambda>c.
              if Empty H (s_host c) address then Some (push c 0)
              else Some (push c (SetBytes (Hash_Bytes (GetCodeHash H (s_host c) address)))))))"

definition opPC :: "'h state \<Rightarrow> 'h state option" where
  [op_defs]: "opPC c = Some (push c (uint (word_of_int (s_ip c) :: uint64)))"

definition opMSize :: "'h state \<Rightarrow> 'h state option" where
  [op_defs]: "opMSize c = Some (push c (uint (word_of_nat (length (s_memory c)) :: uint64)))"

definition opGas :: "'h state \<Rightarrow> 'h state option" where
  [op_defs]: "opGas c = Some (push c (uint (s_gas c)))"

definition copyGas :: uint64 where
  "copyGas = 3"

definition opExtCodeCopy :: "('h, 'z) Host_scheme \<Rightarrow> 'h state \<Rightarrow> 'h state option" where
  [op_defs]: "opExtCodeCopy H c =
     (let ((address, _), c) = popAddr c in
      do { (memOffset, c) \<leftarrow> popv c; (codeOffset, c) \<leftarrow> popv c; (l, c) \<leftarrow> popv c;
        withMemory c memOffset l (\<lambda>c.
          let sz = Uint64 l in
          withGas c ((sz + 31) div 32 * copyGas) (\<lambda>c.
            withGas c (if EIP150 (s_config c) then 700 else 20) (\<lambda>c.
              let (cd, h) = GetCode H (s_host c) address; c = c\<lparr>s_host := h\<rparr> in
              if sz \<noteq> 0 then setMemory c (Uint64 memOffset) cd sz codeOffset else Some c))) })"

definition opCallDataCopy :: "'h state \<Rightarrow> 'h state option" where
  [op_defs]: "opCallDataCopy c =
     do { (memOffset, c) \<leftarrow> popv c; (dataOffset, c) \<leftarrow> popv c; (l, c) \<leftarrow> popv c;
       withMemory c memOffset l (\<lambda>c.
         let sz = Uint64 l in
         withGas c ((sz + 31) div 32 * copyGas) (\<lambda>c.
           if sz \<noteq> 0 then setMemory c (Uint64 memOffset) (c_Input (s_msg c)) sz dataOffset
           else Some c)) }"

text \<open>
  The last copy has no test for a length of 0: the slice expression \<^verbatim>\<open>c.memory[memOffset:]\<close>
  panics when nothing was allocated and the offset is past the end of the memory.
\<close>

definition opReturnDataCopy :: "'h state \<Rightarrow> 'h state option" where
  [op_defs]: "opReturnDataCopy c =
     (if \<not> Byzantium (s_config c) then Some (exit c errOpCodeNotFound)
      else do { (memOffset, c) \<leftarrow> popv c; (dataOffset, c) \<leftarrow> popv c; (l, c) \<leftarrow> popv c;
        withMemory c memOffset l (\<lambda>c.
          if \<not> IsUint64 dataOffset then Some (exit c errGasUintOverflow)
          else withGas c ((Uint64 l + 31) div 32 * copyGas) (\<lambda>c.
            let dataEnd = dataOffset + l in
            if \<not> IsUint64 dataEnd then Some (exit c errReturnDataOutOfBounds)
            else if word_of_nat (length (s_returnData c)) < Uint64 dataEnd
            then Some (exit c errReturnDataOutOfBounds)
            else do {
              bs \<leftarrow> slice (s_returnData c) (unat (Uint64 dataOffset)) (unat (Uint64 dataEnd));
              if unat (Uint64 memOffset) \<le> length (s_memory c)
              then Some (c\<lparr>s_memory := copy_at (s_memory c) (unat (Uint64 memOffset)) bs\<rparr>)
              else None })) })"

definition opCodeCopy :: "'h state \<Rightarrow> 'h state option" where
  [op_defs]: "opCodeCopy c =
     do { (memOffset, c) \<leftarrow> popv c; (dataOffset, c) \<leftarrow> popv c; (l, c) \<leftarrow> popv c;
       withMemory c memOffset l (\<lambda>c.
         let sz = Uint64 l in
         withGas c ((sz + 31) div 32 * copyGas) (\<lambda>c.
           if sz \<noteq> 0 then setMemory c (Uint64 memOffset) (s_code c) sz dataOffset else Some c)) }"

subsection \<open>Block information\<close>

definition opBlockHash :: "('h, 'z) Host_scheme \<Rightarrow> 'h state \<Rightarrow> 'h state option" where
  [op_defs]: "opBlockHash H c = do { num \<leftarrow> top c;
     if \<not> IsInt64 num then Some (set_top c 0)
     else (let n = Int64 num; lastBlock = x_Number (GetTxContext H (s_host c)) in
       if sint (word_of_int lastBlock - 257 :: uint64) < n \<and> n < lastBlock
       then Some (set_top c (SetBytes (Hash_Bytes (GetBlockHash H (s_host c) n))))
       else Some (set_top c 0)) }"

definition opCoinbase :: "('h, 'z) Host_scheme \<Rightarrow> 'h state \<Rightarrow> 'h state option" where
  [op_defs]: "opCoinbase H c =
     Some (push c (SetBytes (Address_Bytes (x_Coinbase (GetTxContext H (s_host c))))))"

definition opTimestamp :: "('h, 'z) Host_scheme \<Rightarrow> 'h state \<Rightarrow> 'h state option" where
  [op_defs]: "opTimestamp H c = Some (push c (x_Timestamp (GetTxContext H (s_host c))))"

definition opNumber :: "('h, 'z) Host_scheme \<Rightarrow> 'h state \<Rightarrow> 'h state option" where
  [op_defs]: "opNumber H c = Some (push c (x_Number (GetTxContext H (s_host c))))"

definition opDifficulty :: "('h, 'z) Host_scheme \<Rightarrow> 'h state \<Rightarrow> 'h state option" where
  [op_defs]: "opDifficulty H c =
     Some (push c (SetBytes (Hash_Bytes (x_Difficulty (GetTxContext H (s_host c))))))"

definition opGasLimit :: "('h, 'z) Host_scheme \<Rightarrow> 'h state \<Rightarrow> 'h state option" where
  [op_defs]: "opGasLimit H c = Some (push c (x_GasLimit (GetTxContext H (s_host c))))"

subsection \<open>Control flow\<close>

definition opSelfDestruct :: "('h, 'z) Host_scheme \<Rightarrow> 'h state \<Rightarrow> 'h state option" where
  [op_defs]: "opSelfDestruct H c =
     (if inStaticCall c then Some (exit c errWriteProtection)
      else
        (let ((address, _), c) = popAddr c;
             g = (if EIP150 (s_config c) then
                    (if EIP158 (s_config c) then
                       (if Empty H (s_host c) address \<and> GetBalance H (s_host c) (c_Address (s_msg c)) \<noteq> 0
                        then 5000 + 25000 else 5000)
                     else if \<not> AccountExists H (s_host c) address then 5000 + 25000 else 5000)
                  else 0)
         in withGas c g (\<lambda>c.
              Some (Halt (c\<lparr>s_host := Selfdestruct H (s_host c) (c_Address (s_msg c)) address\<rparr>)))))"

definition opJump :: "'h state \<Rightarrow> 'h state option" where
  [op_defs]: "opJump c = do { (dest, c) \<leftarrow> popv c; valid \<leftarrow> validJumpdest c dest;
     if valid then Some (c\<lparr>s_ip := sint (Uint64 dest - 1)\<rparr>) else Some (exit c errInvalidJump) }"

definition opJumpi :: "'h state \<Rightarrow> 'h state option" where
  [op_defs]: "opJumpi c = do { (dest, c) \<leftarrow> popv c; (cond, c) \<leftarrow> popv c;
     if cond \<noteq> 0 then do { valid \<leftarrow> validJumpdest c dest;
       if valid then Some (c\<lparr>s_ip := sint (Uint64 dest - 1)\<rparr>) else Some (exit c errInvalidJump) }
     else Some c }"

definition opJumpDest :: "'h state \<Rightarrow> 'h state option" where
  [op_defs]: "opJumpDest c = Some c"

text \<open>A truncated push appends \<open>n\<close> zeros to what is left of the code.\<close>

definition opPush :: "nat \<Rightarrow> 'h state \<Rightarrow> 'h state option" where
  [op_defs]: "opPush n c = do {
     v \<leftarrow> (if s_ip c + 1 + int n > int (length (s_code c))
           then do { rest \<leftarrow> slice (s_code c) (nat (s_ip c + 1)) (length (s_code c));
                     Some (SetBytes (rest @ replicate n 0)) }
           else do { bs \<leftarrow> slice (s_code c) (nat (s_ip c + 1)) (nat (s_ip c + 1 + int n));
                     Some (SetBytes bs) });
     Some ((push c v)\<lparr>s_ip := s_ip c + int n\<rparr>) }"

definition opDup :: "nat \<Rightarrow> 'h state \<Rightarrow> 'h state option" where
  [op_defs]: "opDup n c =
     (if \<not> stackAtLeast c n then Some (exit c ErrStackUnderflow)
      else do { val \<leftarrow> peekAt c n; Some (push c val) })"

definition opSwap :: "nat \<Rightarrow> 'h state \<Rightarrow> 'h state option" where
  [op_defs]: "opSwap n c =
     (if \<not> stackAtLeast c (n + 1) then Some (exit c ErrStackUnderflow) else swap c n)"

fun popTopics :: "nat \<Rightarrow> 'h state \<Rightarrow> (Hash list \<times> 'h state) option" where
  "popTopics 0 c = Some ([], c)"
| "popTopics (Suc n) c = do { (v, c) \<leftarrow> popv c; (ts, c) \<leftarrow> popTopics n c; Some (bigToHash v # ts, c) }"

text \<open>The factory is called with 1 for \<^verbatim>\<open>LOG0\<close>, 2 for \<^verbatim>\<open>LOG1\<close> and so on.\<close>

definition opLog :: "('h, 'z) Host_scheme \<Rightarrow> nat \<Rightarrow> 'h state \<Rightarrow> 'h state option" where
  [op_defs]: "opLog H size1 c =
     (let sz = size1 - 1 in
      if inStaticCall c then Some (exit c errWriteProtection)
      else if \<not> stackAtLeast c (2 + sz) then Some (exit c ErrStackUnderflow)
      else do { (mStart, c) \<leftarrow> popv c; (mSize, c) \<leftarrow> popv c; (topics, c) \<leftarrow> popTopics sz c;
        withGet2 c mStart mSize (\<lambda>bs c.
          let c = c\<lparr>s_host := EmitLog H (s_host c) (c_Address (s_msg c)) topics bs\<rparr> in
          withGas c (word_of_nat sz * 375) (\<lambda>c. withGas c (Uint64 mSize * 8) Some)) })"

definition opStop :: "'h state \<Rightarrow> 'h state option" where
  [op_defs]: "opStop c = Some (Halt c)"

definition opHalt :: "byte \<Rightarrow> 'h state \<Rightarrow> 'h state option" where
  [op_defs]: "opHalt op c =
     (if op = OP_REVERT \<and> \<not> Byzantium (s_config c) then Some (exit c errOpCodeNotFound)
      else do { (offset, c) \<leftarrow> popv c; (sz, c) \<leftarrow> popv c;
        case get2 c offset sz of
          None \<Rightarrow> None
        | Some (None, c) \<Rightarrow> Some (c\<lparr>s_ret := []\<rparr>)
        | Some (Some bs, c) \<Rightarrow>
            (let c = c\<lparr>s_ret := bs\<rparr> in
             if op = OP_REVERT then Some (exit c ErrExecutionReverted) else Some (Halt c)) })"

subsection \<open>Contract creation\<close>

text \<open>
  The builders return the state and one of three results: \<open>Build\<close> a contract, \<open>BuildErr\<close> an
  error together with the contract if there is one, or \<open>BuildNone\<close> (nil, nil) after an
  exit.
\<close>

datatype build = BuildNone | BuildErr "Contract option" | Build Contract uint64 uint64

text \<open>The salt is only popped by \<^verbatim>\<open>CREATE2\<close>. The child gets all gas but one 64th (EIP-150).\<close>

definition popSalt :: "byte \<Rightarrow> 'h state \<Rightarrow> (int \<times> 'h state) option" where
  [evm_defs]: "popSalt op c = (if op = OP_CREATE2 then popv c else Some (0, c))"

definition finishCreate ::
    "('h, 'z) Host_scheme \<Rightarrow> crypto_lib \<Rightarrow> byte \<Rightarrow> int \<Rightarrow> int \<Rightarrow> bytes \<Rightarrow> 'h state \<Rightarrow> (build \<times> 'h state) option" where
  "finishCreate H L op val salt input c =
     (let g = (if EIP150 (s_config c) \<or> op = OP_CREATE2 then s_gas c - s_gas c div 64 else s_gas c) in
      tryGas c g (\<lambda>c. Some (BuildNone, c)) (\<lambda>c.
        let me = c_Address (s_msg c);
            address = (if op = OP_CREATE
              then CreateAddress L me (GetNonce H (s_host c) me)
              else CreateAddress2 L me (bigToHash salt) input)
        in Some (Build (NewContractCreation (c_Depth (s_msg c) + 1)
                   (c_Origin (s_msg c)) me address (Some val) g input) 0 0, c)))"

definition buildCreateContract ::
    "('h, 'z) Host_scheme \<Rightarrow> crypto_lib \<Rightarrow> byte \<Rightarrow> 'h state \<Rightarrow> (build \<times> 'h state) option" where
  "buildCreateContract H L op c =
     do { (val, c) \<leftarrow> popv c; (offset, c) \<leftarrow> popv c; (l, c) \<leftarrow> popv c; (salt, c) \<leftarrow> popSalt op c;
       let stop = (\<lambda>c. Some (BuildNone, c)) in
       tryGet2 c offset l stop (\<lambda>input c.
         tryGas c 0 stop (\<lambda>c.
           if val \<noteq> 0 \<and> GetBalance H (s_host c) (c_Address (s_msg c)) < val
           then Some (BuildErr None, c)
           else if op = OP_CREATE2
           then tryGas c ((Uint64 l + 31) div 32 * sha3WordGas) stop (finishCreate H L op val salt input)
           else finishCreate H L op val salt input c)) }"

text \<open>After a failed build: the result 0, and the gas of the contract back if there is one.\<close>

definition build_failed :: "Contract option \<Rightarrow> 'h state \<Rightarrow> 'h state" where
  "build_failed co c =
     (let c = push c 0 in case co of None \<Rightarrow> c | Some ct \<Rightarrow> c\<lparr>s_gas := s_gas c + c_Gas ct\<rparr>)"

text \<open>After the nested execution of a creation.\<close>

definition create_done :: "byte \<Rightarrow> Contract \<Rightarrow> ExecutionResult \<Rightarrow> 'h state \<Rightarrow> 'h state" where
  "create_done op ct result c =
     (let v = (if op = OP_CREATE \<and> Homestead (s_config c) \<and> r_Err result = Some ErrCodeStoreOutOfGas
               then 0
               else if Failed result \<and> r_Err result \<noteq> Some ErrCodeStoreOutOfGas then 0
               else SetBytes (Address_Bytes (c_Address ct)));
          c = push c v;
          c = c\<lparr>s_gas := s_gas c + r_GasLeft result\<rparr>
      in if Reverted result then c\<lparr>s_returnData := r_ReturnValue result\<rparr> else c)"

definition opCreate ::
    "('h, 'z) Host_scheme \<Rightarrow> crypto_lib \<Rightarrow> byte \<Rightarrow> 'h state \<Rightarrow> 'h state outcome" where
  [op_defs]: "opCreate H L op c =
     (if inStaticCall c then Val (exit c errWriteProtection)
      else if op = OP_CREATE2 \<and> \<not> Constantinople (s_config c) then Val (exit c errOpCodeNotFound)
      else
        obind (of_option (buildCreateContract H L op (resetReturnData c))) (\<lambda>(b, c). case b of
          BuildErr co \<Rightarrow> Val (build_failed co c)
        | BuildNone \<Rightarrow> Val c
        | Build ct _ _ \<Rightarrow>
            obind (Callx H (s_host c) (ct\<lparr>c_Type := Create\<rparr>)) (\<lambda>(result, h).
              Val (create_done op ct result (c\<lparr>s_host := h\<rparr>)))))"

subsection \<open>Calls\<close>

definition callType :: "byte \<Rightarrow> CallType option" where
  "callType op =
     (if op = OP_CALL then Some Call
      else if op = OP_CALLCODE then Some CallCode
      else if op = OP_DELEGATECALL then Some DelegateCall
      else if op = OP_STATICCALL then Some StaticCall
      else None)"

text \<open>The cost of a call before the gas handed to the callee.\<close>

definition call_base_cost ::
    "('h, 'z) Host_scheme \<Rightarrow> byte \<Rightarrow> 'h state \<Rightarrow> Address \<Rightarrow> bool \<Rightarrow> uint64" where
  "call_base_cost H op c addr transfersValue =
     (let g = (if EIP150 (s_config c) then 700 else 40);
          g = (if op = OP_CALL then
                 (if EIP158 (s_config c) then
                    (if transfersValue \<and> Empty H (s_host c) addr then g + 25000 else g)
                  else if \<not> AccountExists H (s_host c) addr then g + 25000 else g)
               else g)
      in if transfersValue then g + 9000 else g)"

text \<open>The gas handed to the callee; \<^const>\<open>None\<close> is the out-of-gas exit before EIP-150.\<close>

definition call_gas :: "'h state \<Rightarrow> int \<Rightarrow> uint64 \<Rightarrow> uint64 option" where
  "call_gas c initialGas gasCost =
     (if EIP150 (s_config c) then
        (let available = s_gas c - gasCost; available = available - available div 64
         in if \<not> IsUint64 initialGas \<or> available < Uint64 initialGas then Some available
            else Some (Uint64 initialGas))
      else if \<not> IsUint64 initialGas then None
      else Some (Uint64 initialGas))"

text \<open>Only \<^verbatim>\<open>CALL\<close> and \<^verbatim>\<open>CALLCODE\<close> take a value from the stack.\<close>

definition popValue :: "byte \<Rightarrow> 'h state \<Rightarrow> (int option \<times> 'h state) option" where
  [evm_defs]: "popValue op c =
     (if op = OP_CALL \<or> op = OP_CALLCODE then do { (v, c) \<leftarrow> popv c; Some (Some v, c) }
      else Some (None, c))"

text \<open>The contract of the call, with the flags and addresses of the kind of call.\<close>

definition call_contract ::
    "byte \<Rightarrow> Contract \<Rightarrow> Address \<Rightarrow> int option \<Rightarrow> uint64 \<Rightarrow> bytes \<Rightarrow> bytes \<Rightarrow> Contract" where
  "call_contract op m addr val g cd args =
     (let ct = NewContractCall (c_Depth m + 1) (c_Origin m) (c_Address m) addr val g cd args;
          ct = (if op = OP_STATICCALL \<or> c_Static m then ct\<lparr>c_Static := True\<rparr> else ct);
          ct = (if op = OP_CALLCODE \<or> op = OP_DELEGATECALL then ct\<lparr>c_Address := c_Address m\<rparr> else ct)
      in if op = OP_DELEGATECALL then ct\<lparr>c_Value := c_Value m, c_Caller := c_Caller m\<rparr> else ct)"

record call_args =
  a_gas :: int
  a_addr :: Address
  a_value :: "int option"
  a_inOffset :: int
  a_inSize :: int
  a_retOffset :: int
  a_retSize :: int

definition popCallArgs :: "byte \<Rightarrow> 'h state \<Rightarrow> (call_args \<times> 'h state) option" where
  [evm_defs]: "popCallArgs op c =
     do { (initialGas, c) \<leftarrow> popv c;
       let ((addr, _), c) = popAddr c;
       (val, c) \<leftarrow> popValue op c;
       (inOffset, c) \<leftarrow> popv c; (inSize, c) \<leftarrow> popv c;
       (retOffset, c) \<leftarrow> popv c; (retSize, c) \<leftarrow> popv c;
       Some (\<lparr>a_gas = initialGas, a_addr = addr, a_value = val, a_inOffset = inOffset,
         a_inSize = inSize, a_retOffset = retOffset, a_retSize = retSize\<rparr>, c) }"

text \<open>The gas of the call, the contract and the balance check, once the memory is there.\<close>

definition finishCall ::
    "('h, 'z) Host_scheme \<Rightarrow> byte \<Rightarrow> call_args \<Rightarrow> bytes \<Rightarrow> 'h state \<Rightarrow> (build \<times> 'h state) option" where
  "finishCall H op a args c =
     (let val = a_value a;
          transfersValue = ((op = OP_CALL \<or> op = OP_CALLCODE) \<and> val \<noteq> None \<and> val \<noteq> Some 0);
          gasCost = call_base_cost H op c (a_addr a) transfersValue
      in case call_gas c (a_gas a) gasCost of
           None \<Rightarrow> Some (BuildNone, exit c ErrOutOfGas)
         | Some g \<Rightarrow>
             tryGas c (gasCost + g) (\<lambda>c. Some (BuildNone, c)) (\<lambda>c.
               let g = (if transfersValue then g + 2300 else g);
                   (cd, h) = GetCode H (s_host c) (a_addr a);
                   c = c\<lparr>s_host := h\<rparr>;
                   ct = call_contract op (s_msg c) (a_addr a) val g cd args
               in if transfersValue \<and> GetBalance H (s_host c) (c_Address (s_msg c)) < the val
                  then Some (BuildErr (Some ct), c)
                  else Some (Build ct (Uint64 (a_retOffset a)) (Uint64 (a_retSize a)), c)))"

definition buildCallContract ::
    "('h, 'z) Host_scheme \<Rightarrow> byte \<Rightarrow> 'h state \<Rightarrow> (build \<times> 'h state) option" where
  "buildCallContract H op c =
     do { (a, c) \<leftarrow> popCallArgs op c;
       let stop = (\<lambda>c. Some (BuildNone, c)) in
       tryGet2 c (a_inOffset a) (a_inSize a) stop (\<lambda>args c.
         tryMemory c (a_retOffset a) (a_retSize a) stop (finishCall H op a args)) }"

text \<open>
  After the nested execution of a call. The return value goes to
  \<^verbatim>\<open>c.memory[offset:offset+size]\<close>; this slice expression is valid up to the capacity of the
  memory, and panics above it, also when \<open>size\<close> is 0.
\<close>

definition call_done ::
    "crypto_lib \<Rightarrow> uint64 \<Rightarrow> uint64 \<Rightarrow> ExecutionResult \<Rightarrow> 'h state \<Rightarrow> 'h state option" where
  "call_done L offset sz result c =
     (let c = push c (bool_word (Succeeded result));
          rv = r_ReturnValue result;
          writes = ((Succeeded result \<or> Reverted result) \<and> rv \<noteq> [])
      in if writes \<and> \<not> (offset \<le> offset + sz \<and>
               unat (offset + sz) \<le> max (length (s_memory c)) (slice_cap L (length (s_memory c))))
         then None
         else
           (let c = (if writes
                     then c\<lparr>s_memory := copy_at (s_memory c) (unat offset) (take (unat sz) rv)\<rparr>
                     else c)
            in Some (c\<lparr>s_gas := s_gas c + r_GasLeft result, s_returnData := rv\<rparr>)))"

definition opCall ::
    "('h, 'z) Host_scheme \<Rightarrow> crypto_lib \<Rightarrow> byte \<Rightarrow> 'h state \<Rightarrow> 'h state outcome" where
  [op_defs]: "opCall H L op c =
     (let c = resetReturnData c in
      if op = OP_CALL \<and> inStaticCall c \<and> peekAt c 3 = None then Panic
      else if op = OP_CALL \<and> inStaticCall c \<and> BitLen (the (peekAt c 3)) > 0
      then Val (exit c errWriteProtection)
      else if op = OP_DELEGATECALL \<and> \<not> Homestead (s_config c) then Val (exit c errOpCodeNotFound)
      else if op = OP_STATICCALL \<and> \<not> Byzantium (s_config c) then Val (exit c errOpCodeNotFound)
      else case callType op of None \<Rightarrow> Panic | Some ty \<Rightarrow>
        obind (of_option (buildCallContract H op c)) (\<lambda>(b, c). case b of
          BuildErr co \<Rightarrow> Val (build_failed co c)
        | BuildNone \<Rightarrow> Val c
        | Build ct offset sz \<Rightarrow>
            obind (Callx H (s_host c) (ct\<lparr>c_Type := ty\<rparr>)) (\<lambda>(result, h).
              of_option (call_done L offset sz result (c\<lparr>s_host := h\<rparr>)))))"

end
