(* ===== verification/EVM.thy ===== *)
theory EVM
  imports EVM_Instructions
begin

section \<open>Dispatch and the run loop (\<^verbatim>\<open>dispatch_table.go\<close>, \<^verbatim>\<open>state.go\<close>, \<^verbatim>\<open>evm.go\<close>)\<close>

text \<open>
  The dispatch table as \<^verbatim>\<open>init\<close> registers it, one iteration of the loop of \<^verbatim>\<open>(*state).Run\<close>, the
  loop, and \<^verbatim>\<open>(*EVM).Run\<close>. The loop takes fuel, one unit per iteration; \<open>EVM_Run\<close> gives it two
  more units than the contract has gas, which is enough once every instruction costs gas
  (theory \<open>EVM_Gas\<close>).
\<close>

subsection \<open>The dispatch table\<close>

record 'h handler =
  h_inst :: "'h state \<Rightarrow> 'h state outcome"
  h_stack :: nat
  h_gas :: uint64

definition mk_handler :: "('h state \<Rightarrow> 'h state outcome) \<Rightarrow> nat \<Rightarrow> uint64 \<Rightarrow> 'h handler" where
  "mk_handler i st g = \<lparr>h_inst = i, h_stack = st, h_gas = g\<rparr>"

definition registerRange ::
    "byte \<Rightarrow> byte \<Rightarrow> (nat \<Rightarrow> 'h state \<Rightarrow> 'h state outcome) \<Rightarrow> uint64 \<Rightarrow> (byte \<times> 'h handler) list" where
  "registerRange from to' factory g =
     map (\<lambda>k. (from + word_of_nat k, mk_handler (factory (k + 1)) 0 g)) [0..<Suc (unat to' - unat from)]"

definition dispatchTable :: "('h, 'z) Host_scheme \<Rightarrow> crypto_lib \<Rightarrow> (byte \<times> 'h handler) list" where
  "dispatchTable H L =
     [
     (OP_STOP, mk_handler (of_option \<circ> opStop) 0 0),
     (OP_ADD, mk_handler (of_option \<circ> opAdd) 2 3),
     (OP_SUB, mk_handler (of_option \<circ> opSub) 2 3),
     (OP_MUL, mk_handler (of_option \<circ> opMul) 2 5),
     (OP_DIV, mk_handler (of_option \<circ> opDiv) 2 5),
     (OP_SDIV, mk_handler (of_option \<circ> opSDiv) 2 5),
     (OP_MOD, mk_handler (of_option \<circ> opMod) 2 5),
     (OP_SMOD, mk_handler (of_option \<circ> opSMod) 2 5),
     (OP_EXP, mk_handler (of_option \<circ> opExp) 2 10)]
     @ registerRange OP_PUSH1 OP_PUSH32 (\<lambda>n. of_option \<circ> opPush n) 3
     @ registerRange OP_DUP1 OP_DUP16 (\<lambda>n. of_option \<circ> opDup n) 3
     @ registerRange OP_SWAP1 OP_SWAP16 (\<lambda>n. of_option \<circ> opSwap n) 3
     @ registerRange OP_LOG0 OP_LOG4 (\<lambda>n. of_option \<circ> opLog H n) 375
     @ [
     (OP_ADDMOD, mk_handler (of_option \<circ> opAddMod) 3 8),
     (OP_MULMOD, mk_handler (of_option \<circ> opMulMod) 3 8),
     (OP_AND, mk_handler (of_option \<circ> opAnd) 2 3),
     (OP_OR, mk_handler (of_option \<circ> opOr) 2 3),
     (OP_XOR, mk_handler (of_option \<circ> opXor) 2 3),
     (OP_BYTE, mk_handler (of_option \<circ> opByte) 2 3),
     (OP_NOT, mk_handler (of_option \<circ> opNot) 1 3),
     (OP_ISZERO, mk_handler (of_option \<circ> opIsZero) 1 3),
     (OP_EQ, mk_handler (of_option \<circ> opEq) 2 3),
     (OP_LT, mk_handler (of_option \<circ> opLt) 2 3),
     (OP_GT, mk_handler (of_option \<circ> opGt) 2 3),
     (OP_SLT, mk_handler (of_option \<circ> opSlt) 2 3),
     (OP_SGT, mk_handler (of_option \<circ> opSgt) 2 3),
     (OP_SIGNEXTEND, mk_handler (of_option \<circ> opSignExtension) 1 5),
     (OP_SHL, mk_handler (of_option \<circ> opShl) 2 3),
     (OP_SHR, mk_handler (of_option \<circ> opShr) 2 3),
     (OP_SAR, mk_handler (of_option \<circ> opSar) 2 3),
     (OP_CREATE, mk_handler (opCreate H L OP_CREATE) 3 32000),
     (OP_CREATE2, mk_handler (opCreate H L OP_CREATE2) 4 32000),
     (OP_CALL, mk_handler (opCall H L OP_CALL) 7 0),
     (OP_CALLCODE, mk_handler (opCall H L OP_CALLCODE) 7 0),
     (OP_DELEGATECALL, mk_handler (opCall H L OP_DELEGATECALL) 6 0),
     (OP_STATICCALL, mk_handler (opCall H L OP_STATICCALL) 6 0),
     (OP_REVERT, mk_handler (of_option \<circ> opHalt OP_REVERT) 2 0),
     (OP_RETURN, mk_handler (of_option \<circ> opHalt OP_RETURN) 2 0),
     (OP_MLOAD, mk_handler (of_option \<circ> opMload) 1 3),
     (OP_MSTORE, mk_handler (of_option \<circ> opMStore) 2 3),
     (OP_MSTORE8, mk_handler (of_option \<circ> opMStore8) 2 3),
     (OP_SLOAD, mk_handler (of_option \<circ> opSload H) 1 0),
     (OP_SSTORE, mk_handler (of_option \<circ> opSStore H) 2 0),
     (OP_SHA3, mk_handler (of_option \<circ> opSha3 L) 2 30),
     (OP_POP, mk_handler (of_option \<circ> opPop) 1 2),
     (OP_EXTCODEHASH, mk_handler (of_option \<circ> opExtCodeHash H) 1 0),
     (OP_ADDRESS, mk_handler (of_option \<circ> opAddress) 0 2),
     (OP_BALANCE, mk_handler (of_option \<circ> opBalance H) 1 0),
     (OP_SELFBALANCE, mk_handler (of_option \<circ> opSelfBalance H) 0 5),
     (OP_ORIGIN, mk_handler (of_option \<circ> opOrigin H) 0 2),
     (OP_CALLER, mk_handler (of_option \<circ> opCaller) 0 2),
     (OP_CALLVALUE, mk_handler (of_option \<circ> opCallValue) 0 2),
     (OP_CALLDATALOAD, mk_handler (of_option \<circ> opCallDataLoad) 1 3),
     (OP_CALLDATASIZE, mk_handler (of_option \<circ> opCallDataSize) 0 2),
     (OP_CODESIZE, mk_handler (of_option \<circ> opCodeSize) 0 2),
     (OP_EXTCODESIZE, mk_handler (of_option \<circ> opExtCodeSize H) 1 0),
     (OP_GASPRICE, mk_handler (of_option \<circ> opGasPrice H) 0 2),
     (OP_RETURNDATASIZE, mk_handler (of_option \<circ> opReturnDataSize) 0 2),
     (OP_CHAINID, mk_handler (of_option \<circ> opChainID H) 0 2),
     (OP_PC, mk_handler (of_option \<circ> opPC) 0 2),
     (OP_MSIZE, mk_handler (of_option \<circ> opMSize) 0 2),
     (OP_GAS, mk_handler (of_option \<circ> opGas) 0 2),
     (OP_EXTCODECOPY, mk_handler (of_option \<circ> opExtCodeCopy H) 4 0),
     (OP_CALLDATACOPY, mk_handler (of_option \<circ> opCallDataCopy) 3 3),
     (OP_RETURNDATACOPY, mk_handler (of_option \<circ> opReturnDataCopy) 3 3),
     (OP_CODECOPY, mk_handler (of_option \<circ> opCodeCopy) 3 3),
     (OP_BLOCKHASH, mk_handler (of_option \<circ> opBlockHash H) 1 20),
     (OP_COINBASE, mk_handler (of_option \<circ> opCoinbase H) 0 2),
     (OP_TIMESTAMP, mk_handler (of_option \<circ> opTimestamp H) 0 2),
     (OP_NUMBER, mk_handler (of_option \<circ> opNumber H) 0 2),
     (OP_DIFFICULTY, mk_handler (of_option \<circ> opDifficulty H) 0 2),
     (OP_GASLIMIT, mk_handler (of_option \<circ> opGasLimit H) 0 2),
     (OP_SELFDESTRUCT, mk_handler (of_option \<circ> opSelfDestruct H) 1 0),
     (OP_JUMP, mk_handler (of_option \<circ> opJump) 1 8),
     (OP_JUMPI, mk_handler (of_option \<circ> opJumpi) 2 10),
     (OP_JUMPDEST, mk_handler (of_option \<circ> opJumpDest) 0 1)]"

subsection \<open>The run loop\<close>

definition run_step :: "('h, 'z) Host_scheme \<Rightarrow> crypto_lib \<Rightarrow> 'h state \<Rightarrow> 'h state outcome" where
  "run_step H L c =
     (case CurrentOpCode c of
        None \<Rightarrow> Panic
      | Some (op, valid) \<Rightarrow>
        (if \<not> valid then Val (Halt c)
         else case map_of (dispatchTable H L) op of
           None \<Rightarrow> Val (exit c errOpCodeNotFound)
         | Some h \<Rightarrow>
             (if length (s_stack c) < h_stack h then Val (exit c ErrStackUnderflow)
              else case consumeGas c (h_gas h) of
                (False, c) \<Rightarrow> Val (exit c ErrOutOfGas)
              | (True, c) \<Rightarrow>
                  obind (h_inst h c) (\<lambda>c.
                    if length (s_stack c) > stackSize then Val (exit c ErrStackOverflow)
                    else Val (c\<lparr>s_ip := s_ip c + 1\<rparr>)))))"

fun Run_loop :: "nat \<Rightarrow> ('h, 'z) Host_scheme \<Rightarrow> crypto_lib \<Rightarrow> 'h state \<Rightarrow> 'h state outcome" where
  "Run_loop 0 H L c = (if s_stop c then Val c else NoFuel)"
| "Run_loop (Suc n) H L c = (if s_stop c then Val c else obind (run_step H L c) (Run_loop n H L))"

subsection \<open>Lookups in the dispatch table\<close>

lemma map_of_registerRange:
  assumes "unat from \<le> unat to'"
  shows "map_of (registerRange from to' f g) op =
    (if from \<le> op \<and> op \<le> to' then Some (mk_handler (f (unat op - unat from + 1)) 0 g) else None)"
proof -
  define m where "m = unat to' - unat from"
  have small: "unat from + k < 256" if "k \<le> m" for k
    using that assms unat_byte_less [of to'] unfolding m_def by linarith
  have "map_of (map (\<lambda>k. (from + word_of_nat k, mk_handler (f (k + 1)) 0 g)) ks) op =
      (if from \<le> op \<and> unat op - unat from \<in> set ks
       then Some (mk_handler (f (unat op - unat from + 1)) 0 g) else None)"
    if "\<forall>k \<in> set ks. k \<le> m" for ks
    using that
  proof (induction ks)
    case Nil
    then show ?case by simp
  next
    case (Cons k ks)
    have u: "unat (from + word_of_nat k) = unat from + k"
      using small [of k] Cons.prems by (simp add: unat_word_ariths unat_of_nat)
    then have "op = from + word_of_nat k \<longleftrightarrow> from \<le> op \<and> unat op - unat from = k"
      by (simp add: word_unat_eq_iff word_le_nat_alt) linarith
    then show ?case using Cons by (auto simp: u)
  qed
  from this [of "[0..<Suc m]"] show ?thesis
    using assms by (auto simp: registerRange_def m_def word_le_nat_alt less_Suc_eq_le)
qed

lemmas dispatch_lookup = dispatchTable_def map_of_append map_add_def map_of_registerRange

text \<open>An instruction that returns normally, seen from the loop.\<close>

lemma run_step_instr:
  assumes "CurrentOpCode c = Some (op, True)" and "map_of (dispatchTable H L) op = Some (mk_handler i k g)"
    and "k \<le> length (s_stack c)" and "g \<le> s_gas c"
    and "i (c\<lparr>s_gas := s_gas c - g, s_currentConsumedGas := s_currentConsumedGas c + g\<rparr>) = Val c'"
    and "length (s_stack c') \<le> stackSize"
  shows "run_step H L c = Val (c'\<lparr>s_ip := s_ip c' + 1\<rparr>)"
proof -
  let ?c = "c\<lparr>s_gas := s_gas c - g, s_currentConsumedGas := s_currentConsumedGas c + g\<rparr>"
  have "consumeGas c g = (True, ?c)" using assms(4) by (simp add: consumeGas_def Let_def not_le [symmetric])
  then show ?thesis
    using assms by (simp add: run_step_def mk_handler_def)
qed

subsection \<open>Running a contract\<close>

text \<open>
  What \<^verbatim>\<open>(*EVM).Run\<close> writes into the state it takes from the pool; \<open>bm\<close> is the jump
  destination bitmap.
\<close>

definition setup_state :: "'h state \<Rightarrow> bytes \<Rightarrow> Contract \<Rightarrow> 'h \<Rightarrow> ForksInTime \<Rightarrow> 'h state" where
  "setup_state p bm m h cfg = (resetReturnData p)\<lparr>s_msg := m, s_code := c_Code m, s_gas := c_Gas m,
     s_host := h, s_config := cfg, s_bitmap := bm\<rparr>"

text \<open>A state the pool allocates: Go's zero values.\<close>

definition new_state :: "Contract \<Rightarrow> 'h \<Rightarrow> ForksInTime \<Rightarrow> 'h state" where
  "new_state m h cfg = \<lparr>s_ip = 0, s_code = [], s_host = h, s_msg = m, s_config = cfg,
     s_memory = [], s_lastGasCost = 0, s_stack = [], s_err = None, s_stop = False, s_gas = 0,
     s_currentConsumedGas = 0, s_bitmap = [], s_returnData = [], s_ret = []\<rparr>"

definition run_fuel :: "Contract \<Rightarrow> nat" where
  "run_fuel m = unat (c_Gas m) + 2"

definition EVM_result :: "Contract \<Rightarrow> 'h state \<Rightarrow> ExecutionResult" where
  "EVM_result m c =
     (let gasLeft = (if s_err c \<noteq> None \<and> s_err c \<noteq> Some ErrExecutionReverted then 0 else s_gas c)
      in \<lparr>r_ReturnValue = s_ret c, r_GasLeft = gasLeft, r_GasUsed = c_Gas m - gasLeft, r_Err = s_err c\<rparr>)"

definition EVM_Run ::
    "('h, 'z) Host_scheme \<Rightarrow> crypto_lib \<Rightarrow> Contract \<Rightarrow> 'h \<Rightarrow> ForksInTime \<Rightarrow> (ExecutionResult \<times> 'h) outcome" where
  "EVM_Run H L m h cfg =
     obind (of_option (setCode [] (c_Code m))) (\<lambda>bm.
       obind (Run_loop (run_fuel m) H L (setup_state (new_state m h cfg) bm m h cfg)) (\<lambda>c.
         Val (EVM_result m c, s_host c)))"

text \<open>A reused state starts a run exactly as a new one does.\<close>

lemma setup_state_reset: "setup_state (state_reset p) bm m h cfg = setup_state (new_state m h cfg) bm m h cfg"
  by (simp add: setup_state_def state_reset_def new_state_def resetReturnData_def)

subsection \<open>A concrete host\<close>

text \<open>
  A host of an empty chain and a hash function, to run the machine on concrete inputs: no account
  exists, every nested call fails at once and gives its gas back, and the hash is the input padded
  or cut to 32 bytes.
\<close>

definition empty_host :: "unit Host" where
  "empty_host = \<lparr>
     AccountExists = (\<lambda>_ _. False), GetStorage = (\<lambda>_ _ _. 0),
     SetStorage = (\<lambda>_ _ _ _ _. (StorageUnchanged, ())), GetBalance = (\<lambda>_ _. 0),
     GetCodeSize = (\<lambda>_ _. (0, ())), GetCodeHash = (\<lambda>_ _. 0), GetCode = (\<lambda>_ _. ([], ())),
     Selfdestruct = (\<lambda>_ _ _. ()),
     GetTxContext = (\<lambda>_. \<lparr>x_GasPrice = 0, x_Origin = 0, x_Coinbase = 0, x_Number = 0,
       x_Timestamp = 0, x_GasLimit = 0, x_ChainID = 0, x_Difficulty = 0\<rparr>),
     GetBlockHash = (\<lambda>_ _. 0), EmitLog = (\<lambda>_ _ _ _. ()),
     Callx = (\<lambda>_ m. Val (\<lparr>r_ReturnValue = [], r_GasLeft = c_Gas m, r_GasUsed = 0,
       r_Err = Some ErrExecutionReverted\<rparr>, ())),
     Empty = (\<lambda>_ _. True), GetNonce = (\<lambda>_ _. 0), GetRefund = (\<lambda>_. 0)\<rparr>"

definition plain_crypto :: crypto_lib where
  "plain_crypto = \<lparr>Keccak256 = (\<lambda>bs. take 32 (bs @ replicate 32 0)),
     rlp_address_nonce = (\<lambda>a n. a @ [ucast n]), slice_cap = (\<lambda>n. n)\<rparr>"

definition all_forks :: ForksInTime where
  "all_forks = Forks_At AllForksEnabled 0"

text \<open>A contract with the given code and gas, called with no value, and the state it runs in.\<close>

definition plain_contract :: "bytes \<Rightarrow> uint64 \<Rightarrow> Contract" where
  "plain_contract code' gas' = NewContractCall 0 1 1 2 (Some 0) gas' code' []"

definition plain_state :: "bytes \<Rightarrow> int list \<Rightarrow> uint64 \<Rightarrow> unit state" where
  "plain_state code' st gas' =
     (setup_state (new_state (plain_contract code' gas') () all_forks) [] (plain_contract code' gas')
        () all_forks)\<lparr>s_stack := st\<rparr>"

lemma all_forks_simps [simp]:
  "Homestead all_forks" "Byzantium all_forks" "Constantinople all_forks" "Petersburg all_forks"
  "Istanbul all_forks" "EIP150 all_forks" "EIP158 all_forks" "EIP155 all_forks"
  by (simp_all add: all_forks_def Forks_At_AllForksEnabled)

lemma plain_contract_simps [simp]:
  "c_Code (plain_contract code' gas') = code'" "c_Gas (plain_contract code' gas') = gas'"
  "c_Static (plain_contract code' gas') = False" "c_Depth (plain_contract code' gas') = 0"
  by (simp_all add: plain_contract_def NewContract_defs)

lemma plain_state_simps [simp]:
  "s_ip (plain_state code' st gas') = 0" "s_code (plain_state code' st gas') = code'"
  "s_stack (plain_state code' st gas') = st" "s_gas (plain_state code' st gas') = gas'"
  "s_config (plain_state code' st gas') = all_forks" "s_memory (plain_state code' st gas') = []"
  "s_stop (plain_state code' st gas') = False" "s_err (plain_state code' st gas') = None"
  "s_msg (plain_state code' st gas') = plain_contract code' gas'"
  "s_lastGasCost (plain_state code' st gas') = 0"
  by (simp_all add: plain_state_def setup_state_def new_state_def resetReturnData_def)

subsection \<open>Jump destinations\<close>

text \<open>
  The specification of a valid jump destination: a \<^verbatim>\<open>JUMPDEST\<close> byte at an instruction
  boundary, that is, not inside the immediate data of a push.
\<close>

definition immediate :: "byte \<Rightarrow> nat" where
  "immediate b = (if 0x60 \<le> b \<and> b \<le> 0x7F then unat b - 0x5F else 0)"

inductive instr_at :: "bytes \<Rightarrow> nat \<Rightarrow> bool" for cd where
  first: "instr_at cd 0"
| step: "instr_at cd i \<Longrightarrow> i < length cd \<Longrightarrow> instr_at cd (Suc (i + immediate (cd ! i)))"

definition jump_target :: "bytes \<Rightarrow> nat \<Rightarrow> bool" where
  "jump_target cd i \<longleftrightarrow> i < length cd \<and> instr_at cd i \<and> cd ! i = OP_JUMPDEST"

text \<open>The same boundaries, followed from a given position on.\<close>

inductive instr_from :: "bytes \<Rightarrow> nat \<Rightarrow> nat \<Rightarrow> bool" for cd where
  refl: "instr_from cd i i"
| step: "i < length cd \<Longrightarrow> instr_from cd (Suc (i + immediate (cd ! i))) j \<Longrightarrow> instr_from cd i j"

lemma instr_from_le: "instr_from cd i j \<Longrightarrow> i \<le> j"
  by (induction rule: instr_from.induct) auto

lemma instr_from_unfold:
  "instr_from cd i j \<longleftrightarrow> i = j \<or> i < length cd \<and> instr_from cd (Suc (i + immediate (cd ! i))) j"
  using instr_from.cases [of cd i j] by (auto intro: instr_from.intros)

lemma instr_from_trans_step:
  "instr_from cd i j \<Longrightarrow> j < length cd \<Longrightarrow> instr_from cd i (Suc (j + immediate (cd ! j)))"
  by (induction rule: instr_from.induct) (auto intro: instr_from.intros)

lemma instr_at_from: "instr_at cd j \<Longrightarrow> instr_from cd 0 j"
  by (induction rule: instr_at.induct) (auto intro: instr_from.refl instr_from_trans_step)

lemma instr_from_at: "instr_from cd i j \<Longrightarrow> instr_at cd i \<Longrightarrow> instr_at cd j"
  by (induction rule: instr_from.induct) (use instr_at.step in auto)

lemma instr_at_iff: "instr_at cd j \<longleftrightarrow> instr_from cd 0 j"
  using instr_at_from instr_from_at instr_at.first by blast

lemma push_advance: "(if isPushOp c then unat (c - 0x60 + 2) else 1) = Suc (immediate c)"
proof (cases "isPushOp c")
  case True
  then have "96 \<le> unat c" by (simp add: isPushOp_range word_le_nat_alt)
  then show ?thesis
    using True isPushOp_size [OF True] isPushOp_range [of c] by (simp add: immediate_def)
next
  case False
  then show ?thesis using isPushOp_range [of c] by (auto simp: immediate_def)
qed

text \<open>Bits of the bitmap.\<close>

definition marked :: "bytes \<Rightarrow> nat \<Rightarrow> bool" where
  "marked buf i \<longleftrightarrow> bit (buf ! (i div 8)) (i mod 8)"

lemma bitmap_isSet_marked: "i div 8 < length buf \<Longrightarrow> bitmap_isSet buf i = Some (marked buf i)"
  by (simp add: bitmap_isSet_def marked_def bit_iff_and_push_bit_not_eq_0)

lemma bitmap_set_Some:
  assumes "i div 8 < length buf"
  obtains buf' where "bitmap_set buf i = Some buf'" and "length buf' = length buf"
    and "\<And>j. marked buf' j \<longleftrightarrow> marked buf j \<or> j = i"
proof
  let ?b = "buf[i div 8 := buf ! (i div 8) OR push_bit (i mod 8) 1]"
  show "bitmap_set buf i = Some ?b" and "length ?b = length buf"
    using assms by (simp_all add: bitmap_set_def)
  fix j
  show "marked ?b j \<longleftrightarrow> marked buf j \<or> j = i"
  proof (cases "j div 8 = i div 8")
    case True
    have "j = i \<longleftrightarrow> j mod 8 = i mod 8" using True by (metis div_mod_decomp)
    with True assms show ?thesis
      by (auto simp: marked_def bit_or_iff bit_exp_iff)
  next
    case False
    then show ?thesis by (auto simp: marked_def)
  qed
qed

lemma setCode_loop_marks:
  assumes "length buf = length cd div 8 + 1"
  shows "\<exists>buf'. setCode_loop cd i buf = Some buf' \<and> length buf' = length buf \<and>
    (\<forall>j < length cd. marked buf' j \<longleftrightarrow>
       marked buf j \<or> instr_from cd i j \<and> cd ! j = OP_JUMPDEST)"
  using assms
proof (induction cd i buf rule: setCode_loop.induct)
  case (1 cd i buf)
  show ?case
  proof (cases "i < length cd")
    case False
    have "\<not> instr_from cd i j" if "j < length cd" for j
      using False that instr_from_le [of cd i j] by auto
    then show ?thesis using False by (auto simp: setCode_loop.simps [of cd i buf])
  next
    case less: True
    let ?c = "cd ! i"
    have next_i: "i + (if isPushOp ?c then unat (?c - 0x60 + 2) else 1) = Suc (i + immediate ?c)"
      using push_advance [of ?c] by (simp only: add_Suc_right)
    consider (push) "isPushOp ?c" | (dest) "\<not> isPushOp ?c" "?c = 0x5B" | (other) "\<not> isPushOp ?c" "?c \<noteq> 0x5B"
      by blast
    then show ?thesis
    proof cases
      case push
      then have "?c \<noteq> 0x5B" by (auto simp: isPushOp_range)
      with push less "1.IH"(1) [OF less HOL.refl push "1.prems"] next_i show ?thesis
        by (subst setCode_loop.simps) (auto simp: Let_def instr_from_unfold [of cd i])
    next
      case dest
      have "i div 8 < length buf" using less "1.prems" by (simp add: div_le_mono le_imp_less_Suc)
      then obtain b where b: "bitmap_set buf i = Some b" "length b = length buf"
        "\<forall>j. marked b j \<longleftrightarrow> marked buf j \<or> j = i"
        using bitmap_set_Some [of i buf] by metis
      have "length b = length cd div 8 + 1" using b(2) "1.prems" by simp
      from "1.IH"(2) [OF less HOL.refl dest b(1) this] dest less b next_i show ?thesis
        by (subst setCode_loop.simps) (auto simp: Let_def instr_from_unfold [of cd i])
    next
      case other
      from "1.IH"(3) [OF less HOL.refl other "1.prems"] other less next_i show ?thesis
        by (subst setCode_loop.simps) (auto simp: Let_def instr_from_unfold [of cd i])
    qed
  qed
qed

lemma marked_zeros: "i div 8 < n \<Longrightarrow> \<not> marked (replicate n 0) i"
  by (simp add: marked_def)

lemma setCode_marks:
  obtains bm where "setCode [] cd = Some bm" and "length bm = length cd div 8 + 1"
    and "\<And>j. j < length cd \<Longrightarrow> bitmap_isSet bm j = Some (jump_target cd j)"
proof -
  let ?z = "extendByteSlice [] (length cd div 8 + 1)"
  from setCode_loop_marks [of ?z cd 0] obtain bm where bm: "setCode_loop cd 0 ?z = Some bm"
      "length bm = length cd div 8 + 1"
      "\<forall>j < length cd. marked bm j \<longleftrightarrow> marked ?z j \<or> instr_from cd 0 j \<and> cd ! j = OP_JUMPDEST"
    by (auto simp: extendByteSlice_def)
  have "bitmap_isSet bm j = Some (jump_target cd j)" if j: "j < length cd" for j
  proof -
    have "j div 8 < length cd div 8 + 1" using j by (simp add: div_le_mono le_imp_less_Suc)
    moreover from this have "\<not> marked ?z j"
      using marked_zeros [of j "length cd div 8 + 1"] by (simp add: extendByteSlice_def)
    ultimately show ?thesis using bm(2,3) j
      by (simp add: bitmap_isSet_marked jump_target_def instr_at_iff)
  qed
  with bm show ?thesis using that by (auto simp: setCode_def)
qed

text \<open>
  C20. Jump destination analysis is exact. For every byte string, the bitmap that \<^verbatim>\<open>setCode\<close>
  builds is defined, and for every position of the code it answers "set" exactly when that
  position holds a \<^verbatim>\<open>JUMPDEST\<close> at an instruction boundary, so never inside push data.
\<close>

theorem setCode_correct:
  "\<exists>bm. setCode [] cd = Some bm \<and>
     (\<forall>i. i < length cd \<longrightarrow> bitmap_isSet bm i = Some (jump_target cd i))"
  using setCode_marks [of cd] by metis

theorem setCode_correct_witness:
  "\<exists>bm. setCode [] [OP_PUSH1, OP_JUMPDEST, OP_JUMPDEST] = Some bm \<and>
     bitmap_isSet bm 1 = Some (jump_target [OP_PUSH1, OP_JUMPDEST, OP_JUMPDEST] 1) \<and>
     bitmap_isSet bm 2 = Some (jump_target [OP_PUSH1, OP_JUMPDEST, OP_JUMPDEST] 2)"
  using setCode_correct [of "[OP_PUSH1, OP_JUMPDEST, OP_JUMPDEST]"] by auto

end
