(* ===== verification/EVM_Word.thy ===== *)
theory EVM_Word
  imports EVM
begin

section \<open>The arithmetic instructions implement 256-bit words\<close>

text \<open>
  The instructions compute on unbounded integers and reduce the results with \<open>toU256\<close>. This
  theory gives the semantics of the arithmetic, comparison and bit instructions on the type
  \<^typ>\<open>256 word\<close> and shows that the instructions implement it: on a stack that holds words,
  the result is the word the specification gives, and nothing else of the state changes.
\<close>

named_theorems word_refines "an arithmetic instruction implements its word operation"

abbreviation words :: "Hash list \<Rightarrow> int list" where
  "words ws \<equiv> map uint ws"

subsection \<open>Reduction to 256 bits\<close>

lemma uint_Hash_less [simp]: "uint (a :: Hash) < 2 ^ 256"
  using uint_lt2p [of a] by simp

lemma take_bit_uint_Hash [simp]: "take_bit 256 (uint (a :: Hash)) = uint a"
  by (rule take_bit_int_eq_self) (simp, rule uint_Hash_less)

lemma toU256_eq: "toU256 x = uint (word_of_int x :: Hash)"
proof (cases "x < 0 \<or> BitLen x > 256")
  case True
  have "x AND (2 ^ 256 - 1) = take_bit 256 x"
    by (simp add: take_bit_eq_mask mask_eq_exp_minus_1)
  with True show ?thesis by (simp add: toU256_def tt256_def uint_word_of_int_eq)
next
  case False
  then have "0 \<le> x" "x < 2 ^ 256" using BitLen_le_iff [of x 256] by auto
  with False show ?thesis by (simp add: toU256_def uint_word_of_int_eq take_bit_int_eq_self)
qed

lemma toU256_range: "0 \<le> toU256 x" "toU256 x < 2 ^ 256"
  using uint_Hash_less [of "word_of_int x"] by (simp_all add: toU256_eq)

lemma sint_Hash: "sint (a :: Hash) = (if uint a < 2 ^ 255 then uint a else uint a - 2 ^ 256)"
proof -
  have "sint a = signed_take_bit 255 (uint a)" by (simp add: sint_uint)
  also have "\<dots> = (if uint a < 2 ^ 255 then uint a else uint a - 2 ^ 256)"
  proof (cases "uint a < 2 ^ 255")
    case True
    have "signed_take_bit 255 (uint a) = uint a"
      by (rule signed_take_bit_int_eq_self) (use True in \<open>simp_all add: order_trans [of _ 0]\<close>)
    with True show ?thesis by simp
  next
    case False
    have "signed_take_bit 255 (uint a) = signed_take_bit 255 (uint a - 2 ^ 256)"
      by (simp add: signed_take_bit_eq_iff_take_bit_eq take_bit_eq_mod)
    also have "\<dots> = uint a - 2 ^ 256"
      by (rule signed_take_bit_int_eq_self) (use False uint_Hash_less [of a] in simp_all)
    finally show ?thesis using False by simp
  qed
  finally show ?thesis .
qed

lemma to256_uint: "to256 (uint (a :: Hash)) = sint a"
  using BitLen_gt_iff [of 255 "uint a"] by (simp add: to256_def tt256_def sint_Hash not_less)

lemma to256_0 [simp]: "to256 0 = 0"
  using to256_uint [of 0] by simp

lemma bool_word_uint: "bool_word b = uint (of_bool b :: Hash)"
  by (simp add: bool_word_def)

lemma toU256_uint [simp]: "toU256 (uint (a :: Hash)) = uint a"
  by (simp add: toU256_eq)

subsection \<open>The specification\<close>

definition sdiv_word :: "Hash \<Rightarrow> Hash \<Rightarrow> Hash" where
  "sdiv_word a b = word_of_int (sgn (sint a) * sgn (sint b) * (\<bar>sint a\<bar> div \<bar>sint b\<bar>))"

definition smod_word :: "Hash \<Rightarrow> Hash \<Rightarrow> Hash" where
  "smod_word a b = (if b = 0 then 0 else word_of_int (sgn (sint a) * (\<bar>sint a\<bar> mod \<bar>sint b\<bar>)))"

definition byte_word :: "Hash \<Rightarrow> Hash \<Rightarrow> Hash" where
  "byte_word i x = (if i < 32 then drop_bit (8 * (31 - unat i)) x AND 0xff else 0)"

definition shl_word :: "Hash \<Rightarrow> Hash \<Rightarrow> Hash" where
  "shl_word n x = push_bit (unat n) x"

definition shr_word :: "Hash \<Rightarrow> Hash \<Rightarrow> Hash" where
  "shr_word n x = drop_bit (unat n) x"

definition sar_word :: "Hash \<Rightarrow> Hash \<Rightarrow> Hash" where
  "sar_word n x = word_of_int (sint x div 2 ^ unat n)"

definition signextend_word :: "Hash \<Rightarrow> Hash \<Rightarrow> Hash" where
  "signextend_word k x = (if k < 31 then signed_take_bit (8 * unat k + 7) x else x)"

text \<open>
  Instructions with two operands, the first being the top of the stack; all but \<^verbatim>\<open>BYTE\<close>, which is
  treated at the end of the theory.
\<close>

definition alu2 :: "(byte \<times> (Hash \<Rightarrow> Hash \<Rightarrow> Hash)) list" where
  "alu2 = [
     (OP_ADD, (+)), (OP_MUL, (*)), (OP_SUB, (-)), (OP_DIV, (div)), (OP_SDIV, sdiv_word),
     (OP_MOD, \<lambda>a b. if b = 0 then 0 else a mod b), (OP_SMOD, smod_word),
     (OP_EXP, \<lambda>a b. a ^ unat b), (OP_SIGNEXTEND, signextend_word),
     (OP_LT, \<lambda>a b. of_bool (a < b)), (OP_GT, \<lambda>a b. of_bool (a > b)),
     (OP_SLT, \<lambda>a b. of_bool (sint a < sint b)), (OP_SGT, \<lambda>a b. of_bool (sint a > sint b)),
     (OP_EQ, \<lambda>a b. of_bool (a = b)), (OP_AND, (AND)), (OP_OR, (OR)), (OP_XOR, (XOR)),
     (OP_SHL, shl_word), (OP_SHR, shr_word), (OP_SAR, sar_word)]"

subsection \<open>Sums, products, quotients\<close>

lemma opAdd_word [word_refines]:
  "s_stack c = words (a # b # st) \<Longrightarrow> opAdd c = Some (c\<lparr>s_stack := words ((a + b) # st)\<rparr>)"
  by (simp add: opAdd_def evm_defs toU256_eq)

lemma opMul_word [word_refines]:
  "s_stack c = words (a # b # st) \<Longrightarrow> opMul c = Some (c\<lparr>s_stack := words ((a * b) # st)\<rparr>)"
  by (simp add: opMul_def evm_defs toU256_eq)

lemma opSub_word [word_refines]:
  "s_stack c = words (a # b # st) \<Longrightarrow> opSub c = Some (c\<lparr>s_stack := words ((a - b) # st)\<rparr>)"
  by (simp add: opSub_def evm_defs toU256_eq)

lemma big_Div_uint: "b \<noteq> 0 \<Longrightarrow> big_Div (uint a) (uint b) = uint (a div (b :: Hash))"
  by (simp add: big_Div_def uint_div word_neq_0_conv [symmetric] uint_0_iff less_le)

lemma opDiv_word [word_refines]:
  "s_stack c = words (a # b # st) \<Longrightarrow> opDiv c = Some (c\<lparr>s_stack := words ((a div b) # st)\<rparr>)"
  by (cases "b = 0") (simp_all add: opDiv_def evm_defs big_Div_uint uint_0_iff)

lemma opMod_word [word_refines]:
  "s_stack c = words (a # b # st) \<Longrightarrow>
   opMod c = Some (c\<lparr>s_stack := words ((if b = 0 then 0 else a mod b) # st)\<rparr>)"
  by (simp add: opMod_def evm_defs big_Mod_def uint_0_iff flip: uint_mod)

lemma sint_0_iff: "sint (b :: Hash) = 0 \<longleftrightarrow> b = 0"
  by (metis signed_0 signed_word_eqI)

lemma opSDiv_word [word_refines]:
  assumes "s_stack c = words (a # b # st)"
  shows "opSDiv c = Some (c\<lparr>s_stack := words (sdiv_word a b # st)\<rparr>)"
proof (cases "b = 0")
  case True
  then show ?thesis using assms by (simp add: opSDiv_def evm_defs sdiv_word_def to256_uint Let_def)
next
  case False
  then have b: "sint b \<noteq> 0" by (simp add: sint_0_iff)
  have "(if sgn (sint a) \<noteq> sgn (sint b) then - (\<bar>sint a\<bar> div \<bar>sint b\<bar>) else \<bar>sint a\<bar> div \<bar>sint b\<bar>)
      = sgn (sint a) * sgn (sint b) * (\<bar>sint a\<bar> div \<bar>sint b\<bar>)"
    using b by (auto simp: sgn_if)
  then show ?thesis using assms b
    by (simp add: opSDiv_def evm_defs sdiv_word_def to256_uint Let_def big_Div_def toU256_eq)
qed

lemma opSMod_word [word_refines]:
  assumes "s_stack c = words (a # b # st)"
  shows "opSMod c = Some (c\<lparr>s_stack := words (smod_word a b # st)\<rparr>)"
proof (cases "b = 0")
  case True
  then show ?thesis using assms by (simp add: opSMod_def evm_defs smod_word_def to256_uint Let_def)
next
  case False
  then have b: "sint b \<noteq> 0" by (simp add: sint_0_iff)
  have "(if sint a < 0 then - (\<bar>sint a\<bar> mod \<bar>sint b\<bar>) else \<bar>sint a\<bar> mod \<bar>sint b\<bar>)
      = sgn (sint a) * (\<bar>sint a\<bar> mod \<bar>sint b\<bar>)"
    by (auto simp: sgn_if)
  then show ?thesis using assms False b
    by (simp add: opSMod_def evm_defs smod_word_def to256_uint Let_def big_Mod_def toU256_eq)
qed

lemma opAddMod_word:
  "s_stack c = words (a # b # n # st) \<Longrightarrow>
   opAddMod c = Some (c\<lparr>s_stack := words (word_of_int ((uint a + uint b) mod uint n) # st)\<rparr>)" if "n \<noteq> 0"
  using that by (simp add: opAddMod_def evm_defs big_Mod_def uint_0_iff toU256_eq)

lemma opMulMod_word:
  "s_stack c = words (a # b # n # st) \<Longrightarrow>
   opMulMod c = Some (c\<lparr>s_stack := words (word_of_int ((uint a * uint b) mod uint n) # st)\<rparr>)" if "n \<noteq> 0"
  using that by (simp add: opMulMod_def evm_defs big_Mod_def uint_0_iff toU256_eq)

subsection \<open>Comparisons and bits\<close>

lemma opLt_word [word_refines]:
  "s_stack c = words (a # b # st) \<Longrightarrow> opLt c = Some (c\<lparr>s_stack := words (of_bool (a < b) # st)\<rparr>)"
  by (simp add: opLt_def evm_defs bool_word_uint word_less_def)

lemma opGt_word [word_refines]:
  "s_stack c = words (a # b # st) \<Longrightarrow> opGt c = Some (c\<lparr>s_stack := words (of_bool (b < a) # st)\<rparr>)"
  by (simp add: opGt_def evm_defs bool_word_uint word_less_def)

lemma opEq_word [word_refines]:
  "s_stack c = words (a # b # st) \<Longrightarrow> opEq c = Some (c\<lparr>s_stack := words (of_bool (a = b) # st)\<rparr>)"
  by (simp add: opEq_def evm_defs bool_word_uint word_uint_eq_iff)

lemma opSlt_word [word_refines]:
  "s_stack c = words (a # b # st) \<Longrightarrow> opSlt c = Some (c\<lparr>s_stack := words (of_bool (sint a < sint b) # st)\<rparr>)"
  by (simp add: opSlt_def evm_defs bool_word_uint to256_uint)

lemma opSgt_word [word_refines]:
  "s_stack c = words (a # b # st) \<Longrightarrow> opSgt c = Some (c\<lparr>s_stack := words (of_bool (sint b < sint a) # st)\<rparr>)"
  by (simp add: opSgt_def evm_defs bool_word_uint to256_uint)

lemma opIsZero_word:
  "s_stack c = words (a # st) \<Longrightarrow> opIsZero c = Some (c\<lparr>s_stack := words (of_bool (a = 0) # st)\<rparr>)"
  by (simp add: opIsZero_def evm_defs bool_word_uint uint_0_iff)

lemma opAnd_word [word_refines]:
  "s_stack c = words (a # b # st) \<Longrightarrow> opAnd c = Some (c\<lparr>s_stack := words ((a AND b) # st)\<rparr>)"
  by (simp add: opAnd_def evm_defs uint_and)

lemma opOr_word [word_refines]:
  "s_stack c = words (a # b # st) \<Longrightarrow> opOr c = Some (c\<lparr>s_stack := words ((a OR b) # st)\<rparr>)"
  by (simp add: opOr_def evm_defs uint_or)

lemma opXor_word [word_refines]:
  "s_stack c = words (a # b # st) \<Longrightarrow> opXor c = Some (c\<lparr>s_stack := words ((a XOR b) # st)\<rparr>)"
  by (simp add: opXor_def evm_defs uint_xor)

lemma opNot_word:
  "s_stack c = words (a # st) \<Longrightarrow> opNot c = Some (c\<lparr>s_stack := words (NOT a # st)\<rparr>)"
  by (simp add: opNot_def evm_defs toU256_eq of_int_not_eq)

subsection \<open>Shifts and sign extension\<close>

lemma equalOrOverflowsUint256_iff: "equalOrOverflowsUint256 (uint (n :: Hash)) \<longleftrightarrow> 256 \<le> unat n"
proof -
  have "equalOrOverflowsUint256 (uint n) \<longleftrightarrow> 256 \<le> uint n"
    by (simp add: equalOrOverflowsUint256_def BitLen_gt_iff)
  also have "\<dots> \<longleftrightarrow> 256 \<le> unat n" unfolding uint_nat by linarith
  finally show ?thesis .
qed

lemma unat_Uint64_small: "unat (n :: Hash) < 2 ^ 64 \<Longrightarrow> unat (Uint64 (uint n)) = unat n"
proof -
  assume "unat n < 2 ^ 64"
  then have "int (unat n) < int (2 ^ 64)" by (simp only: of_nat_less_iff)
  then have "IsUint64 (uint n)" unfolding IsUint64_iff uint_nat by simp
  then show "unat (Uint64 (uint n)) = unat n" by (simp add: unat_Uint64)
qed

lemma opShl_word [word_refines]:
  assumes "s_stack c = words (n # x # st)" "Constantinople (s_config c)"
  shows "opShl c = Some (c\<lparr>s_stack := words (shl_word n x # st)\<rparr>)"
proof (cases "256 \<le> unat n")
  case True
  then show ?thesis using assms
    by (simp add: opShl_def evm_defs equalOrOverflowsUint256_iff shl_word_def)
next
  case False
  then have "unat (Uint64 (uint n)) = unat n" by (intro unat_Uint64_small) simp
  moreover have "word_of_int (push_bit (unat n) (uint x)) = push_bit (unat n) x"
    by (simp add: push_bit_eq_mult)
  ultimately show ?thesis using assms False
    by (simp add: opShl_def evm_defs equalOrOverflowsUint256_iff shl_word_def toU256_eq)
qed

lemma opShr_word [word_refines]:
  assumes "s_stack c = words (n # x # st)" "Constantinople (s_config c)"
  shows "opShr c = Some (c\<lparr>s_stack := words (shr_word n x # st)\<rparr>)"
proof (cases "256 \<le> unat n")
  case True
  then show ?thesis using assms
    by (simp add: opShr_def evm_defs equalOrOverflowsUint256_iff shr_word_def)
next
  case False
  then have "unat (Uint64 (uint n)) = unat n" by (intro unat_Uint64_small) simp
  moreover have "drop_bit (unat n) (uint x) = uint (drop_bit (unat n) x)"
    by (simp add: unsigned_drop_bit_eq)
  ultimately show ?thesis using assms False
    by (simp add: opShr_def evm_defs equalOrOverflowsUint256_iff shr_word_def)
qed

lemma sar_overflow:
  assumes "256 \<le> k"
  shows "sint (x :: Hash) div 2 ^ k = (if sint x \<ge> 0 then 0 else -1)"
proof -
  have "(2 :: int) ^ 255 \<le> 2 ^ k" by (rule power_increasing) (use assms in simp_all)
  moreover have "- (2 ^ 255) \<le> sint x" "sint x < 2 ^ 255"
    using sint_range_size [of x] by (simp_all add: word_size)
  ultimately have "sint x < 2 ^ k" "- (2 ^ k) \<le> sint x" by linarith+
  then show ?thesis
    by (auto simp: div_pos_pos_trivial intro: int_div_pos_eq [where r = "sint x + 2 ^ k"])
qed

lemma opSar_word [word_refines]:
  assumes "s_stack c = words (n # x # st)" "Constantinople (s_config c)"
  shows "opSar c = Some (c\<lparr>s_stack := words (sar_word n x # st)\<rparr>)"
proof (cases "256 \<le> unat n")
  case True
  have "uint (- 1 :: Hash) = tt256 - 1"
    by (simp add: tt256_def unsigned_minus_1_eq_mask mask_eq_exp_minus_1)
  then show ?thesis using assms True
    by (simp add: opSar_def evm_defs equalOrOverflowsUint256_iff sar_word_def to256_uint Let_def
        sar_overflow)
next
  case False
  then have "unat (Uint64 (uint n)) = unat n" by (intro unat_Uint64_small) simp
  then show ?thesis using assms False
    by (simp add: opSar_def evm_defs equalOrOverflowsUint256_iff sar_word_def to256_uint Let_def
        toU256_eq drop_bit_eq_div)
qed

lemma signextend_int:
  "(if bit x b then x OR NOT (2 ^ b - 1) else x AND (2 ^ b - 1)) = signed_take_bit b (x :: int)"
proof -
  have m: "2 ^ b - 1 = (mask b :: int)" by (simp add: mask_eq_exp_minus_1)
  show ?thesis unfolding m
    by (rule bit_eqI) (auto simp: bit_simps min_def split: if_splits)
qed

lemma signed_take_bit_ge_255:
  assumes "255 \<le> b"
  shows "word_of_int (signed_take_bit b (uint x)) = (x :: Hash)"
proof (rule bit_word_eqI)
  fix n assume "n < LENGTH(256)"
  then have "min b n = n" using assms by simp
  with \<open>n < LENGTH(256)\<close> show "bit (word_of_int (signed_take_bit b (uint x)) :: Hash) n = bit x n"
    by (simp add: bit_simps)
qed

lemma signed_take_bit_uint: "b < 255 \<Longrightarrow> word_of_int (signed_take_bit b (uint x)) = (signed_take_bit b x :: Hash)"
  by (rule bit_word_eqI) (auto simp: bit_simps min_def)

lemma opSignExtension_word [word_refines]:
  assumes "s_stack c = words (k # x # st)"
  shows "opSignExtension c = Some (c\<lparr>s_stack := words (signextend_word k x # st)\<rparr>)"
proof (cases "uint k > 32")
  case True
  then have "\<not> k < 31" by (simp add: word_less_def)
  with True assms show ?thesis
    by (simp add: opSignExtension_def evm_defs signextend_word_def)
next
  case False
  then have k: "unat k \<le> 32" by (simp add: nat_le_iff flip: nat_uint_eq)
  then have "unat (Uint64 (uint k)) = unat k" by (intro unat_Uint64_small) simp
  then have b: "unat (Uint64 (uint k) * 8 + 7) = 8 * unat k + 7"
    using k by (simp add: unat_word_ariths)
  have "word_of_int (signed_take_bit (8 * unat k + 7) (uint x)) = signextend_word k x"
    using signed_take_bit_ge_255 [of "8 * unat k + 7" x] signed_take_bit_uint [of "8 * unat k + 7" x]
    by (auto simp: signextend_word_def word_less_nat_alt not_less)
  with False assms b show ?thesis
    by (simp add: opSignExtension_def evm_defs Let_def signextend_int toU256_eq)
qed

subsection \<open>Exponentiation\<close>

lemma unat_take_bit_Suc:
  "unat (take_bit (Suc i) d) = of_bool (d AND 1 = 1) + 2 * unat (take_bit i (drop_bit 1 d))"
  for d :: uint64
proof -
  have "d AND 1 = 1 \<longleftrightarrow> odd (unat d)"
    by (simp add: and_one_eq even_word_iff odd_iff_mod_2_eq_one) (simp add: even_iff_mod_2_eq_zero word_unat_eq_iff unat_mod)
  moreover have "unat d mod 2 ^ Suc i = unat d mod 2 + 2 * (unat d div 2 mod 2 ^ i)"
    by (simp add: mod_mult2_eq)
  moreover have "unat (drop_bit 1 d) = unat d div 2" by (simp add: drop_bit_eq_div unat_div)
  ultimately show ?thesis
    by (simp only: unsigned_take_bit_eq) (simp add: take_bit_eq_mod odd_iff_mod_2_eq_one)
qed

lemma exp_word_correct:
  "exp_word i d (uint (x :: Hash)) (uint z) =
     (uint (x ^ 2 ^ i), uint (z * x ^ unat (take_bit i d)))"
proof (induction i arbitrary: d x z)
  case 0
  then show ?case by simp
next
  case (Suc i)
  define z' where "z' = (if d AND 1 = 1 then z * x else z)"
  have "exp_word (Suc i) d (uint x) (uint z) = exp_word i (drop_bit 1 d) (uint (x * x)) (uint z')"
    by (simp add: Let_def z'_def toU256_eq)
  also have "\<dots> = (uint ((x * x) ^ 2 ^ i), uint (z' * (x * x) ^ unat (take_bit i (drop_bit 1 d))))"
    by (rule Suc.IH)
  also have "(x * x) ^ 2 ^ i = x ^ 2 ^ Suc i" by (simp add: power_mult power2_eq_square)
  also have "z' * (x * x) ^ unat (take_bit i (drop_bit 1 d)) = z * x ^ unat (take_bit (Suc i) d)"
    by (simp only: unat_take_bit_Suc power_add power_mult power2_eq_square z'_def) (simp add: ac_simps)
  finally show ?case .
qed

fun words_nat :: "uint64 list \<Rightarrow> nat" where
  "words_nat [] = 0"
| "words_nat (d # ds) = unat d + 2 ^ 64 * words_nat ds"

lemma words_nat_Bits: "words_nat (nat_Bits n) = n"
proof (induction n rule: nat_Bits.induct)
  case (1 n)
  show ?case
  proof (cases "n = 0")
    case True
    then show ?thesis by (simp add: nat_Bits.simps)
  next
    case False
    have "unat (word_of_nat (n mod 2 ^ 64) :: uint64) = n mod 2 ^ 64" by (simp add: unat_of_nat)
    moreover have "words_nat (nat_Bits n) =
        unat (word_of_nat (n mod 2 ^ 64) :: uint64) + 2 ^ 64 * words_nat (nat_Bits (n div 2 ^ 64))"
      using False by (subst nat_Bits.simps) simp
    ultimately show ?thesis using "1.IH" [OF False] by (simp only: mod_mult_div_eq add.commute)
  qed
qed

lemma exp_loop_correct: "exp_loop ds (uint (x :: Hash)) (uint z) = uint (z * x ^ words_nat ds)"
proof (induction ds arbitrary: x z)
  case Nil
  then show ?case by simp
next
  case (Cons d ds)
  have "take_bit 64 d = d" by (simp add: take_bit_word_eq_self)
  then have "exp_loop (d # ds) (uint x) (uint z) = exp_loop ds (uint (x ^ 2 ^ 64)) (uint (z * x ^ unat d))"
    by (simp only: exp_loop.simps exp_word_correct Let_def prod.case)
  also have "\<dots> = uint (z * x ^ unat d * (x ^ 2 ^ 64) ^ words_nat ds)" by (rule Cons.IH)
  also have "z * x ^ unat d * (x ^ 2 ^ 64) ^ words_nat ds = z * x ^ words_nat (d # ds)"
    by (simp only: words_nat.simps power_add power_mult mult.assoc)
  finally show ?case .
qed

lemma exp_loop_word: "exp_loop (Bits (uint b)) (uint a) 1 = uint (a ^ unat (b :: Hash))" for a :: Hash
  using exp_loop_correct [of "Bits (uint b)" a 1] by (simp add: Bits_def words_nat_Bits)

text \<open>The dynamic cost of \<^verbatim>\<open>EXP\<close> is at most 50 per byte of the exponent.\<close>

definition exp_cost :: "ForksInTime \<Rightarrow> int \<Rightarrow> uint64" where
  "exp_cost cfg y = word_of_nat ((BitLen y + 7) div 8) * (if EIP158 cfg then 50 else 10)"

lemma unat_exp_cost_le: "unat (exp_cost cfg (uint (b :: Hash))) \<le> 1600"
proof -
  have "BitLen (uint b) \<le> 256" by (simp add: BitLen_le_iff del: power_numeral)
  then have n: "(BitLen (uint b) + 7) div 8 \<le> 32" by simp
  then have "unat (word_of_nat ((BitLen (uint b) + 7) div 8) :: uint64) = (BitLen (uint b) + 7) div 8"
    by (simp add: unat_of_nat)
  with n show ?thesis by (auto simp: exp_cost_def unat_word_ariths)
qed

lemma opExp_word:
  assumes "s_stack c = words (a # b # st)" and "1600 \<le> s_gas c"
  shows "opExp c = Some (c\<lparr>s_stack := words (a ^ unat b # st),
     s_gas := s_gas c - exp_cost (s_config c) (uint b),
     s_currentConsumedGas := s_currentConsumedGas c + exp_cost (s_config c) (uint b)\<rparr>)"
proof -
  have "unat (exp_cost (s_config c) (uint b)) \<le> unat (s_gas c)"
    using unat_exp_cost_le [of "s_config c" b] assms(2) by (simp add: word_le_nat_alt)
  then have "\<not> s_gas c < exp_cost (s_config c) (uint b)" by (simp add: word_less_nat_alt)
  then show ?thesis using assms(1)
    by (simp add: opExp_def evm_defs tryGas_def consumeGas_def exp_loop_word Let_def
        flip: exp_cost_def)
qed

subsection \<open>One step of the machine on the arithmetic instructions\<close>

definition alu2_ok :: "('h, 'z) Host_scheme \<Rightarrow> crypto_lib \<Rightarrow> byte \<times> (Hash \<Rightarrow> Hash \<Rightarrow> Hash) \<Rightarrow> bool" where
  "alu2_ok H L p \<longleftrightarrow> (\<exists>i k g. map_of (dispatchTable H L) (fst p) = Some (mk_handler (of_option \<circ> i) k g) \<and>
     k \<le> 2 \<and> 0 < g \<and> g \<le> 10 \<and>
     (\<forall>c a b st. s_stack c = words (a # b # st) \<longrightarrow> Constantinople (s_config c) \<longrightarrow> 1600 \<le> s_gas c \<longrightarrow>
        (\<exists>d \<le> 1600. i c = Some (c\<lparr>s_stack := words (snd p a b # st), s_gas := s_gas c - d,
            s_currentConsumedGas := s_currentConsumedGas c + d\<rparr>))))"

lemma alu2_okI:
  assumes "map_of (dispatchTable H L) op = Some (mk_handler (of_option \<circ> i) k g)" "k \<le> 2" "0 < g" "g \<le> 10"
    and "\<And>c a b st. s_stack c = words (a # b # st) \<Longrightarrow> Constantinople (s_config c) \<Longrightarrow>
      i c = Some (c\<lparr>s_stack := words (f a b # st)\<rparr>)"
  shows "alu2_ok H L (op, f)"
  unfolding alu2_ok_def using assms
  by (intro exI [of _ i] exI [of _ k] exI [of _ g] conjI allI impI exI [of _ 0]) simp_all

lemma alu2_ok_exp: "alu2_ok H L (OP_EXP, \<lambda>a b. a ^ unat b)"
  unfolding alu2_ok_def
proof (intro exI conjI allI impI)
  fix c :: "'c state" and a b :: Hash and st
  assume "s_stack c = words (a # b # st)" "1600 \<le> s_gas c"
  from opExp_word [OF this]
  show "opExp c = Some (c\<lparr>s_stack := words (snd (OP_EXP, \<lambda>a b. a ^ unat b) a b # st),
     s_gas := s_gas c - exp_cost (s_config c) (uint b),
     s_currentConsumedGas := s_currentConsumedGas c + exp_cost (s_config c) (uint b)\<rparr>)" by simp
  show "exp_cost (s_config c) (uint b) \<le> 1600"
    using unat_exp_cost_le [of "s_config c" b] by (simp add: word_le_nat_alt)
qed (simp add: dispatch_lookup, simp_all)

lemma alu2_all_ok: "p \<in> set alu2 \<Longrightarrow> alu2_ok H L p"
  unfolding alu2_def list.set insert_iff empty_iff
  by (elim disjE FalseE; hypsubst;
      (rule alu2_ok_exp | (rule alu2_okI, simp add: dispatch_lookup, simp, simp, simp,
        (rule word_refines; assumption))))

text \<open>
  C19. Every two-operand arithmetic, comparison, bitwise and shift instruction of the interpreter,
  executed by the run loop on a stack of 256-bit words, replaces its operands by the value the
  word operation of \<open>alu2\<close> computes, moves to the next instruction and charges its gas; nothing
  else of the machine changes. \<^verbatim>\<open>BYTE\<close> is the one such instruction that is not in \<open>alu2\<close>, as it does not implement
  its word operation (\<open>opByte_wraps\<close>). The big-integer code of \<^verbatim>\<open>instructions.go\<close> refines modular word
  arithmetic.
\<close>

theorem alu2_refines:
  assumes op: "(op, f) \<in> set alu2" "CurrentOpCode c = Some (op, True)"
    and st: "s_stack c = words (a # b # st)" "length st < stackSize"
    and "Constantinople (s_config c)" and gas: "1610 \<le> s_gas c"
  shows "\<exists>g. 0 < g \<and> g \<le> 1610 \<and>
    run_step H L c = Val (c\<lparr>s_ip := s_ip c + 1, s_stack := words (f a b # st),
      s_gas := s_gas c - g, s_currentConsumedGas := s_currentConsumedGas c + g\<rparr>)"
proof -
  obtain i k g where tab: "map_of (dispatchTable H L) op = Some (mk_handler (of_option \<circ> i) k g)"
    and k: "k \<le> 2" and g: "0 < g" "g \<le> 10"
    and i: "\<And>c a b st. s_stack c = words (a # b # st) \<Longrightarrow> Constantinople (s_config c) \<Longrightarrow>
      1600 \<le> s_gas c \<Longrightarrow> (\<exists>d \<le> 1600. i c = Some (c\<lparr>s_stack := words (f a b # st),
        s_gas := s_gas c - d, s_currentConsumedGas := s_currentConsumedGas c + d\<rparr>))"
    using alu2_all_ok [OF op(1), of H L] unfolding alu2_ok_def fst_conv snd_conv by blast
  let ?c = "c\<lparr>s_gas := s_gas c - g, s_currentConsumedGas := s_currentConsumedGas c + g\<rparr>"
  have le: "g \<le> s_gas c" using g gas by (auto simp: word_le_nat_alt)
  have "1600 \<le> s_gas ?c" using g gas le by (simp add: word_le_nat_alt unat_sub)
  then obtain d where d: "d \<le> 1600" and run: "i ?c = Some (?c\<lparr>s_stack := words (f a b # st),
        s_gas := s_gas ?c - d, s_currentConsumedGas := s_currentConsumedGas ?c + d\<rparr>)"
    using i [of ?c a b st] assms by auto
  have sum: "unat (g + d) = unat g + unat d"
    using g d by (simp add: unat_word_ariths word_le_nat_alt)
  have "run_step H L c = Val (c\<lparr>s_ip := s_ip c + 1, s_stack := words (f a b # st),
      s_gas := s_gas c - (g + d), s_currentConsumedGas := s_currentConsumedGas c + (g + d)\<rparr>)"
    using run_step_instr [OF op(2) tab _ le, unfolded o_def, OF _ arg_cong [of _ _ of_option, OF run, unfolded of_option.simps]]
      st k by (simp add: algebra_simps)
  moreover have "0 < g + d" "g + d \<le> 1610"
    using g d sum by (simp_all add: word_less_nat_alt word_le_nat_alt)
  ultimately show ?thesis by blast
qed

theorem alu2_refines_witness:
  "\<exists>g. 0 < g \<and> g \<le> 1610 \<and>
    run_step empty_host plain_crypto (plain_state [OP_EXP] (words [3, 5, 9]) 2000) =
      Val ((plain_state [OP_EXP] (words [3, 5, 9]) 2000)\<lparr>s_ip := 1, s_stack := words [243, 9],
        s_gas := 2000 - g,
        s_currentConsumedGas := s_currentConsumedGas (plain_state [OP_EXP] (words [3, 5, 9]) 2000) + g\<rparr>)"
  using alu2_refines [of OP_EXP "\<lambda>a b. a ^ unat b" "plain_state [OP_EXP] (words [3, 5, 9]) 2000" 3 5 "[9]"
      empty_host plain_crypto]
  by (simp add: alu2_def CurrentOpCode_def stackSize_def)

subsection \<open>The byte instruction\<close>

text \<open>
  \<^verbatim>\<open>BYTE\<close> takes the index from the low 64 bits of its operand, as a signed number. It is the
  word operation for indices below \<open>2 ^ 63\<close>.
\<close>

lemma Int64_uint_small: "unat (n :: Hash) < 2 ^ 63 \<Longrightarrow> Int64 (uint n) = int (unat n)"
proof -
  assume n: "unat n < 2 ^ 63"
  then have u: "uint (Uint64 (uint n)) = int (unat n)"
    using unat_Uint64_small [of n] by (simp only: uint_nat) simp
  have "int (unat n) < int (2 ^ 63)" using n by (simp only: of_nat_less_iff)
  then have "sint (Uint64 (uint n)) = int (unat n)"
    unfolding sint_uint u by (intro signed_take_bit_int_eq_self order_trans [OF _ of_nat_0_le_iff]) simp_all
  then show ?thesis by (simp add: Int64_def)
qed

lemma opByte_word:
  assumes st: "s_stack c = words (n # x # st)" and n: "unat n < 2 ^ 63"
  shows "opByte c = Some (c\<lparr>s_stack := words (byte_word n x # st)\<rparr>)"
proof (cases "unat n < 32")
  case True
  have small: "\<not> 31 < Int64 (uint n)" using True by (simp only: Int64_uint_small [OF n])
  from True have "(31 - word_of_nat (unat n)) * 8 = (word_of_nat (8 * (31 - unat n)) :: uint64)"
    by (simp add: of_nat_diff)
  then have "unat ((31 - word_of_int (Int64 (uint n))) * 8 :: uint64) = 8 * (31 - unat n)"
    using True by (simp only: Int64_uint_small [OF n] of_int_of_nat_eq unat_of_nat) simp
  moreover have "uint (drop_bit k x AND 255) = drop_bit k (uint x) AND 255" for k
    by (simp add: unsigned_and_eq unsigned_drop_bit_eq)
  ultimately show ?thesis using True st small
    by (simp add: opByte_def evm_defs Let_def byte_word_def word_less_nat_alt)
next
  case False
  then have "31 < Int64 (uint n)" by (simp only: Int64_uint_small [OF n])
  with False show ?thesis using st
    by (simp add: opByte_def evm_defs Let_def byte_word_def word_less_nat_alt)
qed

text \<open>
  Above \<open>2 ^ 63\<close> it is not: the operand \<open>2 ^ 64\<close> selects the most significant byte, where the
  word operation gives zero.
\<close>

lemma opByte_wraps:
  "opByte (plain_state [OP_BYTE] [2 ^ 64, 255 * 2 ^ 248] g) =
     Some ((plain_state [OP_BYTE] [2 ^ 64, 255 * 2 ^ 248] g)\<lparr>s_stack := [255]\<rparr>)"
  and byte_word_large: "byte_word (2 ^ 64) (255 * 2 ^ 248) = 0"
  by (simp_all add: opByte_def evm_defs Let_def Int64_def Uint64_def byte_word_def)

text \<open>
  \<^verbatim>\<open>SIGNEXTEND\<close> is registered with one stack operand, so on a stack of one element it does not
  report an underflow: it drops the element and execution continues.
\<close>

lemma signextend_no_underflow:
  "run_step empty_host plain_crypto (plain_state [OP_SIGNEXTEND] [1] 100) =
     Val ((plain_state [OP_SIGNEXTEND] [1] 100)\<lparr>s_ip := 1, s_stack := [], s_gas := 95,
       s_currentConsumedGas := s_currentConsumedGas (plain_state [OP_SIGNEXTEND] [1] 100) + 5\<rparr>)"
  by (simp add: run_step_def CurrentOpCode_def dispatch_lookup mk_handler_def consumeGas_def Let_def
      opSignExtension_def evm_defs stackSize_def)

text \<open>
  Two instructions slice the memory at an offset that was not allocated because the length is zero: the runtime
  panics when the offset is behind the memory.
\<close>

lemma returndatacopy_panics: "opReturnDataCopy (plain_state [OP_RETURNDATACOPY] [1, 0, 0] 100) = None"
  by (simp add: opReturnDataCopy_def evm_defs Let_def Uint64_def IsUint64_def BitLen_def nat_BitLen.simps
      tryMemory_def allocateMemory_def tryGas_def consumeGas_def slice_def plain_state_def setup_state_def new_state_def)

lemma call_panics:
  "call_done plain_crypto 1 0 \<lparr>r_ReturnValue = [7], r_GasLeft = 0, r_GasUsed = 0, r_Err = None\<rparr> (plain_state [OP_CALL] [] 100)
     = None"
  by (simp add: call_done_def evm_defs Let_def Succeeded_def plain_crypto_def)

end
