(* ===== verification/Types.thy ===== *)
theory Types
  imports Runtime
begin

section \<open>Transactions, logs, receipts and the log filter (\<^verbatim>\<open>types/transaction.go\<close>, \<^verbatim>\<open>types/receipt.go\<close>)\<close>

text \<open>
  The data a block carries, and the bloom filter of its logs: \<open>CreateBloom\<close> builds it and
  \<open>IsLogInBloom\<close> queries it. A filter must never deny a log that was added; the query of the
  sources tests the wrong bit, and the last theorems of this theory show what it really decides.
\<close>

subsection \<open>Transactions\<close>

text \<open>\<^verbatim>\<open>V\<close>, \<^verbatim>\<open>R\<close>, \<^verbatim>\<open>S\<close> are pointers and may be nil; so is \<^verbatim>\<open>To\<close> when the transaction creates a contract.\<close>

record Transaction =
  t_Nonce :: uint64
  t_GasPrice :: int
  t_Gas :: uint64
  t_To :: "Address option"
  t_Value :: int
  t_Input :: bytes
  t_V :: "int option"
  t_R :: "int option"
  t_S :: "int option"
  t_Hash :: Hash
  t_From :: Address

definition IsContractCreation :: "Transaction \<Rightarrow> bool" where
  "IsContractCreation t \<longleftrightarrow> t_To t = None"

text \<open>\<^verbatim>\<open>SetBits(t.R.Bits())\<close> drops the sign.\<close>

definition Transaction_Copy :: "Transaction \<Rightarrow> Transaction" where
  "Transaction_Copy t = t\<lparr>t_R := map_option abs (t_R t), t_S := map_option abs (t_S t)\<rparr>"

definition Cost :: "Transaction \<Rightarrow> int" where
  "Cost t = t_GasPrice t * uint (t_Gas t) + t_Value t"

definition ExceedsBlockGasLimit :: "Transaction \<Rightarrow> uint64 \<Rightarrow> bool" where
  "ExceedsBlockGasLimit t blockGasLimit \<longleftrightarrow> t_Gas t > blockGasLimit"

definition IsUnderpriced :: "Transaction \<Rightarrow> uint64 \<Rightarrow> bool" where
  "IsUnderpriced t priceLimit \<longleftrightarrow> t_GasPrice t < uint priceLimit"

subsection \<open>Logs and receipts\<close>

record Log =
  l_Address :: Address
  l_Topics :: "Hash list"
  l_Data :: bytes

type_synonym ReceiptStatus = uint64

definition ReceiptFailed :: ReceiptStatus where
  "ReceiptFailed = 0"

definition ReceiptSuccess :: ReceiptStatus where
  "ReceiptSuccess = 1"

type_synonym Bloom = bytes

definition BloomByteLength :: nat where
  "BloomByteLength = 256"

record Receipt =
  rc_Root :: Hash
  rc_CumulativeGasUsed :: uint64
  rc_LogsBloom :: Bloom
  rc_Logs :: "Log list"
  rc_Status :: "ReceiptStatus option"
  rc_GasUsed :: uint64
  rc_ContractAddress :: "Address option"
  rc_TxHash :: Hash

definition SetStatus :: "Receipt \<Rightarrow> ReceiptStatus \<Rightarrow> Receipt" where
  "SetStatus r s = r\<lparr>rc_Status := Some s\<rparr>"

definition SetContractAddress :: "Receipt \<Rightarrow> Address \<Rightarrow> Receipt" where
  "SetContractAddress r a = r\<lparr>rc_ContractAddress := Some a\<rparr>"

subsection \<open>The bloom filter\<close>

text \<open>The three bit positions of a hash: \<^verbatim>\<open>(uint(buf[i+1]) + (uint(buf[i]) << 8)) & 2047\<close>.\<close>

definition bloom_bit :: "bytes \<Rightarrow> nat \<Rightarrow> uint64" where
  "bloom_bit buf i = (ucast (buf ! (i + 1)) + push_bit 8 (ucast (buf ! i))) AND 2047"

definition byteLocation :: "uint64 \<Rightarrow> nat" where
  "byteLocation b = unat (256 - 1 - b div 8)"

definition bloom_set :: "Bloom \<Rightarrow> uint64 \<Rightarrow> Bloom" where
  "bloom_set b bt = b[byteLocation bt := b ! byteLocation bt OR push_bit (unat (bt mod 8)) 1]"

definition setEncode :: "(bytes \<Rightarrow> bytes) \<Rightarrow> Bloom \<Rightarrow> bytes \<Rightarrow> Bloom" where
  "setEncode keccak b h =
     (let buf = keccak h in foldl (\<lambda>b i. bloom_set b (bloom_bit buf i)) b [0, 2, 4])"

definition CreateBloom :: "(bytes \<Rightarrow> bytes) \<Rightarrow> Receipt list \<Rightarrow> Bloom" where
  "CreateBloom keccak receipts =
     foldl (\<lambda>b receipt. foldl (\<lambda>b log.
         foldl (\<lambda>b topic. setEncode keccak b (Hash_Bytes topic))
           (setEncode keccak b (Address_Bytes (l_Address log))) (l_Topics log))
       b (rc_Logs receipt)) (replicate BloomByteLength 0) receipts"

text \<open>
  \<^verbatim>\<open>referenceByte & (1 << (bitLocation - 1))\<close>: in unsigned arithmetic the shift by \<open>0 - 1\<close> is
  beyond the width of the byte and gives 0.
\<close>

definition bloom_test :: "Bloom \<Rightarrow> uint64 \<Rightarrow> bool" where
  "bloom_test b bt \<longleftrightarrow> b ! byteLocation bt AND push_bit (unat (bt mod 8 - 1)) 1 \<noteq> 0"

definition isByteArrPresent :: "(bytes \<Rightarrow> bytes) \<Rightarrow> Bloom \<Rightarrow> bytes \<Rightarrow> bool" where
  "isByteArrPresent keccak b data' =
     (let buf = keccak data' in \<forall>i \<in> set [0, 2, 4]. bloom_test b (bloom_bit buf i))"

definition IsLogInBloom :: "(bytes \<Rightarrow> bytes) \<Rightarrow> Bloom \<Rightarrow> Log \<Rightarrow> bool" where
  "IsLogInBloom keccak b log \<longleftrightarrow> isByteArrPresent keccak b (Address_Bytes (l_Address log)) \<and>
     (\<forall>topic \<in> set (l_Topics log). isByteArrPresent keccak b (Hash_Bytes topic))"

subsection \<open>What the filter holds\<close>

text \<open>A position is in the filter when its bit is set; an entry when its three positions are.\<close>

definition bloom_has :: "Bloom \<Rightarrow> uint64 \<Rightarrow> bool" where
  "bloom_has b bt \<longleftrightarrow> bit (b ! byteLocation bt) (unat (bt mod 8))"

definition bloom_holds :: "(bytes \<Rightarrow> bytes) \<Rightarrow> Bloom \<Rightarrow> bytes \<Rightarrow> bool" where
  "bloom_holds keccak b h \<longleftrightarrow> (\<forall>i \<in> {0, 2, 4}. bloom_has b (bloom_bit (keccak h) i))"

definition bloom_holds_log :: "(bytes \<Rightarrow> bytes) \<Rightarrow> Bloom \<Rightarrow> Log \<Rightarrow> bool" where
  "bloom_holds_log keccak b log \<longleftrightarrow> bloom_holds keccak b (Address_Bytes (l_Address log)) \<and>
     (\<forall>topic \<in> set (l_Topics log). bloom_holds keccak b (Hash_Bytes topic))"

lemma bloom_bit_le: "unat (bloom_bit buf i) \<le> 2047"
proof -
  have "x AND 2047 \<le> (2047 :: uint64)" for x by (rule word_and_le1)
  then show ?thesis by (simp add: bloom_bit_def word_le_nat_alt)
qed

lemma byteLocation_less: "unat bt \<le> 2047 \<Longrightarrow> byteLocation bt < 256"
proof -
  assume "unat bt \<le> 2047"
  then have "unat (bt div 8) \<le> 255" by (simp add: unat_div)
  then have "bt div 8 \<le> 255" by (simp add: word_le_nat_alt)
  then have "unat (255 - bt div 8) = 255 - unat (bt div 8)" by (simp add: unat_sub)
  then show ?thesis by (simp add: byteLocation_def)
qed

lemma unat_mod_8: "unat ((bt :: uint64) mod 8) < 8"
  by (simp add: unat_mod)

lemma length_bloom_set [simp]: "length (bloom_set b bt) = length b"
  by (simp add: bloom_set_def)

lemma bloom_set_mono: "bloom_has b y \<Longrightarrow> bloom_has (bloom_set b x) y"
  by (cases "byteLocation x < length b")
    (auto simp: bloom_has_def bloom_set_def nth_list_update list_update_beyond bit_or_iff)

lemma bloom_set_has: "byteLocation x < length b \<Longrightarrow> bloom_has (bloom_set b x) x"
  using unat_mod_8 [of x] by (simp add: bloom_has_def bloom_set_def bit_or_iff bit_exp_iff)

lemma length_setEncode [simp]: "length (setEncode keccak b h) = length b"
  by (simp add: setEncode_def Let_def)

lemma setEncode_mono: "bloom_holds keccak b h \<Longrightarrow> bloom_holds keccak (setEncode keccak b h') h"
  by (auto simp: bloom_holds_def setEncode_def Let_def intro!: bloom_set_mono)

lemma setEncode_holds: "length b = 256 \<Longrightarrow> bloom_holds keccak (setEncode keccak b h) h"
  by (auto simp: bloom_holds_def setEncode_def Let_def bloom_bit_le
      intro!: bloom_set_mono bloom_set_has byteLocation_less)

text \<open>A filter grows along the loops: what it holds, it keeps.\<close>

lemma foldl_setEncode_mono:
  "bloom_holds keccak b h \<Longrightarrow> bloom_holds keccak (foldl (\<lambda>b t. setEncode keccak b (f t)) b ts) h"
  by (induction ts arbitrary: b) (auto intro: setEncode_mono)

lemma length_foldl_setEncode [simp]: "length (foldl (\<lambda>b t. setEncode keccak b (f t)) b ts) = length b"
  by (induction ts arbitrary: b) auto

lemma foldl_setEncode_holds:
  "length b = 256 \<Longrightarrow> t \<in> set ts \<Longrightarrow> bloom_holds keccak (foldl (\<lambda>b t. setEncode keccak b (f t)) b ts) (f t)"
  by (induction ts arbitrary: b) (auto intro: foldl_setEncode_mono setEncode_holds)

definition add_log :: "(bytes \<Rightarrow> bytes) \<Rightarrow> Bloom \<Rightarrow> Log \<Rightarrow> Bloom" where
  "add_log keccak b log = foldl (\<lambda>b topic. setEncode keccak b (Hash_Bytes topic))
     (setEncode keccak b (Address_Bytes (l_Address log))) (l_Topics log)"

lemma length_add_log [simp]: "length (add_log keccak b log) = length b"
  by (simp add: add_log_def)

lemma add_log_mono: "bloom_holds_log keccak b x \<Longrightarrow> bloom_holds_log keccak (add_log keccak b log) x"
  by (auto simp: bloom_holds_log_def add_log_def intro!: foldl_setEncode_mono setEncode_mono)

lemma add_log_holds: "length b = 256 \<Longrightarrow> bloom_holds_log keccak (add_log keccak b log) log"
  by (auto simp: bloom_holds_log_def add_log_def intro: foldl_setEncode_mono setEncode_holds foldl_setEncode_holds)

lemma CreateBloom_add_log:
  "CreateBloom keccak receipts = foldl (add_log keccak) (replicate 256 0) (concat (map rc_Logs receipts))"
proof -
  have "foldl (\<lambda>b receipt. foldl (add_log keccak) b (rc_Logs receipt)) b receipts =
      foldl (add_log keccak) b (concat (map rc_Logs receipts))" for b
    by (induction receipts arbitrary: b) auto
  then show ?thesis by (simp add: CreateBloom_def BloomByteLength_def add_log_def [abs_def])
qed

lemma foldl_add_log_mono: "bloom_holds_log keccak b x \<Longrightarrow> bloom_holds_log keccak (foldl (add_log keccak) b ls) x"
  by (induction ls arbitrary: b) (auto intro: add_log_mono)

lemma foldl_add_log_holds:
  "length b = 256 \<Longrightarrow> x \<in> set ls \<Longrightarrow> bloom_holds_log keccak (foldl (add_log keccak) b ls) x"
  by (induction ls arbitrary: b) (auto intro: foldl_add_log_mono add_log_holds)

text \<open>
  C30. The log filter has no false negatives in what it stores: for every hash function, the bloom
  filter that \<^verbatim>\<open>CreateBloom\<close> builds from receipts has the three bits of the address and of every
  topic set, for every log of every receipt.
\<close>

theorem CreateBloom_complete:
  assumes "r \<in> set receipts" and "log \<in> set (rc_Logs r)"
  shows "bloom_holds_log keccak (CreateBloom keccak receipts) log"
  unfolding CreateBloom_add_log using assms by (intro foldl_add_log_holds) auto

theorem CreateBloom_complete_witness:
  "bloom_holds_log (\<lambda>bs. bs)
     (CreateBloom (\<lambda>bs. bs) [\<lparr>rc_Root = 0, rc_CumulativeGasUsed = 0, rc_LogsBloom = [],
        rc_Logs = [\<lparr>l_Address = 7, l_Topics = [5], l_Data = []\<rparr>], rc_Status = None, rc_GasUsed = 0,
        rc_ContractAddress = None, rc_TxHash = 0\<rparr>]) \<lparr>l_Address = 7, l_Topics = [5], l_Data = []\<rparr>"
  by (rule CreateBloom_complete [OF list.set_intros(1)]) simp

text \<open>
  C39. The query of the log filter denies logs that are there. Whatever the filter holds, a log
  whose address hashes to a bit position that is a multiple of 8 is reported absent: the bit mask
  of \<^verbatim>\<open>isByteArrPresent\<close> is shifted by one too few, and for bit 0 it is empty.
\<close>

theorem IsLogInBloom_misses:
  assumes "i \<in> {0, 2, 4}" and "bloom_bit (keccak (Address_Bytes (l_Address log))) i mod 8 = 0"
  shows "\<not> IsLogInBloom keccak b log"
proof -
  have "\<not> bloom_test b bt" if "bt mod 8 = 0" for bt
  proof -
    have "unat (8 :: uint64) \<le> unat (- 1 :: uint64)" unfolding word_le_nat_alt [symmetric] by simp
    then have "push_bit (unat (- 1 :: uint64)) (1 :: byte) = 0"
      unfolding push_bit_eq_mult mult_1 by (intro exp_eq_zero_iff [THEN iffD2]) simp
    with that show ?thesis by (simp only: bloom_test_def diff_0) simp
  qed
  from this [OF assms(2)] assms(1) have "\<not> isByteArrPresent keccak b (Address_Bytes (l_Address log))"
    by (auto simp: isByteArrPresent_def Let_def)
  then show ?thesis by (simp add: IsLogInBloom_def)
qed

theorem IsLogInBloom_misses_witness:
  "\<not> IsLogInBloom (\<lambda>bs. replicate 32 0) (CreateBloom (\<lambda>bs. replicate 32 0) [\<lparr>rc_Root = 0, rc_CumulativeGasUsed = 0, rc_LogsBloom = [],
        rc_Logs = [\<lparr>l_Address = 7, l_Topics = [], l_Data = []\<rparr>], rc_Status = None, rc_GasUsed = 0,
        rc_ContractAddress = None, rc_TxHash = 0\<rparr>]) \<lparr>l_Address = 7, l_Topics = [], l_Data = []\<rparr>"
  by (rule IsLogInBloom_misses [of 0]) (simp_all add: bloom_bit_def)

end
