(* ===== verification/Txn.thy ===== *)
theory Txn
  imports Types
begin

section \<open>The world state during a block (\<^verbatim>\<open>state/txn.go\<close>, \<^verbatim>\<open>state/state.go\<close>)\<close>

text \<open>
  A \<open>Txn\<close> keeps the accounts touched since the start of the block in a radix tree, over a
  read-only snapshot of the previous block, together with the trees saved by \<open>Snapshot\<close>, and the
  logs and the gas refund of the transaction under two reserved keys.

  The radix tree (\<^verbatim>\<open>hashicorp/go-immutable-radix\<close>) and the code cache
  (\<^verbatim>\<open>hashicorp/golang-lru\<close>) are parameters: records of their operations, and for the tree the
  laws \<open>radix_laws\<close> of its documentation. A tree is a value: the sources only ever read trees
  they have committed, so a transaction on a tree and the tree it commits to are one.
\<close>

subsection \<open>External data structures\<close>

record ('t, 'v) iradix =
  Tree_New :: 't
  Tree_Get :: "'t \<Rightarrow> bytes \<Rightarrow> 'v option"
  Tree_Insert :: "'t \<Rightarrow> bytes \<Rightarrow> 'v \<Rightarrow> 't"
  Tree_Delete :: "'t \<Rightarrow> bytes \<Rightarrow> 't"
  Tree_Walk :: "'t \<Rightarrow> (bytes \<times> 'v) list"

text \<open>A lookup gives what was inserted last; a walk visits every entry once.\<close>

definition radix_laws :: "('t, 'v) iradix \<Rightarrow> bool" where
  "radix_laws I \<longleftrightarrow>
     (\<forall>k. Tree_Get I (Tree_New I) k = None) \<and>
     (\<forall>t k v k'. Tree_Get I (Tree_Insert I t k v) k' = (if k' = k then Some v else Tree_Get I t k')) \<and>
     (\<forall>t k k'. Tree_Get I (Tree_Delete I t k) k' = (if k' = k then None else Tree_Get I t k')) \<and>
     (\<forall>t. distinct (map fst (Tree_Walk I t)) \<and> map_of (Tree_Walk I t) = Tree_Get I t)"

record 'c lru =
  Cache_New :: 'c
  Cache_Get :: "'c \<Rightarrow> Address \<Rightarrow> bytes option \<times> 'c"
  Cache_Add :: "'c \<Rightarrow> Address \<Rightarrow> bytes \<Rightarrow> 'c"

subsection \<open>Accounts\<close>

record Account =
  ac_Nonce :: uint64
  ac_Balance :: int
  ac_Root :: Hash
  ac_CodeHash :: bytes

text \<open>\<^verbatim>\<open>SetBytes(a.Balance.Bytes())\<close> drops the sign.\<close>

definition Account_Copy :: "Account \<Rightarrow> Account" where
  "Account_Copy a = a\<lparr>ac_Balance := SetBytes (Bytes (ac_Balance a))\<rparr>"

record 's StateObject =
  so_Account :: Account
  so_Code :: bytes
  so_Suicide :: bool
  so_Deleted :: bool
  so_DirtyCode :: bool
  so_Txn :: "'s option"

definition emptyStateHash :: Hash where
  "emptyStateHash = 0x56e81f171bcc55a6ff8345e692c0f86e5b48e01b996cadc001622fb5e363b421"

definition emptyCodeHash :: "crypto_lib \<Rightarrow> bytes" where
  "emptyCodeHash L = Keccak256 L []"

definition StateObject_Empty :: "crypto_lib \<Rightarrow> 's StateObject \<Rightarrow> bool" where
  "StateObject_Empty L s \<longleftrightarrow>
     ac_Nonce (so_Account s) = 0 \<and> ac_Balance (so_Account s) = 0 \<and> ac_CodeHash (so_Account s) = emptyCodeHash L"

definition StateObject_Copy :: "'s StateObject \<Rightarrow> 's StateObject" where
  "StateObject_Copy s = s\<lparr>so_Account := Account_Copy (so_Account s)\<rparr>"

text \<open>The serialisation of an object, for the trie.\<close>

record StorageObject =
  sto_Deleted :: bool
  sto_Key :: bytes
  sto_Val :: bytes

record Object =
  o_Address :: Address
  o_CodeHash :: Hash
  o_Balance :: int
  o_Root :: Hash
  o_Nonce :: uint64
  o_Deleted :: bool
  o_DirtyCode :: bool
  o_Code :: bytes
  o_Storage :: "StorageObject list"

subsection \<open>The transaction state\<close>

text \<open>
  The values of the tree have the dynamic type \<^verbatim>\<open>interface{}\<close>; a type assertion is the selector
  of a constructor, which says nothing about a value of another type.
\<close>

datatype 's entry = is_Obj: Obj (the_obj: "'s StateObject") | Logs_entry (the_logs: "Log list") | Refund_entry (the_refund: uint64)

text \<open>The interface \<^verbatim>\<open>readSnapshot\<close>. \<open>snap_GetAccount\<close> gives \<^const>\<open>None\<close> on an error and \<open>Some None\<close> for nil.\<close>

record readSnapshot =
  snap_GetStorage :: "Address \<Rightarrow> Hash \<Rightarrow> Hash \<Rightarrow> Hash"
  snap_GetAccount :: "Address \<Rightarrow> Account option option"
  snap_GetCode :: "Hash \<Rightarrow> bytes \<times> bool"

record ('s, 't, 'c) env =
  e_store :: "('s, bytes option) iradix"
  e_main :: "('t, 's entry) iradix"
  e_cache :: "'c lru"
  e_crypto :: crypto_lib

record ('t, 'c) Txn =
  tx_snapshot :: readSnapshot
  tx_snapshots :: "'t list"
  tx_txn :: 't
  tx_codeCache :: 'c

definition logIndex :: bytes where
  "logIndex = Hash_Bytes (BytesToHash [2])"

definition refundIndex :: bytes where
  "refundIndex = Hash_Bytes (BytesToHash [3])"

abbreviation tree_get :: "('s, 't, 'c, 'z) env_scheme \<Rightarrow> ('t, 'c) Txn \<Rightarrow> bytes \<Rightarrow> 's entry option" where
  "tree_get E t k \<equiv> Tree_Get (e_main E) (tx_txn t) k"

definition tree_insert :: "('s, 't, 'c, 'z) env_scheme \<Rightarrow> ('t, 'c) Txn \<Rightarrow> bytes \<Rightarrow> 's entry \<Rightarrow> ('t, 'c) Txn" where
  "tree_insert E t k v = t\<lparr>tx_txn := Tree_Insert (e_main E) (tx_txn t) k v\<rparr>"

definition tree_delete :: "('s, 't, 'c, 'z) env_scheme \<Rightarrow> ('t, 'c) Txn \<Rightarrow> bytes \<Rightarrow> ('t, 'c) Txn" where
  "tree_delete E t k = t\<lparr>tx_txn := Tree_Delete (e_main E) (tx_txn t) k\<rparr>"

definition newTxn :: "('s, 't, 'c, 'z) env_scheme \<Rightarrow> readSnapshot \<Rightarrow> ('t, 'c) Txn" where
  "newTxn E snapshot = \<lparr>tx_snapshot = snapshot, tx_snapshots = [], tx_txn = Tree_New (e_main E),
     tx_codeCache = Cache_New (e_cache E)\<rparr>"

definition Snapshot :: "('t, 'c) Txn \<Rightarrow> nat \<times> ('t, 'c) Txn" where
  "Snapshot t = (length (tx_snapshots t), t\<lparr>tx_snapshots := tx_snapshots t @ [tx_txn t]\<rparr>)"

definition RevertToSnapshot :: "('t, 'c) Txn \<Rightarrow> nat \<Rightarrow> ('t, 'c) Txn option" where
  "RevertToSnapshot t i =
     (if i < length (tx_snapshots t) then Some (t\<lparr>tx_txn := tx_snapshots t ! i\<rparr>) else None)"

definition getStateObject :: "('s, 't, 'c, 'z) env_scheme \<Rightarrow> ('t, 'c) Txn \<Rightarrow> Address \<Rightarrow> 's StateObject option" where
  "getStateObject E t addr =
     (case tree_get E t (Address_Bytes addr) of
        Some val \<Rightarrow>
          (let obj = the_obj val in if so_Deleted obj then None else Some (StateObject_Copy obj))
      | None \<Rightarrow>
          (case snap_GetAccount (tx_snapshot t) addr of
             None \<Rightarrow> None
           | Some None \<Rightarrow> None
           | Some (Some account) \<Rightarrow>
               Some \<lparr>so_Account = Account_Copy account, so_Code = [], so_Suicide = False,
                 so_Deleted = False, so_DirtyCode = False, so_Txn = None\<rparr>))"

definition GetAccount :: "('s, 't, 'c, 'z) env_scheme \<Rightarrow> ('t, 'c) Txn \<Rightarrow> Address \<Rightarrow> Account option" where
  "GetAccount E t addr = map_option so_Account (getStateObject E t addr)"

definition newStateObject :: "('s, 't, 'c, 'z) env_scheme \<Rightarrow> 's StateObject" where
  "newStateObject E = \<lparr>so_Account = \<lparr>ac_Nonce = 0, ac_Balance = 0, ac_Root = emptyStateHash,
       ac_CodeHash = emptyCodeHash (e_crypto E)\<rparr>,
     so_Code = [], so_Suicide = False, so_Deleted = False, so_DirtyCode = False, so_Txn = None\<rparr>"

text \<open>The callback of \<open>upsertAccount\<close> gets the object, or nil if there is none and none is created.\<close>

definition upsertAccount ::
    "('s, 't, 'c, 'z) env_scheme \<Rightarrow> ('t, 'c) Txn \<Rightarrow> Address \<Rightarrow> bool \<Rightarrow>
     ('s StateObject option \<Rightarrow> 's StateObject option) \<Rightarrow> ('t, 'c) Txn" where
  "upsertAccount E t addr create f =
     (let object = getStateObject E t addr;
          object = (if object = None \<and> create then Some (newStateObject E) else object)
      in case f object of
           None \<Rightarrow> t
         | Some obj \<Rightarrow> tree_insert E t (Address_Bytes addr) (Obj obj))"

definition on_balance :: "(int \<Rightarrow> int) \<Rightarrow> 's StateObject \<Rightarrow> 's StateObject" where
  "on_balance f obj = obj\<lparr>so_Account := (so_Account obj)\<lparr>ac_Balance := f (ac_Balance (so_Account obj))\<rparr>\<rparr>"

definition AddSealingReward :: "('s, 't, 'c, 'z) env_scheme \<Rightarrow> ('t, 'c) Txn \<Rightarrow> Address \<Rightarrow> int \<Rightarrow> ('t, 'c) Txn" where
  "AddSealingReward E t addr balance = upsertAccount E t addr True (map_option (\<lambda>object.
     if so_Suicide object then on_balance (\<lambda>_. SetBytes (Bytes balance)) (newStateObject E)
     else on_balance (\<lambda>b. b + balance) object))"

definition AddBalance :: "('s, 't, 'c, 'z) env_scheme \<Rightarrow> ('t, 'c) Txn \<Rightarrow> Address \<Rightarrow> int \<Rightarrow> ('t, 'c) Txn" where
  "AddBalance E t addr balance = upsertAccount E t addr True (map_option (on_balance (\<lambda>b. b + balance)))"

definition Txn_GetBalance :: "('s, 't, 'c, 'z) env_scheme \<Rightarrow> ('t, 'c) Txn \<Rightarrow> Address \<Rightarrow> int" where
  "Txn_GetBalance E t addr =
     (case getStateObject E t addr of None \<Rightarrow> 0 | Some object \<Rightarrow> ac_Balance (so_Account object))"

text \<open>\<^const>\<open>None\<close> is the error \<^verbatim>\<open>ErrNotEnoughFunds\<close>.\<close>

definition SubBalance :: "('s, 't, 'c, 'z) env_scheme \<Rightarrow> ('t, 'c) Txn \<Rightarrow> Address \<Rightarrow> int \<Rightarrow> ('t, 'c) Txn option" where
  "SubBalance E t addr amount =
     (if amount = 0 then Some t
      else if Txn_GetBalance E t addr < amount then None
      else Some (upsertAccount E t addr True (map_option (on_balance (\<lambda>b. b - amount)))))"

definition SetBalance :: "('s, 't, 'c, 'z) env_scheme \<Rightarrow> ('t, 'c) Txn \<Rightarrow> Address \<Rightarrow> int \<Rightarrow> ('t, 'c) Txn" where
  "SetBalance E t addr balance =
     upsertAccount E t addr True (map_option (on_balance (\<lambda>_. SetBytes (Bytes balance))))"


subsection \<open>Logs and refund\<close>

definition tree_logs :: "('s, 't, 'c, 'z) env_scheme \<Rightarrow> ('t, 'c) Txn \<Rightarrow> Log list" where
  "tree_logs E t = (case tree_get E t logIndex of None \<Rightarrow> [] | Some val \<Rightarrow> the_logs val)"

definition AddLog :: "('s, 't, 'c, 'z) env_scheme \<Rightarrow> ('t, 'c) Txn \<Rightarrow> Log \<Rightarrow> ('t, 'c) Txn" where
  "AddLog E t log = tree_insert E t logIndex (Logs_entry (tree_logs E t @ [log]))"

definition Txn_EmitLog ::
    "('s, 't, 'c, 'z) env_scheme \<Rightarrow> ('t, 'c) Txn \<Rightarrow> Address \<Rightarrow> Hash list \<Rightarrow> bytes \<Rightarrow> ('t, 'c) Txn" where
  "Txn_EmitLog E t addr topics bs =
     (let log = \<lparr>l_Address = addr, l_Topics = topics, l_Data = bs\<rparr>
      in tree_insert E t logIndex (Logs_entry (tree_logs E t @ [log])))"

text \<open>\<open>Logs\<close> takes the logs out of the tree.\<close>

definition Logs :: "('s, 't, 'c, 'z) env_scheme \<Rightarrow> ('t, 'c) Txn \<Rightarrow> Log list \<times> ('t, 'c) Txn" where
  "Logs E t =
     (case tree_get E t logIndex of
        None \<Rightarrow> ([], t)
      | Some val \<Rightarrow> (the_logs val, tree_delete E t logIndex))"

definition Txn_GetRefund :: "('s, 't, 'c, 'z) env_scheme \<Rightarrow> ('t, 'c) Txn \<Rightarrow> uint64" where
  "Txn_GetRefund E t = (case tree_get E t refundIndex of None \<Rightarrow> 0 | Some val \<Rightarrow> the_refund val)"

definition AddRefund :: "('s, 't, 'c, 'z) env_scheme \<Rightarrow> ('t, 'c) Txn \<Rightarrow> uint64 \<Rightarrow> ('t, 'c) Txn" where
  "AddRefund E t gas' = tree_insert E t refundIndex (Refund_entry (Txn_GetRefund E t + gas'))"

definition SubRefund :: "('s, 't, 'c, 'z) env_scheme \<Rightarrow> ('t, 'c) Txn \<Rightarrow> uint64 \<Rightarrow> ('t, 'c) Txn" where
  "SubRefund E t gas' = tree_insert E t refundIndex (Refund_entry (Txn_GetRefund E t - gas'))"

subsection \<open>Storage\<close>

definition SetState :: "('s, 't, 'c, 'z) env_scheme \<Rightarrow> ('t, 'c) Txn \<Rightarrow> Address \<Rightarrow> Hash \<Rightarrow> Hash \<Rightarrow> ('t, 'c) Txn" where
  "SetState E t addr key value' = upsertAccount E t addr True (map_option (\<lambda>object.
     let tree = (case so_Txn object of None \<Rightarrow> Tree_New (e_store E) | Some tree \<Rightarrow> tree);
         v = (if value' = 0 then None else Some (Hash_Bytes value'))
     in object\<lparr>so_Txn := Some (Tree_Insert (e_store E) tree (Hash_Bytes key) v)\<rparr>))"

definition GetState :: "('s, 't, 'c, 'z) env_scheme \<Rightarrow> ('t, 'c) Txn \<Rightarrow> Address \<Rightarrow> Hash \<Rightarrow> Hash" where
  "GetState E t addr key =
     (case getStateObject E t addr of
        None \<Rightarrow> 0
      | Some object \<Rightarrow>
          (case Option.bind (so_Txn object) (\<lambda>tree. Tree_Get (e_store E) tree (Hash_Bytes key)) of
             Some None \<Rightarrow> 0
           | Some (Some val) \<Rightarrow> BytesToHash val
           | None \<Rightarrow> snap_GetStorage (tx_snapshot t) addr (ac_Root (so_Account object)) key))"

definition GetCommittedState :: "('s, 't, 'c, 'z) env_scheme \<Rightarrow> ('t, 'c) Txn \<Rightarrow> Address \<Rightarrow> Hash \<Rightarrow> Hash" where
  "GetCommittedState E t addr key =
     (case getStateObject E t addr of
        None \<Rightarrow> 0
      | Some obj \<Rightarrow> snap_GetStorage (tx_snapshot t) addr (ac_Root (so_Account obj)) key)"

text \<open>The gas metering of SSTORE: the status and the refund, after the value is set.\<close>

definition storage_metering ::
    "('s, 't, 'c, 'z) env_scheme \<Rightarrow> ('t, 'c) Txn \<Rightarrow> Hash \<Rightarrow> Hash \<Rightarrow> Hash \<Rightarrow> ForksInTime \<Rightarrow>
     StorageStatus \<times> ('t, 'c) Txn" where
  "storage_metering E t original current value' config =
     (let legacyGasMetering = (\<not> Istanbul config \<and> (Petersburg config \<or> \<not> Constantinople config)) in
      if legacyGasMetering then
        (if current = 0 then (StorageAdded, t)
         else if value' = 0 then (StorageDeleted, AddRefund E t 15000)
         else (StorageModified, t))
      else if original = current then
        (if original = 0 then (StorageAdded, t)
         else if value' = 0 then (StorageDeleted, AddRefund E t 15000)
         else (StorageModified, t))
      else
        (let t = (if original \<noteq> 0 then
                    (if current = 0 then SubRefund E t 15000
                     else if value' = 0 then AddRefund E t 15000 else t)
                  else t);
             t = (if original = value' then
                    (if original = 0 then AddRefund E t (if Istanbul config then 19200 else 19800)
                     else AddRefund E t (if Istanbul config then 4200 else 4800))
                  else t)
         in (StorageModifiedAgain, t)))"

definition Txn_SetStorage ::
    "('s, 't, 'c, 'z) env_scheme \<Rightarrow> ('t, 'c) Txn \<Rightarrow> Address \<Rightarrow> Hash \<Rightarrow> Hash \<Rightarrow> ForksInTime \<Rightarrow>
     StorageStatus \<times> ('t, 'c) Txn" where
  "Txn_SetStorage E t addr key value' config =
     (let oldValue = GetState E t addr key in
      if oldValue = value' then (StorageUnchanged, t)
      else storage_metering E (SetState E t addr key value') (GetCommittedState E t addr key) oldValue value' config)"

subsection \<open>Nonce and code\<close>

definition on_nonce :: "(uint64 \<Rightarrow> uint64) \<Rightarrow> 's StateObject \<Rightarrow> 's StateObject" where
  "on_nonce f obj = obj\<lparr>so_Account := (so_Account obj)\<lparr>ac_Nonce := f (ac_Nonce (so_Account obj))\<rparr>\<rparr>"

definition IncrNonce :: "('s, 't, 'c, 'z) env_scheme \<Rightarrow> ('t, 'c) Txn \<Rightarrow> Address \<Rightarrow> ('t, 'c) Txn" where
  "IncrNonce E t addr = upsertAccount E t addr True (map_option (on_nonce (\<lambda>n. n + 1)))"

definition SetNonce :: "('s, 't, 'c, 'z) env_scheme \<Rightarrow> ('t, 'c) Txn \<Rightarrow> Address \<Rightarrow> uint64 \<Rightarrow> ('t, 'c) Txn" where
  "SetNonce E t addr nonce = upsertAccount E t addr True (map_option (on_nonce (\<lambda>_. nonce)))"

definition Txn_GetNonce :: "('s, 't, 'c, 'z) env_scheme \<Rightarrow> ('t, 'c) Txn \<Rightarrow> Address \<Rightarrow> uint64" where
  "Txn_GetNonce E t addr = (case getStateObject E t addr of None \<Rightarrow> 0 | Some object \<Rightarrow> ac_Nonce (so_Account object))"

definition SetCode :: "('s, 't, 'c, 'z) env_scheme \<Rightarrow> ('t, 'c) Txn \<Rightarrow> Address \<Rightarrow> bytes \<Rightarrow> ('t, 'c) Txn" where
  "SetCode E t addr code = upsertAccount E t addr True (map_option (\<lambda>object.
     object\<lparr>so_Account := (so_Account object)\<lparr>ac_CodeHash := Keccak256 (e_crypto E) code\<rparr>,
       so_DirtyCode := True, so_Code := code\<rparr>))"

text \<open>A lookup in the code cache counts as a use, so that reading code changes the cache.\<close>

definition Txn_GetCode :: "('s, 't, 'c, 'z) env_scheme \<Rightarrow> ('t, 'c) Txn \<Rightarrow> Address \<Rightarrow> bytes \<times> ('t, 'c) Txn" where
  "Txn_GetCode E t addr =
     (case getStateObject E t addr of
        None \<Rightarrow> ([], t)
      | Some object \<Rightarrow>
          if so_DirtyCode object then (so_Code object, t)
          else (let (v, cache) = Cache_Get (e_cache E) (tx_codeCache t) addr in
            case v of
              Some code \<Rightarrow> (code, t\<lparr>tx_codeCache := cache\<rparr>)
            | None \<Rightarrow>
                (let code = fst (snap_GetCode (tx_snapshot t) (BytesToHash (ac_CodeHash (so_Account object))))
                 in (code, t\<lparr>tx_codeCache := Cache_Add (e_cache E) cache addr code\<rparr>))))"

definition Txn_GetCodeSize :: "('s, 't, 'c, 'z) env_scheme \<Rightarrow> ('t, 'c) Txn \<Rightarrow> Address \<Rightarrow> nat \<times> ('t, 'c) Txn" where
  "Txn_GetCodeSize E t addr = (let (code, t) = Txn_GetCode E t addr in (length code, t))"

definition Txn_GetCodeHash :: "('s, 't, 'c, 'z) env_scheme \<Rightarrow> ('t, 'c) Txn \<Rightarrow> Address \<Rightarrow> Hash" where
  "Txn_GetCodeHash E t addr =
     (case getStateObject E t addr of None \<Rightarrow> 0 | Some object \<Rightarrow> BytesToHash (ac_CodeHash (so_Account object)))"

subsection \<open>Life of an account\<close>

definition Suicide :: "('s, 't, 'c, 'z) env_scheme \<Rightarrow> ('t, 'c) Txn \<Rightarrow> Address \<Rightarrow> bool \<times> ('t, 'c) Txn" where
  "Suicide E t addr =
     ((case getStateObject E t addr of None \<Rightarrow> False | Some object \<Rightarrow> \<not> so_Suicide object),
      upsertAccount E t addr False (map_option (\<lambda>object. on_balance (\<lambda>_. 0) (object\<lparr>so_Suicide := True\<rparr>))))"

definition HasSuicided :: "('s, 't, 'c, 'z) env_scheme \<Rightarrow> ('t, 'c) Txn \<Rightarrow> Address \<Rightarrow> bool" where
  "HasSuicided E t addr = (case getStateObject E t addr of None \<Rightarrow> False | Some object \<Rightarrow> so_Suicide object)"

definition TouchAccount :: "('s, 't, 'c, 'z) env_scheme \<Rightarrow> ('t, 'c) Txn \<Rightarrow> Address \<Rightarrow> ('t, 'c) Txn" where
  "TouchAccount E t addr = upsertAccount E t addr True (\<lambda>obj. obj)"

definition Exist :: "('s, 't, 'c, 'z) env_scheme \<Rightarrow> ('t, 'c) Txn \<Rightarrow> Address \<Rightarrow> bool" where
  "Exist E t addr \<longleftrightarrow> getStateObject E t addr \<noteq> None"

definition Txn_Empty :: "('s, 't, 'c, 'z) env_scheme \<Rightarrow> ('t, 'c) Txn \<Rightarrow> Address \<Rightarrow> bool" where
  "Txn_Empty E t addr =
     (case getStateObject E t addr of None \<Rightarrow> True | Some obj \<Rightarrow> StateObject_Empty (e_crypto E) obj)"

definition CreateAccount :: "('s, 't, 'c, 'z) env_scheme \<Rightarrow> ('t, 'c) Txn \<Rightarrow> Address \<Rightarrow> ('t, 'c) Txn" where
  "CreateAccount E t addr =
     (let obj = newStateObject E;
          obj = (case getStateObject E t addr of
                   None \<Rightarrow> obj
                 | Some prev \<Rightarrow> on_balance (\<lambda>_. SetBytes (Bytes (ac_Balance (so_Account prev)))) obj)
      in tree_insert E t (Address_Bytes addr) (Obj obj))"

subsection \<open>End of a transaction and of a block\<close>

definition to_remove :: "crypto_lib \<Rightarrow> bool \<Rightarrow> 's entry \<Rightarrow> bool" where
  "to_remove L deleteEmptyObjects v =
     (case v of Obj a \<Rightarrow> so_Suicide a \<or> StateObject_Empty L a \<and> deleteEmptyObjects | _ \<Rightarrow> False)"

text \<open>\<^const>\<open>None\<close> is the panic \<^verbatim>\<open>it should not happen\<close>.\<close>

definition mark_deleted :: "('s, 't, 'c, 'z) env_scheme \<Rightarrow> bytes \<Rightarrow> ('t, 'c) Txn \<Rightarrow> ('t, 'c) Txn option" where
  "mark_deleted E k t =
     (case tree_get E t k of
        Some (Obj obj) \<Rightarrow> Some (tree_insert E t k (Obj ((StateObject_Copy obj)\<lparr>so_Deleted := True\<rparr>)))
      | _ \<Rightarrow> None)"

primrec mark_all :: "('s, 't, 'c, 'z) env_scheme \<Rightarrow> bytes list \<Rightarrow> ('t, 'c) Txn \<Rightarrow> ('t, 'c) Txn option" where
  "mark_all E [] t = Some t"
| "mark_all E (k # ks) t = Option.bind (mark_deleted E k t) (mark_all E ks)"

definition CleanDeleteObjects :: "('s, 't, 'c, 'z) env_scheme \<Rightarrow> ('t, 'c) Txn \<Rightarrow> bool \<Rightarrow> ('t, 'c) Txn option" where
  "CleanDeleteObjects E t deleteEmptyObjects =
     (let remove = [k. (k, v) \<leftarrow> Tree_Walk (e_main E) (tx_txn t), to_remove (e_crypto E) deleteEmptyObjects v]
      in map_option (\<lambda>t. tree_delete E t refundIndex) (mark_all E remove t))"

definition storage_object :: "bytes \<times> bytes option \<Rightarrow> StorageObject" where
  "storage_object kv = (case kv of
     (k, None) \<Rightarrow> \<lparr>sto_Deleted = True, sto_Key = k, sto_Val = []\<rparr>
   | (k, Some v) \<Rightarrow> \<lparr>sto_Deleted = False, sto_Key = k, sto_Val = v\<rparr>)"

definition commit_object :: "('s, 't, 'c, 'z) env_scheme \<Rightarrow> bytes \<Rightarrow> 's StateObject \<Rightarrow> Object" where
  "commit_object E k a = \<lparr>
     o_Address = BytesToAddress k, o_CodeHash = BytesToHash (ac_CodeHash (so_Account a)),
     o_Balance = ac_Balance (so_Account a), o_Root = ac_Root (so_Account a), o_Nonce = ac_Nonce (so_Account a),
     o_Deleted = so_Deleted a, o_DirtyCode = so_DirtyCode a, o_Code = so_Code a,
     o_Storage = (if so_Deleted a then [] else case so_Txn a of
         None \<Rightarrow> [] | Some tree \<Rightarrow> map storage_object (Tree_Walk (e_store E) tree))\<rparr>"

definition Txn_Commit :: "('s, 't, 'c, 'z) env_scheme \<Rightarrow> ('t, 'c) Txn \<Rightarrow> bool \<Rightarrow> (Object list \<times> ('t, 'c) Txn) option" where
  "Txn_Commit E t deleteEmptyObjects =
     map_option (\<lambda>t. ([commit_object E k a. (k, Obj a) \<leftarrow> Tree_Walk (e_main E) (tx_txn t)], t))
       (CleanDeleteObjects E t deleteEmptyObjects)"

subsection \<open>What a reader sees\<close>

text \<open>
  A reader sees the objects \<open>getStateObject\<close> returns, the logs and the refund. The laws below say
  what each operation does to these; the rest of the development rests on them and not on the tree.
\<close>

definition laws :: "('s, 't, 'c, 'z) env_scheme \<Rightarrow> bool" where
  "laws E \<longleftrightarrow> radix_laws (e_store E) \<and> radix_laws (e_main E)"

lemma laws_simps:
  assumes "laws E"
  shows "Tree_Get (e_main E) (Tree_New (e_main E)) k = None"
    and "Tree_Get (e_main E) (Tree_Insert (e_main E) tr k v) k' = (if k' = k then Some v else Tree_Get (e_main E) tr k')"
    and "Tree_Get (e_main E) (Tree_Delete (e_main E) tr k) k' = (if k' = k then None else Tree_Get (e_main E) tr k')"
    and "Tree_Get (e_store E) (Tree_New (e_store E)) k = None"
    and "Tree_Get (e_store E) (Tree_Insert (e_store E) st k b) k' = (if k' = k then Some b else Tree_Get (e_store E) st k')"
    and "distinct (map fst (Tree_Walk (e_main E) tr))" and "map_of (Tree_Walk (e_main E) tr) = Tree_Get (e_main E) tr"
    and "distinct (map fst (Tree_Walk (e_store E) st))" and "map_of (Tree_Walk (e_store E) st) = Tree_Get (e_store E) st"
  using assms by (simp_all add: laws_def radix_laws_def)

lemma StateObject_Copy_idem [simp]: "StateObject_Copy (StateObject_Copy s) = StateObject_Copy s"
  by (simp add: StateObject_Copy_def Account_Copy_def SetBytes_Bytes)

lemma StateObject_Copy_id: "0 \<le> ac_Balance (so_Account s) \<Longrightarrow> StateObject_Copy s = s"
  by (simp add: StateObject_Copy_def Account_Copy_def SetBytes_Bytes)

lemma StateObject_Copy_simps [simp]:
  "so_Deleted (StateObject_Copy s) = so_Deleted s" "so_Suicide (StateObject_Copy s) = so_Suicide s"
  "so_Code (StateObject_Copy s) = so_Code s" "so_DirtyCode (StateObject_Copy s) = so_DirtyCode s"
  "so_Txn (StateObject_Copy s) = so_Txn s"
  "ac_Balance (so_Account (StateObject_Copy s)) = \<bar>ac_Balance (so_Account s)\<bar>"
  "ac_Nonce (so_Account (StateObject_Copy s)) = ac_Nonce (so_Account s)"
  "ac_Root (so_Account (StateObject_Copy s)) = ac_Root (so_Account s)"
  "ac_CodeHash (so_Account (StateObject_Copy s)) = ac_CodeHash (so_Account s)"
  by (simp_all add: StateObject_Copy_def Account_Copy_def SetBytes_Bytes)

lemma getStateObject_SomeD:
  assumes "getStateObject E t a = Some obj"
  shows "0 \<le> ac_Balance (so_Account obj)" and "\<not> so_Deleted obj" and "StateObject_Copy obj = obj"
proof -
  show nonneg: "0 \<le> ac_Balance (so_Account obj)" and "\<not> so_Deleted obj"
    using assms by (auto simp: getStateObject_def Let_def Account_Copy_def SetBytes_Bytes split: option.splits if_splits)
  show "StateObject_Copy obj = obj" using nonneg by (rule StateObject_Copy_id)
qed

lemma newStateObject_simps [simp]:
  "ac_Balance (so_Account (newStateObject E)) = 0" "ac_Nonce (so_Account (newStateObject E)) = 0"
  "ac_Root (so_Account (newStateObject E)) = emptyStateHash" "so_Deleted (newStateObject E) = False"
  "ac_CodeHash (so_Account (newStateObject E)) = emptyCodeHash (e_crypto E)"
  "so_Txn (newStateObject E) = None" "so_DirtyCode (newStateObject E) = False" "so_Suicide (newStateObject E) = False"
  by (simp_all add: newStateObject_def)

lemma on_simps [simp]:
  "ac_Balance (so_Account (on_balance f s)) = f (ac_Balance (so_Account s))"
  "ac_Nonce (so_Account (on_balance f s)) = ac_Nonce (so_Account s)"
  "ac_Root (so_Account (on_balance f s)) = ac_Root (so_Account s)"
  "ac_CodeHash (so_Account (on_balance f s)) = ac_CodeHash (so_Account s)"
  "so_Deleted (on_balance f s) = so_Deleted s" "so_Suicide (on_balance f s) = so_Suicide s"
  "so_Code (on_balance f s) = so_Code s" "so_DirtyCode (on_balance f s) = so_DirtyCode s"
  "so_Txn (on_balance f s) = so_Txn s"
  "ac_Balance (so_Account (on_nonce g s)) = ac_Balance (so_Account s)"
  "ac_Nonce (so_Account (on_nonce g s)) = g (ac_Nonce (so_Account s))"
  "ac_Root (so_Account (on_nonce g s)) = ac_Root (so_Account s)"
  "ac_CodeHash (so_Account (on_nonce g s)) = ac_CodeHash (so_Account s)"
  "so_Deleted (on_nonce g s) = so_Deleted s" "so_Suicide (on_nonce g s) = so_Suicide s"
  "so_Code (on_nonce g s) = so_Code s" "so_DirtyCode (on_nonce g s) = so_DirtyCode s"
  "so_Txn (on_nonce g s) = so_Txn s"
  by (simp_all add: on_balance_def on_nonce_def)

named_theorems view_simps "what a reader sees after an operation"

lemma tree_update_simps [simp]:
  "tx_snapshot (tree_insert E t k v) = tx_snapshot t" "tx_snapshots (tree_insert E t k v) = tx_snapshots t"
  "tx_codeCache (tree_insert E t k v) = tx_codeCache t" "tx_snapshot (tree_delete E t k) = tx_snapshot t"
  "tx_snapshots (tree_delete E t k) = tx_snapshots t" "tx_codeCache (tree_delete E t k) = tx_codeCache t"
  by (simp_all add: tree_insert_def tree_delete_def)

lemma tree_get_update [view_simps]:
  assumes "laws E"
  shows "tree_get E (tree_insert E t k v) k' = (if k' = k then Some v else tree_get E t k')"
    and "tree_get E (tree_delete E t k) k' = (if k' = k then None else tree_get E t k')"
  by (simp_all add: tree_insert_def tree_delete_def laws_simps [OF assms])

text \<open>The keys of accounts, logs and refund are apart.\<close>

lemma index_simps [simp]:
  "logIndex \<noteq> refundIndex" "refundIndex \<noteq> logIndex" "Address_Bytes a \<noteq> logIndex" "logIndex \<noteq> Address_Bytes a"
  "Address_Bytes a \<noteq> refundIndex" "refundIndex \<noteq> Address_Bytes a"
  by (simp_all add: logIndex_def refundIndex_def BytesToHash_def nat_SetBytes_def)

lemma get_tree_insert [view_simps]:
  assumes "laws E"
  shows "getStateObject E (tree_insert E t (Address_Bytes a) (Obj obj)) a' =
           (if a' = a then (if so_Deleted obj then None else Some (StateObject_Copy obj)) else getStateObject E t a')"
    and "getStateObject E (tree_insert E t logIndex v) a' = getStateObject E t a'"
    and "getStateObject E (tree_insert E t refundIndex v) a' = getStateObject E t a'"
    and "getStateObject E (tree_delete E t logIndex) a' = getStateObject E t a'"
    and "getStateObject E (tree_delete E t refundIndex) a' = getStateObject E t a'"
  by (simp_all add: getStateObject_def tree_get_update [OF assms] Let_def split: option.split)

lemma logs_refund_tree [view_simps]:
  assumes "laws E"
  shows "tree_logs E (tree_insert E t (Address_Bytes a) v) = tree_logs E t"
    and "Txn_GetRefund E (tree_insert E t (Address_Bytes a) v) = Txn_GetRefund E t"
    and "tree_logs E (tree_insert E t refundIndex v) = tree_logs E t"
    and "Txn_GetRefund E (tree_insert E t logIndex v) = Txn_GetRefund E t"
    and "Txn_GetRefund E (tree_insert E t refundIndex (Refund_entry g)) = g"
    and "tree_logs E (tree_insert E t logIndex (Logs_entry ls)) = ls"
    and "tree_logs E (tree_delete E t refundIndex) = tree_logs E t" and "Txn_GetRefund E (tree_delete E t refundIndex) = 0"
    and "tree_logs E (tree_delete E t logIndex) = []" and "Txn_GetRefund E (tree_delete E t logIndex) = Txn_GetRefund E t"
  by (simp_all add: tree_logs_def Txn_GetRefund_def tree_get_update [OF assms])

lemma upsertAccount_same [simp]:
  "tx_snapshot (upsertAccount E t a c f) = tx_snapshot t" "tx_snapshots (upsertAccount E t a c f) = tx_snapshots t"
  "tx_codeCache (upsertAccount E t a c f) = tx_codeCache t"
  by (simp_all add: upsertAccount_def Let_def split: option.splits)

lemma get_upsertAccount [view_simps]:
  assumes "laws E"
  shows "getStateObject E (upsertAccount E t a create (map_option f)) a' =
    (if a' = a then
       (case getStateObject E t a of
          Some obj \<Rightarrow> if so_Deleted (f obj) then None else Some (StateObject_Copy (f obj))
        | None \<Rightarrow> if create \<and> \<not> so_Deleted (f (newStateObject E)) then Some (StateObject_Copy (f (newStateObject E))) else None)
     else getStateObject E t a')"
  by (auto simp: upsertAccount_def Let_def view_simps assms split: option.splits)

lemma logs_refund_upsertAccount [view_simps]:
  assumes "laws E"
  shows "tree_logs E (upsertAccount E t a c f) = tree_logs E t"
    and "Txn_GetRefund E (upsertAccount E t a c f) = Txn_GetRefund E t"
  by (simp_all add: upsertAccount_def Let_def view_simps assms split: option.splits)

subsection \<open>Balances and the supply\<close>

lemma Txn_GetBalance_nonneg [simp]: "0 \<le> Txn_GetBalance E t a"
  by (auto simp: Txn_GetBalance_def dest: getStateObject_SomeD split: option.splits)

lemma Txn_GetBalance_cong: "getStateObject E t a = getStateObject E t' a' \<Longrightarrow> Txn_GetBalance E t a = Txn_GetBalance E t' a'"
  by (simp add: Txn_GetBalance_def)

lemma GetBalance_on_balance:
  assumes "laws E"
  shows "Txn_GetBalance E (upsertAccount E t a True (map_option (on_balance f))) a' =
    (if a' = a then \<bar>f (Txn_GetBalance E t a)\<bar> else Txn_GetBalance E t a')"
  by (auto simp: Txn_GetBalance_def view_simps assms dest: getStateObject_SomeD(2) split: option.splits)

lemma GetBalance_AddBalance [view_simps]:
  "laws E \<Longrightarrow> 0 \<le> amount \<Longrightarrow>
   Txn_GetBalance E (AddBalance E t a amount) a' = Txn_GetBalance E t a' + (if a' = a then amount else 0)"
  unfolding AddBalance_def by (simp add: GetBalance_on_balance)

lemma SubBalance_Some:
  assumes "laws E" and "0 \<le> amount" and "SubBalance E t a amount = Some t'"
  shows "amount \<le> Txn_GetBalance E t a"
    and "Txn_GetBalance E t' a' = Txn_GetBalance E t a' - (if a' = a then amount else 0)"
  using assms by (auto simp: SubBalance_def GetBalance_on_balance split: if_splits)

lemma SubBalance_iff: "SubBalance E t a amount = None \<longleftrightarrow> amount \<noteq> 0 \<and> Txn_GetBalance E t a < amount"
  by (simp add: SubBalance_def)

lemma GetBalance_SetBalance [view_simps]:
  "laws E \<Longrightarrow> Txn_GetBalance E (SetBalance E t a b) a' = (if a' = a then \<bar>b\<bar> else Txn_GetBalance E t a')"
  unfolding SetBalance_def by (simp add: GetBalance_on_balance SetBytes_Bytes)

lemma GetBalance_upsert_other:
  assumes "laws E" and "\<And>obj. ac_Balance (so_Account (f obj)) = ac_Balance (so_Account obj) \<and> so_Deleted (f obj) = so_Deleted obj"
  shows "Txn_GetBalance E (upsertAccount E t a c (map_option f)) a' = Txn_GetBalance E t a'"
  by (auto simp: Txn_GetBalance_def get_upsertAccount [OF assms(1)] assms(2) dest: getStateObject_SomeD(1,2) split: option.splits)

lemma get_TouchAccount [view_simps]:
  assumes "laws E"
  shows "getStateObject E (TouchAccount E t a) a' =
    (if a' = a then Some (case getStateObject E t a of Some obj \<Rightarrow> obj | None \<Rightarrow> newStateObject E) else getStateObject E t a')"
proof -
  have "TouchAccount E t a = upsertAccount E t a True (map_option (\<lambda>obj. obj))"
    by (simp add: TouchAccount_def upsertAccount_def option.map_ident)
  then show ?thesis using getStateObject_SomeD(1,2) [of E t a]
    by (auto simp: get_upsertAccount [OF assms] StateObject_Copy_id split: option.splits)
qed

lemma GetBalance_account_ops [view_simps]:
  assumes "laws E"
  shows "Txn_GetBalance E (SetState E t a k v) a' = Txn_GetBalance E t a'"
    and "Txn_GetBalance E (IncrNonce E t a) a' = Txn_GetBalance E t a'"
    and "Txn_GetBalance E (SetNonce E t a n) a' = Txn_GetBalance E t a'"
    and "Txn_GetBalance E (SetCode E t a code) a' = Txn_GetBalance E t a'"
  unfolding SetState_def IncrNonce_def SetNonce_def SetCode_def
  by (rule GetBalance_upsert_other [OF assms], simp add: Let_def)+

lemma GetBalance_other_ops [view_simps]:
  assumes "laws E"
  shows "Txn_GetBalance E (TouchAccount E t a) a' = Txn_GetBalance E t a'"
    and "Txn_GetBalance E (AddLog E t log) a' = Txn_GetBalance E t a'"
    and "Txn_GetBalance E (Txn_EmitLog E t a ts bs) a' = Txn_GetBalance E t a'"
    and "Txn_GetBalance E (AddRefund E t g) a' = Txn_GetBalance E t a'"
    and "Txn_GetBalance E (SubRefund E t g) a' = Txn_GetBalance E t a'"
    and "Txn_GetBalance E (snd (Logs E t)) a' = Txn_GetBalance E t a'"
  by (simp_all add: Txn_GetBalance_def view_simps assms AddLog_def Txn_EmitLog_def AddRefund_def SubRefund_def
      Logs_def Let_def split: option.split)

lemma GetBalance_CreateAccount [view_simps]:
  "laws E \<Longrightarrow> Txn_GetBalance E (CreateAccount E t a) a' = Txn_GetBalance E t a'"
  by (auto simp: CreateAccount_def Txn_GetBalance_def view_simps Let_def SetBytes_Bytes dest: getStateObject_SomeD(1) split: option.splits)

lemma GetBalance_Suicide [view_simps]:
  "laws E \<Longrightarrow> Txn_GetBalance E (snd (Suicide E t a)) a' = (if a' = a then 0 else Txn_GetBalance E t a')"
  by (auto simp: Suicide_def Txn_GetBalance_def view_simps split: option.splits)

lemma Txn_GetCode_same [simp]:
  "tx_snapshot (snd (Txn_GetCode E t a)) = tx_snapshot t" "tx_snapshots (snd (Txn_GetCode E t a)) = tx_snapshots t"
  "tx_txn (snd (Txn_GetCode E t a)) = tx_txn t"
  unfolding Txn_GetCode_def Let_def by (simp_all split: option.split prod.split)

lemma getStateObject_cong:
  "tx_txn t' = tx_txn t \<Longrightarrow> tx_snapshot t' = tx_snapshot t \<Longrightarrow> getStateObject E t' = getStateObject E t"
  by (simp add: getStateObject_def fun_eq_iff cong: option.case_cong)

lemma Refund_same [simp]:
  "tx_snapshot (AddRefund E t g) = tx_snapshot t" "tx_snapshots (AddRefund E t g) = tx_snapshots t"
  "tx_snapshot (SubRefund E t g) = tx_snapshot t" "tx_snapshots (SubRefund E t g) = tx_snapshots t"
  by (simp_all add: AddRefund_def SubRefund_def)

lemma get_Refund [view_simps]:
  assumes "laws E"
  shows "getStateObject E (AddRefund E t g) a = getStateObject E t a"
    and "getStateObject E (SubRefund E t g) a = getStateObject E t a"
    and "tree_logs E (AddRefund E t g) = tree_logs E t" and "tree_logs E (SubRefund E t g) = tree_logs E t"
    and "Txn_GetRefund E (AddRefund E t g) = Txn_GetRefund E t + g"
    and "Txn_GetRefund E (SubRefund E t g) = Txn_GetRefund E t - g"
  by (simp_all add: AddRefund_def SubRefund_def view_simps assms)

text \<open>Gas metering only touches the refund.\<close>

lemma storage_metering_induct:
  assumes "Q t" and "\<And>t g. Q t \<Longrightarrow> Q (AddRefund E t g)" and "\<And>t g. Q t \<Longrightarrow> Q (SubRefund E t g)"
  shows "Q (snd (storage_metering E t ov cv v cfg))"
  unfolding storage_metering_def Let_def by (simp add: assms)

lemma storage_metering_same [simp]:
  "tx_snapshot (snd (storage_metering E t ov cv v cfg)) = tx_snapshot t"
  "tx_snapshots (snd (storage_metering E t ov cv v cfg)) = tx_snapshots t"
  by (rule storage_metering_induct; simp)+

lemma get_storage_metering [view_simps]:
  assumes "laws E"
  shows "getStateObject E (snd (storage_metering E t ov cv v cfg)) a = getStateObject E t a"
    and "tree_logs E (snd (storage_metering E t ov cv v cfg)) = tree_logs E t"
  by (rule storage_metering_induct; simp add: view_simps assms)+

lemma GetBalance_SetStorage [view_simps]:
  "laws E \<Longrightarrow> Txn_GetBalance E (snd (Txn_SetStorage E t a k v cfg)) a' = Txn_GetBalance E t a'"
  unfolding Txn_SetStorage_def Let_def
  by (auto simp: view_simps intro: Txn_GetBalance_cong [THEN trans])

text \<open>The supply: the sum of all balances. There are finitely many addresses.\<close>

definition total_supply :: "('s, 't, 'c, 'z) env_scheme \<Rightarrow> ('t, 'c) Txn \<Rightarrow> int" where
  "total_supply E t = (\<Sum>a \<in> UNIV. Txn_GetBalance E t a)"

lemma supply_shift:
  assumes "\<And>a'. Txn_GetBalance E t' a' = Txn_GetBalance E t a' + (if a' = a then amount else 0)"
  shows "total_supply E t' = total_supply E t + amount"
  by (simp add: total_supply_def assms sum.distrib)

lemma supply_AddBalance [view_simps]:
  "laws E \<Longrightarrow> 0 \<le> amount \<Longrightarrow> total_supply E (AddBalance E t a amount) = total_supply E t + amount"
  by (rule supply_shift) (rule GetBalance_AddBalance)

lemma supply_SubBalance:
  assumes "laws E" and "0 \<le> amount" and "SubBalance E t a amount = Some t'"
  shows "total_supply E t' = total_supply E t - amount"
  using supply_shift [of E t' t a "- amount"] SubBalance_Some(2) [OF assms] by simp

lemma supply_same: "(\<And>a. Txn_GetBalance E t' a = Txn_GetBalance E t a) \<Longrightarrow> total_supply E t' = total_supply E t"
  by (simp add: total_supply_def)

lemma supply_le: "(\<And>a. Txn_GetBalance E t' a \<le> Txn_GetBalance E t a) \<Longrightarrow> total_supply E t' \<le> total_supply E t"
  unfolding total_supply_def by (rule sum_mono)

lemma supply_Suicide: "laws E \<Longrightarrow> total_supply E (snd (Suicide E t a)) = total_supply E t - Txn_GetBalance E t a"
  using supply_shift [of E "snd (Suicide E t a)" t a "- Txn_GetBalance E t a"] by (simp add: view_simps)

lemma balance_le_supply: "Txn_GetBalance E t a \<le> total_supply E t"
  unfolding total_supply_def by (rule member_le_sum) simp_all

end
