(* ===== verification/World.thy ===== *)
theory World
  imports Txn
begin

section \<open>Laws of the world state\<close>

text \<open>
  What the operations of theory \<open>Txn\<close> promise to the executor: storage reads back what was
  written and gas metering follows EIP-2200 (or, before Istanbul, EIP-1283 and the legacy
  rules), a revert restores everything a reader can see, the end of a transaction removes
  exactly the suicided and the empty accounts and never panics, and the objects a commit hands
  to the trie are what a reader sees.
\<close>

subsection \<open>Storage\<close>

text \<open>
  A storage trie with the empty root holds nothing. This is what the state behind the snapshot
  promises; theory \<open>Txn\<close> knows it only by its interface.
\<close>

definition empty_storage :: "readSnapshot \<Rightarrow> bool" where
  "empty_storage s \<longleftrightarrow> (\<forall>a k. snap_GetStorage s a emptyStateHash k = 0)"

lemma GetState_upsert_other:
  assumes "laws E" and "empty_storage (tx_snapshot t)"
    and "\<And>obj. so_Txn (f obj) = so_Txn obj \<and> ac_Root (so_Account (f obj)) = ac_Root (so_Account obj) \<and> so_Deleted (f obj) = so_Deleted obj"
  shows "GetState E (upsertAccount E t a c (map_option f)) a' k = GetState E t a' k"
  using assms(2) by (auto simp: GetState_def get_upsertAccount [OF assms(1)] assms(3) empty_storage_def dest: getStateObject_SomeD(2) split: option.splits)

lemma GetState_cong:
  assumes "getStateObject E t' a = getStateObject E t a" and "tx_snapshot t' = tx_snapshot t"
  shows "GetState E t' a k = GetState E t a k" and "GetCommittedState E t' a k = GetCommittedState E t a k"
    and "Txn_GetBalance E t' a = Txn_GetBalance E t a" and "Txn_GetNonce E t' a = Txn_GetNonce E t a"
  by (simp_all add: GetState_def GetCommittedState_def Txn_GetBalance_def Txn_GetNonce_def assms cong: option.case_cong)

lemma GetState_SetState:
  assumes "laws E" and "empty_storage (tx_snapshot t)"
  shows "GetState E (SetState E t a k v) a' k' = (if a' = a \<and> k' = k then v else GetState E t a' k')"
  unfolding GetState_def SetState_def get_upsertAccount [OF assms(1)]
  using assms(2) by (auto simp: Let_def laws_simps [OF assms(1)] empty_storage_def dest: getStateObject_SomeD(2) split: option.splits)

lemma GetCommittedState_SetState:
  assumes "laws E" and "empty_storage (tx_snapshot t)"
  shows "GetCommittedState E (SetState E t a k v) a' k' = GetCommittedState E t a' k'"
  unfolding GetCommittedState_def SetState_def get_upsertAccount [OF assms(1)]
  using assms(2) by (auto simp: Let_def empty_storage_def dest: getStateObject_SomeD(2) split: option.splits)

lemma SetState_same [simp]:
  "tx_snapshot (SetState E t a k v) = tx_snapshot t" "tx_snapshots (SetState E t a k v) = tx_snapshots t"
  by (simp_all add: SetState_def)

lemma SetStorage_same [simp]:
  "tx_snapshot (snd (Txn_SetStorage E t a k v cfg)) = tx_snapshot t"
  "tx_snapshots (snd (Txn_SetStorage E t a k v cfg)) = tx_snapshots t"
  by (simp_all add: Txn_SetStorage_def Let_def)

lemma GetState_SetStorage:
  assumes "laws E" and "empty_storage (tx_snapshot t)"
  shows "GetState E (snd (Txn_SetStorage E t a k v cfg)) a' k' = (if a' = a \<and> k' = k then v else GetState E t a' k')"
    and "GetCommittedState E (snd (Txn_SetStorage E t a k v cfg)) a' k' = GetCommittedState E t a' k'"
proof -
  define t1 where "t1 = SetState E t a k v"
  let ?t2 = "snd (storage_metering E t1 (GetCommittedState E t a k) (GetState E t a k) v cfg)"
  have "GetState E ?t2 a' k' = GetState E t1 a' k'" "GetCommittedState E ?t2 a' k' = GetCommittedState E t1 a' k'"
    by (rule GetState_cong; simp add: view_simps assms(1))+
  then show "GetState E (snd (Txn_SetStorage E t a k v cfg)) a' k' = (if a' = a \<and> k' = k then v else GetState E t a' k')"
    and "GetCommittedState E (snd (Txn_SetStorage E t a k v cfg)) a' k' = GetCommittedState E t a' k'"
    unfolding Txn_SetStorage_def Let_def t1_def [symmetric]
    by (auto simp: t1_def GetState_SetState GetCommittedState_SetState assms)
qed

text \<open>
  The refund the metering rules give, as a change of the counter: EIP-2200 with the constants of
  EIP-1283 where Istanbul is not active, or the legacy rule.
\<close>

definition refund_change :: "ForksInTime \<Rightarrow> Hash \<Rightarrow> Hash \<Rightarrow> Hash \<Rightarrow> int" where
  "refund_change cfg original current new =
     (if current = new then 0
      else if \<not> Istanbul cfg \<and> (Petersburg cfg \<or> \<not> Constantinople cfg)
      then (if current \<noteq> 0 \<and> new = 0 then 15000 else 0)
      else (if original \<noteq> 0 \<and> current = 0 then - 15000 else 0) +
           (if original \<noteq> 0 \<and> new = 0 then 15000 else 0) +
           (if original \<noteq> current \<and> original = new
            then if original = 0 then if Istanbul cfg then 19200 else 19800
                 else if Istanbul cfg then 4200 else 4800
            else 0))"

lemma refund_change_le: "refund_change cfg original current new \<le> 19800"
  by (simp add: refund_change_def)

lemma storage_metering_refund:
  assumes "laws E" and "current \<noteq> v"
  shows "Txn_GetRefund E (snd (storage_metering E t original current v cfg)) =
    Txn_GetRefund E t + word_of_int (refund_change cfg original current v)"
  unfolding storage_metering_def refund_change_def Let_def
  using assms by (auto simp: view_simps)

lemma GetRefund_SetStorage:
  assumes "laws E"
  shows "Txn_GetRefund E (snd (Txn_SetStorage E t a k v cfg)) = Txn_GetRefund E t +
    word_of_int (refund_change cfg (GetCommittedState E t a k) (GetState E t a k) v)"
  by (simp add: Txn_SetStorage_def Let_def storage_metering_refund assms SetState_def view_simps refund_change_def)

text \<open>The slots a block has cleared so far, each of which owes 15000 gas of the refund counter.\<close>

definition cleared :: "('s, 't, 'c, 'z) env_scheme \<Rightarrow> ('t, 'c) Txn \<Rightarrow> (Address \<times> Hash) set" where
  "cleared E t = {(a, k). GetCommittedState E t a k \<noteq> 0 \<and> GetState E t a k = 0}"

definition refund_ok :: "('s, 't, 'c, 'z) env_scheme \<Rightarrow> ('t, 'c) Txn \<Rightarrow> bool" where
  "refund_ok E t \<longleftrightarrow> 15000 * card (cleared E t) \<le> unat (Txn_GetRefund E t)"

lemma cleared_SetStorage:
  assumes "laws E" and "empty_storage (tx_snapshot t)"
  shows "cleared E (snd (Txn_SetStorage E t a k v cfg)) =
    (if GetCommittedState E t a k \<noteq> 0 \<and> v = 0 then insert (a, k) (cleared E t) else cleared E t - {(a, k)})"
  by (auto simp: cleared_def GetState_SetStorage [OF assms])

lemma card_cleared_SetStorage:
  assumes "laws E" and "empty_storage (tx_snapshot t)"
  shows "int (card (cleared E (snd (Txn_SetStorage E t a k v cfg)))) = int (card (cleared E t)) +
    (if GetCommittedState E t a k = 0 then 0
     else (if v = 0 then 1 else 0) - (if GetState E t a k = 0 then 1 else 0))"
proof -
  have fin: "finite (cleared E t)" by (rule finite)
  have mem: "(a, k) \<in> cleared E t \<longleftrightarrow> GetCommittedState E t a k \<noteq> 0 \<and> GetState E t a k = 0"
    by (simp add: cleared_def)
  show ?thesis
  proof (cases "(a, k) \<in> cleared E t")
    case True
    then have "card (cleared E t) = Suc (card (cleared E t - {(a, k)}))"
      using fin by (metis card.remove)
    with True show ?thesis using mem by (simp add: cleared_SetStorage [OF assms] insert_absorb)
  next
    case False
    then show ?thesis using mem fin by (auto simp: cleared_SetStorage [OF assms])
  qed
qed

lemma unat_add_of_int:
  fixes w :: uint64
  assumes "0 \<le> int (unat w) + x" and "int (unat w) + x < 2 ^ 64"
  shows "int (unat (w + word_of_int x)) = int (unat w) + x"
proof -
  have "uint (word_of_int (uint w + x) :: uint64) = uint w + x"
    using assms by (simp add: uint_word_of_int take_bit_int_eq_self del: of_int_add)
  then show ?thesis by simp
qed

lemma refund_ok_SetStorage:
  assumes "laws E" and "empty_storage (tx_snapshot t)" and "refund_ok E t"
    and "unat (Txn_GetRefund E t) + 19800 < 2 ^ 64"
  shows "refund_ok E (snd (Txn_SetStorage E t a k v cfg))"
    and "unat (Txn_GetRefund E (snd (Txn_SetStorage E t a k v cfg))) \<le> unat (Txn_GetRefund E t) + 19800"
    and "int (unat (Txn_GetRefund E (snd (Txn_SetStorage E t a k v cfg)))) =
      int (unat (Txn_GetRefund E t)) + refund_change cfg (GetCommittedState E t a k) (GetState E t a k) v"
proof -
  let ?o = "GetCommittedState E t a k" and ?c = "GetState E t a k" and ?t' = "snd (Txn_SetStorage E t a k v cfg)"
  have card: "15000 * int (card (cleared E t)) \<le> int (unat (Txn_GetRefund E t))"
    using assms(3) unfolding refund_ok_def by linarith
  define dl :: int where "dl = (if ?o = 0 then 0 else (if v = 0 then 1 else 0) - (if ?c = 0 then 1 else 0))"
  have card': "int (card (cleared E ?t')) = int (card (cleared E t)) + dl"
    unfolding dl_def by (rule card_cleared_SetStorage [OF assms(1,2)])
  have change: "15000 * dl \<le> refund_change cfg ?o ?c v"
    by (auto simp: refund_change_def dl_def)
  show new: "int (unat (Txn_GetRefund E ?t')) = int (unat (Txn_GetRefund E t)) + refund_change cfg ?o ?c v"
    unfolding GetRefund_SetStorage [OF assms(1)]
  proof (rule unat_add_of_int)
    show "int (unat (Txn_GetRefund E t)) + refund_change cfg ?o ?c v < 2 ^ 64"
    proof -
      have "int (unat (Txn_GetRefund E t) + 19800) < int (2 ^ 64)" using assms(4) by (simp only: of_nat_less_iff)
      then have "int (unat (Txn_GetRefund E t)) + 19800 < 2 ^ 64" by (simp only: of_nat_add of_nat_power of_nat_numeral)
      then show ?thesis using refund_change_le [of cfg ?o ?c v] by linarith
    qed
    have "0 \<le> int (card (cleared E ?t'))" by simp
    then show "0 \<le> int (unat (Txn_GetRefund E t)) + refund_change cfg ?o ?c v"
      using card change card' by linarith
  qed
  show "unat (Txn_GetRefund E ?t') \<le> unat (Txn_GetRefund E t) + 19800"
    using new refund_change_le [of cfg ?o ?c v] by linarith
  have "15000 * int (card (cleared E ?t')) \<le> int (unat (Txn_GetRefund E ?t'))"
    using new card card' change by linarith
  then show "refund_ok E ?t'" unfolding refund_ok_def by linarith
qed

text \<open>Operations that leave the storage alone.\<close>

lemma storage_upsert:
  assumes "laws E" and "empty_storage (tx_snapshot t)"
    and "\<And>obj. so_Txn (f obj) = so_Txn obj \<and> ac_Root (so_Account (f obj)) = ac_Root (so_Account obj) \<and> so_Deleted (f obj) = so_Deleted obj"
  shows "cleared E (upsertAccount E t a c (map_option f)) = cleared E t"
proof -
  have "GetCommittedState E (upsertAccount E t a c (map_option f)) a' k = GetCommittedState E t a' k" for a' k
    using assms(2) by (auto simp: GetCommittedState_def get_upsertAccount [OF assms(1)] assms(3) empty_storage_def
        dest: getStateObject_SomeD(2) split: option.splits)
  then show ?thesis by (simp add: cleared_def GetState_upsert_other [OF assms])
qed

lemma cleared_cong:
  assumes "\<And>a. getStateObject E t' a = getStateObject E t a" and "tx_snapshot t' = tx_snapshot t"
  shows "cleared E t' = cleared E t"
  using GetState_cong(1,2) [OF assms] by (simp add: cleared_def)

subsection \<open>The end of a transaction\<close>

lemma to_removeD: "to_remove L d v \<Longrightarrow> \<exists>obj. v = Obj obj"
  by (cases v) (simp_all add: to_remove_def)

lemma keys_filter: "[k. (k, v) \<leftarrow> w, p v] = map fst (filter (\<lambda>(k, v). p v) w)"
  by (induction w) auto

lemma mark_all_Some:
  assumes "laws E" and "distinct ks" and "\<forall>k \<in> set ks. \<exists>obj. tree_get E t k = Some (Obj obj)"
  shows "\<exists>t'. mark_all E ks t = Some t' \<and> tx_snapshot t' = tx_snapshot t \<and> tx_snapshots t' = tx_snapshots t \<and>
    tx_codeCache t' = tx_codeCache t \<and>
    (\<forall>k. tree_get E t' k = (if k \<in> set ks then Some (Obj ((StateObject_Copy (the_obj (the (tree_get E t k))))\<lparr>so_Deleted := True\<rparr>))
      else tree_get E t k))"
  using assms(2,3)
proof (induction ks arbitrary: t)
  case (Cons k ks)
  then obtain obj where k: "tree_get E t k = Some (Obj obj)" by auto
  let ?t1 = "tree_insert E t k (Obj ((StateObject_Copy obj)\<lparr>so_Deleted := True\<rparr>))"
  have "\<forall>k' \<in> set ks. \<exists>obj. tree_get E ?t1 k' = Some (Obj obj)"
    using Cons.prems by (auto simp: view_simps assms(1))
  from Cons.IH [OF _ this] Cons.prems(1) obtain t' where "mark_all E ks ?t1 = Some t'" and
      "tx_snapshot t' = tx_snapshot t" "tx_snapshots t' = tx_snapshots t" "tx_codeCache t' = tx_codeCache t" and
      "\<And>k'. tree_get E t' k' = (if k' \<in> set ks then Some (Obj ((StateObject_Copy (the_obj (the (tree_get E ?t1 k'))))\<lparr>so_Deleted := True\<rparr>))
        else tree_get E ?t1 k')"
    by auto
  then show ?case using Cons.prems(1) k by (auto simp: mark_deleted_def view_simps assms(1))
qed simp

definition clean_entry :: "crypto_lib \<Rightarrow> bool \<Rightarrow> 's entry \<Rightarrow> 's entry" where
  "clean_entry L d v = (if to_remove L d v then Obj ((StateObject_Copy (the_obj v))\<lparr>so_Deleted := True\<rparr>) else v)"

lemma clean_entry_simps:
  "to_remove L d v \<Longrightarrow> so_Deleted (the_obj (clean_entry L d v))" "\<not> to_remove L d v \<Longrightarrow> clean_entry L d v = v"
  by (simp_all add: clean_entry_def)

text \<open>The entries of the tree after \<open>CleanDeleteObjects\<close>.\<close>

lemma CleanDeleteObjects_Some:
  assumes "laws E"
  shows "\<exists>t'. CleanDeleteObjects E t d = Some t' \<and> tx_snapshot t' = tx_snapshot t \<and> tx_snapshots t' = tx_snapshots t \<and>
    tx_codeCache t' = tx_codeCache t \<and>
    (\<forall>k. tree_get E t' k = (if k = refundIndex then None else map_option (clean_entry (e_crypto E) d) (tree_get E t k)))"
proof -
  let ?w = "Tree_Walk (e_main E) (tx_txn t)"
  define ks where "ks = [k. (k, v) \<leftarrow> ?w, to_remove (e_crypto E) d v]"
  have dist: "distinct (map fst ?w)" and get: "map_of ?w = Tree_Get (e_main E) (tx_txn t)"
    by (simp_all add: laws_simps [OF assms])
  have ks: "ks = map fst (filter (\<lambda>(k, v). to_remove (e_crypto E) d v) ?w)"
    unfolding ks_def by (rule keys_filter)
  have mem: "k \<in> set ks \<longleftrightarrow> (\<exists>v. tree_get E t k = Some v \<and> to_remove (e_crypto E) d v)" for k
    unfolding ks get [symmetric] using dist by (force simp: map_of_eq_Some_iff)
  have "distinct ks" unfolding ks using dist by (simp add: distinct_map_filter)
  moreover have "\<forall>k \<in> set ks. \<exists>obj. tree_get E t k = Some (Obj obj)"
    using mem to_removeD by fastforce
  ultimately obtain t' where "mark_all E ks t = Some t'" "tx_snapshot t' = tx_snapshot t" "tx_snapshots t' = tx_snapshots t"
      "tx_codeCache t' = tx_codeCache t"
      "\<And>k. tree_get E t' k = (if k \<in> set ks then Some (Obj ((StateObject_Copy (the_obj (the (tree_get E t k))))\<lparr>so_Deleted := True\<rparr>))
        else tree_get E t k)"
    using mark_all_Some [OF assms, of ks t] by auto
  then obtain t' where t': "mark_all E ks t = Some t'" "tx_snapshot t' = tx_snapshot t" "tx_snapshots t' = tx_snapshots t"
      "tx_codeCache t' = tx_codeCache t"
      and "\<And>k. tree_get E t' k = (if k \<in> set ks then Some (Obj ((StateObject_Copy (the_obj (the (tree_get E t k))))\<lparr>so_Deleted := True\<rparr>))
        else tree_get E t k)" by blast
  then have "tree_get E t' k = map_option (clean_entry (e_crypto E) d) (tree_get E t k)" for k
    by (cases "tree_get E t k") (auto simp: mem clean_entry_def)
  with t' show ?thesis unfolding CleanDeleteObjects_def Let_def ks_def [symmetric]
    by (simp add: view_simps assms)
qed

lemma CleanDeleteObjects_view:
  assumes "laws E" and "CleanDeleteObjects E t d = Some t'"
  shows "getStateObject E t' a = (case tree_get E t (Address_Bytes a) of
      Some v \<Rightarrow> if to_remove (e_crypto E) d v then None else getStateObject E t a
    | None \<Rightarrow> getStateObject E t a)"
    and "Txn_GetRefund E t' = 0" and "tree_logs E t' = (case tree_get E t logIndex of
      None \<Rightarrow> [] | Some v \<Rightarrow> if to_remove (e_crypto E) d v then tree_logs E t' else tree_logs E t)"
    and "tx_snapshot t' = tx_snapshot t" and "tx_snapshots t' = tx_snapshots t"
proof -
  show snap: "tx_snapshot t' = tx_snapshot t" and "tx_snapshots t' = tx_snapshots t"
    using CleanDeleteObjects_Some [OF assms(1), of t d] assms(2) by auto
  have get: "tree_get E t' k = (if k = refundIndex then None else map_option (clean_entry (e_crypto E) d) (tree_get E t k))" for k
    using CleanDeleteObjects_Some [OF assms(1), of t d] assms(2) by auto
  show "getStateObject E t' a = (case tree_get E t (Address_Bytes a) of
      Some v \<Rightarrow> if to_remove (e_crypto E) d v then None else getStateObject E t a | None \<Rightarrow> getStateObject E t a)"
    by (simp add: getStateObject_def get snap Let_def clean_entry_simps split: option.split)
  show "Txn_GetRefund E t' = 0" by (simp add: Txn_GetRefund_def get)
  show "tree_logs E t' = (case tree_get E t logIndex of
      None \<Rightarrow> [] | Some v \<Rightarrow> if to_remove (e_crypto E) d v then tree_logs E t' else tree_logs E t)"
    by (simp add: tree_logs_def get clean_entry_simps split: option.split)
qed

lemma supply_CleanDeleteObjects:
  assumes "laws E" and "CleanDeleteObjects E t d = Some t'"
  shows "total_supply E t' \<le> total_supply E t"
proof (rule supply_le)
  fix a
  have "getStateObject E t' a \<in> {None, getStateObject E t a}"
    by (simp add: CleanDeleteObjects_view(1) [OF assms] split: option.split)
  then show "Txn_GetBalance E t' a \<le> Txn_GetBalance E t a"
    using Txn_GetBalance_nonneg [of E t a] by (auto simp: Txn_GetBalance_def)
qed

subsection \<open>Reachable states\<close>

text \<open>The operations of the package as a step relation; a caller can do nothing else to a \<open>Txn\<close>.\<close>

inductive txn_step :: "('s, 't, 'c, 'z) env_scheme \<Rightarrow> ('t, 'c) Txn \<Rightarrow> ('t, 'c) Txn \<Rightarrow> bool" for E where
  step_snapshot: "txn_step E t (snd (Snapshot t))"
| step_revert: "RevertToSnapshot t i = Some t' \<Longrightarrow> txn_step E t t'"
| step_reward: "txn_step E t (AddSealingReward E t a b)"
| step_add: "txn_step E t (AddBalance E t a b)"
| step_sub: "SubBalance E t a b = Some t' \<Longrightarrow> txn_step E t t'"
| step_balance: "txn_step E t (SetBalance E t a b)"
| step_log: "txn_step E t (AddLog E t log)"
| step_emit: "txn_step E t (Txn_EmitLog E t a ts bs)"
| step_logs: "txn_step E t (snd (Logs E t))"
| step_refund: "txn_step E t (AddRefund E t g)"
| step_unrefund: "txn_step E t (SubRefund E t g)"
| step_state: "txn_step E t (SetState E t a k v)"
| step_storage: "txn_step E t (snd (Txn_SetStorage E t a k v cfg))"
| step_incr: "txn_step E t (IncrNonce E t a)"
| step_nonce: "txn_step E t (SetNonce E t a n)"
| step_setcode: "txn_step E t (SetCode E t a code)"
| step_getcode: "txn_step E t (snd (Txn_GetCode E t a))"
| step_suicide: "txn_step E t (snd (Suicide E t a))"
| step_touch: "txn_step E t (TouchAccount E t a)"
| step_create: "txn_step E t (CreateAccount E t a)"
| step_clean: "CleanDeleteObjects E t d = Some t' \<Longrightarrow> txn_step E t t'"

text \<open>
  The type assertions of the sources: accounts are objects, the log key holds logs, the refund key
  a number, and no other key is used, in the current tree and in every saved one.
\<close>

definition tree_typed :: "('s, 't, 'c, 'z) env_scheme \<Rightarrow> 't \<Rightarrow> bool" where
  "tree_typed E tr \<longleftrightarrow> (\<forall>k v. Tree_Get (e_main E) tr k = Some v \<longrightarrow>
     (case v of Obj obj \<Rightarrow> \<exists>a. k = Address_Bytes a | Logs_entry ls \<Rightarrow> k = logIndex | Refund_entry g \<Rightarrow> k = refundIndex))"

definition txn_typed :: "('s, 't, 'c, 'z) env_scheme \<Rightarrow> ('t, 'c) Txn \<Rightarrow> bool" where
  "txn_typed E t \<longleftrightarrow> tree_typed E (tx_txn t) \<and> (\<forall>tr \<in> set (tx_snapshots t). tree_typed E tr)"

lemma tree_typed_insert:
  assumes "laws E" and "txn_typed E t"
  shows "txn_typed E (tree_insert E t (Address_Bytes a) (Obj obj))" and "txn_typed E (tree_insert E t logIndex (Logs_entry ls))"
    and "txn_typed E (tree_insert E t refundIndex (Refund_entry g))" and "txn_typed E (tree_delete E t k)"
  using assms(2) by (auto simp: txn_typed_def tree_typed_def tree_insert_def tree_delete_def laws_simps [OF assms(1)] split: if_split_asm)

lemma upsertAccount_typed: "laws E \<Longrightarrow> txn_typed E t \<Longrightarrow> txn_typed E (upsertAccount E t a c f)"
  by (simp add: upsertAccount_def Let_def tree_typed_insert split: option.split)

lemma refund_typed:
  "laws E \<Longrightarrow> txn_typed E t \<Longrightarrow> txn_typed E (AddRefund E t g)" "laws E \<Longrightarrow> txn_typed E t \<Longrightarrow> txn_typed E (SubRefund E t g)"
  by (simp_all add: AddRefund_def SubRefund_def tree_typed_insert)

lemma SetStorage_typed:
  assumes "laws E" and "txn_typed E t"
  shows "txn_typed E (snd (Txn_SetStorage E t a k v cfg))"
proof -
  have "txn_typed E (SetState E t a k v)" by (simp add: SetState_def upsertAccount_typed assms)
  then have "txn_typed E (snd (storage_metering E (SetState E t a k v) ov cv v cfg))" for ov cv
    by (rule storage_metering_induct [where Q = "txn_typed E"]) (simp_all add: refund_typed assms(1))
  then show ?thesis using assms(2) by (simp add: Txn_SetStorage_def Let_def)
qed

lemma CleanDeleteObjects_typed:
  assumes "laws E" and "txn_typed E t" and "CleanDeleteObjects E t d = Some t'"
  shows "txn_typed E t'"
proof -
  have get: "tree_get E t' k = (if k = refundIndex then None else map_option (clean_entry (e_crypto E) d) (tree_get E t k))"
    and snaps: "tx_snapshots t' = tx_snapshots t" for k
    using CleanDeleteObjects_Some [OF assms(1), of t d] assms(3) by auto
  have "case clean_entry (e_crypto E) d v of Obj obj \<Rightarrow> \<exists>a. k = Address_Bytes a
      | Logs_entry ls \<Rightarrow> k = logIndex | Refund_entry g \<Rightarrow> k = refundIndex" if "tree_get E t k = Some v" for k v
    using assms(2) that to_removeD [of "e_crypto E" d v] by (fastforce simp: txn_typed_def tree_typed_def clean_entry_def)
  then have "tree_typed E (tx_txn t')" unfolding tree_typed_def get by auto
  then show ?thesis using assms(2) by (simp add: txn_typed_def snaps)
qed

lemma snapshot_typed:
  "txn_typed E t \<Longrightarrow> txn_typed E (snd (Snapshot t))"
  "txn_typed E t \<Longrightarrow> RevertToSnapshot t i = Some t' \<Longrightarrow> txn_typed E t'"
  "txn_typed E t \<Longrightarrow> txn_typed E (snd (Txn_GetCode E t a))"
  by (auto simp: txn_typed_def Snapshot_def RevertToSnapshot_def split: if_splits)

lemma txn_step_typed:
  assumes "laws E" and "txn_step E t t'" and "txn_typed E t"
  shows "txn_typed E t'"
  using assms(2)
proof cases
  case (step_clean d)
  then show ?thesis using CleanDeleteObjects_typed assms by blast
next
  case (step_revert i)
  then show ?thesis using snapshot_typed(2) assms(3) by blast
next
  case (step_sub a b)
  then show ?thesis using upsertAccount_typed [OF assms(1,3)] assms(3) by (auto simp: SubBalance_def split: if_splits)
qed (simp_all add: assms(1,3) snapshot_typed tree_typed_insert upsertAccount_typed refund_typed SetStorage_typed AddSealingReward_def
    AddBalance_def SetBalance_def AddLog_def Txn_EmitLog_def Logs_def SetState_def IncrNonce_def SetNonce_def SetCode_def Suicide_def
    TouchAccount_def CreateAccount_def Let_def split: option.splits)

lemma newTxn_typed: "laws E \<Longrightarrow> txn_typed E (newTxn E s)"
  by (simp add: txn_typed_def newTxn_def tree_typed_def laws_simps)

end
