(* ===== verification/EVM_Evolve.thy ===== *)
theory EVM_Evolve
  imports EVM
begin

section \<open>How a run evolves: gas, memory cost, host\<close>

text \<open>
  Every instruction relates the state before it to the state after it by \<open>evolves\<close>: the message,
  the code, the configuration and the jump destinations stay, the gas does not grow, the gas and
  the memory cost already paid do not grow in sum, a stopped machine stays stopped, and from a
  sane state on the state stays sane and the host states are related by \<open>R\<close>. What the instructions need of the host for this is the locale
  \<open>evm_host\<close>; it is interpreted on the hosts of the transition (theory \<open>Transition\<close>).
\<close>

subsection \<open>The relation\<close>

definition potential :: "'h state \<Rightarrow> nat" where
  "potential c = unat (s_gas c) + unat (s_lastGasCost c)"

text \<open>
  A sane state has no negative number on its stack, no negative call value, and a host that
  satisfies \<open>P\<close>.
\<close>

definition value_ok :: "Contract \<Rightarrow> bool" where
  "value_ok m \<longleftrightarrow> (\<forall>v. c_Value m = Some v \<longrightarrow> 0 \<le> v)"

definition sane :: "('h \<Rightarrow> bool) \<Rightarrow> 'h state \<Rightarrow> bool" where
  "sane P c \<longleftrightarrow> (\<forall>v \<in> set (s_stack c). 0 \<le> v) \<and> value_ok (s_msg c) \<and> P (s_host c)"

definition evolves :: "('h \<Rightarrow> bool) \<Rightarrow> ('h \<Rightarrow> 'h \<Rightarrow> bool) \<Rightarrow> 'h state \<Rightarrow> 'h state \<Rightarrow> bool" where
  "evolves P R c c' \<longleftrightarrow>
     s_msg c' = s_msg c \<and> s_code c' = s_code c \<and> s_config c' = s_config c \<and> s_bitmap c' = s_bitmap c \<and>
     s_gas c' \<le> s_gas c \<and> (s_stop c \<longrightarrow> s_stop c') \<and>
     (\<not> s_stop c' \<longrightarrow> potential c < 2 ^ 64 \<longrightarrow> potential c' \<le> potential c) \<and>
     (sane P c \<longrightarrow> sane P c' \<and> R (s_host c) (s_host c'))"

definition spends :: "'h state \<Rightarrow> 'h state \<Rightarrow> bool" where
  "spends c c' \<longleftrightarrow> s_gas c' < s_gas c \<or> s_stop c'"

text \<open>
  \<open>holds_back x c c'\<close>: between \<open>c\<close> and \<open>c'\<close> gas was put aside for a nested execution, and giving
  back up to \<open>x\<close> of it leaves less gas than there was at \<open>c\<close>.
\<close>

definition holds_back :: "nat \<Rightarrow> 'h state \<Rightarrow> 'h state \<Rightarrow> bool" where
  "holds_back x c c' \<longleftrightarrow> unat (s_gas c') + x \<le> unat (s_gas c) \<and>
     (\<not> s_stop c' \<longrightarrow> potential c < 2 ^ 64 \<longrightarrow> potential c' + x \<le> potential c)"

text \<open>
  What the builder of a call returns: it stopped the machine, or put aside more gas than the
  callee gets. The callee is one level deeper, static if the caller is, and gets the value \<open>v\<close>.
\<close>

definition call_built :: "byte \<Rightarrow> int option \<Rightarrow> 'h state \<Rightarrow> build \<Rightarrow> 'h state \<Rightarrow> bool" where
  "call_built op v c b c' \<longleftrightarrow> (case b of BuildNone \<Rightarrow> s_stop c'
     | BuildErr co \<Rightarrow> (\<exists>ct. co = Some ct \<and> holds_back (Suc (unat (c_Gas ct))) c c')
     | Build ct _ _ \<Rightarrow> holds_back (Suc (unat (c_Gas ct))) c c' \<and> c_Depth ct = c_Depth (s_msg c) + 1 \<and>
         (c_Static (s_msg c) \<longrightarrow> c_Static ct) \<and> (op = OP_CALL \<longrightarrow> c_Value ct = v) \<and>
         c_Value ct \<in> {None, v, c_Value (s_msg c)})"

text \<open>
  A contract that code in context \<open>st\<close> may start: code running statically starts only static
  calls, and none that creates a contract or transfers value. No value is negative.
\<close>

definition child :: "bool \<Rightarrow> Contract \<Rightarrow> bool" where
  "child st m \<longleftrightarrow> value_ok m \<and> (st \<longrightarrow> c_Static m \<and> c_Type m \<noteq> Create \<and> (c_Type m = Call \<longrightarrow> c_Value m = Some 0))"

lemma unat_transfer_le:
  fixes g l x :: uint64
  assumes "x \<le> g" and "unat g + unat l < 2 ^ 64"
  shows "unat (g - x) + unat (l + x) = unat g + unat l"
proof -
  have "unat x \<le> unat g" using assms(1) unfolding word_le_nat_alt .
  moreover from this have "unat (l + x) = unat l + unat x"
    using assms(2) by (intro unat_add_lem [THEN iffD1]) simp
  moreover have "unat (g - x) = unat g - unat x" using assms(1) by (rule unat_sub)
  ultimately show ?thesis by simp
qed

text \<open>What is shown of every instruction; \<open>free\<close> says that it is registered with no base cost.\<close>

definition inst_ok ::
    "('h \<Rightarrow> bool) \<Rightarrow> ('h \<Rightarrow> 'h \<Rightarrow> bool) \<Rightarrow> bool \<Rightarrow> bool \<Rightarrow> ('h state \<Rightarrow> 'h state outcome) \<Rightarrow> bool" where
  "inst_ok P R st free i \<longleftrightarrow> (\<forall>c c'. (st \<longrightarrow> c_Static (s_msg c)) \<longrightarrow> EIP150 (s_config c) \<longrightarrow> i c = Val c' \<longrightarrow>
     evolves P R c c' \<and> (free \<longrightarrow> spends c c'))"

subsection \<open>The cost of a call\<close>

lemma call_base_cost_bounds:
  assumes "EIP150 (s_config c)"
  shows "unat (call_base_cost H op c addr tv) \<le> 34700"
    and "700 + (if tv then 9000 else 0) \<le> unat (call_base_cost H op c addr tv)"
  using assms by (auto simp: call_base_cost_def Let_def)

lemma call_gas_le:
  assumes "EIP150 (s_config c)" and "call_gas c initialGas cost = Some g"
  shows "unat g \<le> 2 ^ 64 - 2 ^ 57"
proof -
  let ?a = "s_gas c - cost"
  have "unat (?a - ?a div 64) = unat ?a - unat ?a div 64"
    by (subst unat_sub) (simp_all add: word_le_nat_alt unat_div)
  moreover have "unat ?a < 2 ^ 64" by (rule unat_uint64_less)
  ultimately have "unat (?a - ?a div 64) \<le> 2 ^ 64 - 2 ^ 57" by simp
  moreover have "g \<le> ?a - ?a div 64"
    using assms by (auto simp: call_gas_def Let_def not_less split: if_splits)
  ultimately show ?thesis unfolding word_le_nat_alt by linarith
qed

text \<open>After EIP-150 the cost of a call and the gas of the callee never overflow, and what the callee can give back is less than what was paid.\<close>

lemma call_cost_exact:
  assumes "EIP150 (s_config c)" and "call_gas c initialGas (call_base_cost H op c addr tv) = Some g"
  shows "unat (if tv then g + 2300 else g) < unat (call_base_cost H op c addr tv + g)"
proof -
  let ?cost = "call_base_cost H op c addr tv"
  note g = call_gas_le [OF assms] and cost = call_base_cost_bounds [where H = H and op = op and addr = addr and tv = tv, OF assms(1)]
  have "unat ?cost + unat g < 2 ^ 64" using g cost(1) by simp
  then have "unat (?cost + g) = unat ?cost + unat g" by (intro unat_add_lem [THEN iffD1]) simp
  moreover have "unat (g + 2300) = unat g + unat (2300 :: uint64)"
    using g by (intro unat_add_lem [THEN iffD1]) simp
  ultimately show ?thesis using cost(2) by (auto split: if_splits)
qed

subsection \<open>Numbers the machine computes are not negative\<close>

named_theorems nonneg "results that are not negative"

lemma toU256_nonneg [nonneg]: "0 \<le> toU256 x"
  by (simp add: toU256_def tt256_def)

lemma tt256_pos [nonneg]: "0 < tt256"
  by (simp add: tt256_def)

declare SetBytes_nonneg [nonneg]

lemma bool_word_nonneg [nonneg]: "0 \<le> bool_word b"
  by (simp add: bool_word_def)

lemma exp_word_nonneg: "0 \<le> z \<Longrightarrow> 0 \<le> snd (exp_word i d x z)"
  by (induction i d x z rule: exp_word.induct) (simp_all add: Let_def nonneg)

lemma exp_loop_nonneg [nonneg]: "0 \<le> z \<Longrightarrow> 0 \<le> exp_loop ds x z"
proof (induction ds x z rule: exp_loop.induct)
  case (2 d ds x z)
  then show ?case
    using exp_word_nonneg [of z 64 d x] by (cases "exp_word 64 d x z") (simp add: Let_def)
qed simp

subsection \<open>What the machine needs of its host\<close>

locale evm_host =
  fixes H :: "('h, 'z) Host_scheme" and P :: "'h \<Rightarrow> bool" and R :: "'h \<Rightarrow> 'h \<Rightarrow> bool" and st ok :: bool
  assumes R_refl [simp, intro]: "R h h"
    and R_trans [trans]: "R h h' \<Longrightarrow> R h' h'' \<Longrightarrow> R h h''"
    and P_R: "R h h' \<Longrightarrow> P h \<Longrightarrow> P h'"
    and GetBalance_nonneg: "P h \<Longrightarrow> 0 \<le> GetBalance H h a"
    and TxContext_nonneg: "P h \<Longrightarrow> 0 \<le> x_Number (GetTxContext H h) \<and> 0 \<le> x_Timestamp (GetTxContext H h) \<and>
      0 \<le> x_GasLimit (GetTxContext H h)"
    and R_GetCodeSize [simp]: "R h (snd (GetCodeSize H h a))"
    and R_GetCode [simp]: "R h (snd (GetCode H h a))"
    and R_SetStorage: "\<not> st \<Longrightarrow> R h (snd (SetStorage H h a k v cfg))"
    and R_Selfdestruct: "\<not> st \<Longrightarrow> R h (Selfdestruct H h a b)"
    and R_EmitLog: "\<not> st \<Longrightarrow> R h (EmitLog H h a ts bs)"
    and R_Callx: "Callx H h m = Val (r, h') \<Longrightarrow> child st m \<Longrightarrow> R h h'"
    and Callx_gas: "ok \<Longrightarrow> Callx H h m = Val (r, h') \<Longrightarrow> r_GasLeft r \<le> c_Gas m"
begin

abbreviation ev :: "'h state \<Rightarrow> 'h state \<Rightarrow> bool" where
  "ev \<equiv> evolves P R"

lemma ev_refl [simp, intro]: "ev c c"
  by (simp add: evolves_def)

lemma ev_trans [trans]: "ev c c1 \<Longrightarrow> ev c1 c2 \<Longrightarrow> ev c c2"
  unfolding evolves_def by (auto intro: R_trans)

lemma ev_update [simp]:
  "ev c (c\<lparr>s_memory := m\<rparr>)" "ev c (c\<lparr>s_ip := i\<rparr>)"
  "ev c (c\<lparr>s_returnData := d\<rparr>)" "ev c (c\<lparr>s_ret := d\<rparr>)" "ev c (c\<lparr>s_stop := True\<rparr>)"
  "ev c (c\<lparr>s_stop := True, s_err := e\<rparr>)" "ev c (c\<lparr>s_err := e\<rparr>)" "ev c (c\<lparr>s_currentConsumedGas := g\<rparr>)"
  "ev c (c\<lparr>s_ret := d, s_stop := True\<rparr>)" "ev c (c\<lparr>s_ret := d, s_stop := True, s_err := e\<rparr>)"
  by (simp_all add: evolves_def potential_def sane_def)

lemma ev_stack [intro!]:
  assumes "\<forall>v \<in> set (s_stack c). 0 \<le> v \<Longrightarrow> value_ok (s_msg c) \<Longrightarrow> P (s_host c) \<Longrightarrow> \<forall>v \<in> set s. 0 \<le> v"
  shows "ev c (c\<lparr>s_stack := s\<rparr>)" "ev c (c\<lparr>s_stack := s, s_ip := i\<rparr>)"
    "ev c (c\<lparr>s_stack := s, s_stop := True, s_err := e\<rparr>)"
  using assms by (simp_all add: evolves_def potential_def sane_def)

lemma ev_host: "R (s_host c) h \<Longrightarrow> ev c (c\<lparr>s_host := h\<rparr>)"
  by (auto simp: evolves_def potential_def sane_def intro: P_R)

lemma ev_consumeGas:
  assumes "consumeGas c g = (b, c')"
  shows "ev c c'" and "b \<Longrightarrow> unat (s_gas c') = unat (s_gas c) - unat g \<and> g \<le> s_gas c"
    and "\<not> b \<Longrightarrow> s_stop c'"
  using assms
  by (auto simp: consumeGas_def Let_def exit_def evolves_def potential_def sane_def unat_sub word_sub_le_iff not_less
      split: if_splits)

lemma ev_lastGasCost:
  assumes "consumeGas (c\<lparr>s_lastGasCost := new\<rparr>) (new - s_lastGasCost c) = (True, c')"
  shows "ev c c'"
proof -
  define cost where "cost = new - s_lastGasCost c"
  have new: "new = s_lastGasCost c + cost" by (simp add: cost_def)
  have le: "cost \<le> s_gas c"
    and c': "c' = c\<lparr>s_lastGasCost := s_lastGasCost c + cost,
      s_currentConsumedGas := s_currentConsumedGas c + cost, s_gas := s_gas c - cost\<rparr>"
    using assms unfolding cost_def [symmetric] unfolding new
    by (auto simp: consumeGas_def Let_def exit_def split: if_splits)
  show ?thesis
    using unat_transfer_le [OF le, of "s_lastGasCost c"] word_sub_le [OF le] by (simp add: c' evolves_def potential_def sane_def)
qed

lemma ev_lastGasCost_fail:
  "consumeGas (c\<lparr>s_lastGasCost := n\<rparr>) g = (False, c') \<Longrightarrow> ev c (exit c' e)"
  by (auto simp: consumeGas_def Let_def exit_def evolves_def sane_def split: if_splits)

lemma ev_allocateMemory_grow:
  "consumeGas (c\<lparr>s_lastGasCost := new\<rparr>) (new - s_lastGasCost c) = (True, c') \<Longrightarrow> ev c (c'\<lparr>s_memory := m\<rparr>)"
  by (rule ev_trans [OF ev_lastGasCost ev_update(1)])

lemma ev_allocateMemory:
  assumes "allocateMemory c offset sz = (b, c')"
  shows "ev c c' \<and> (\<not> b \<longrightarrow> s_stop c')"
proof -
  let ?w = "(Uint64 offset + Uint64 sz + 31) div 32"
  let ?new = "3 * ?w + ?w * ?w div 512"
  obtain b1 c1 where g: "consumeGas (c\<lparr>s_lastGasCost := ?new\<rparr>) (?new - s_lastGasCost c) = (b1, c1)"
    by (cases "consumeGas (c\<lparr>s_lastGasCost := ?new\<rparr>) (?new - s_lastGasCost c)")
  have "(b, c') = (True, c) \<or> (b, c') = (False, exit c errGasUintOverflow) \<or>
    (b, c') = (False, exit c1 ErrOutOfGas) \<and> \<not> b1 \<or>
    (b, c') = (True, c1\<lparr>s_memory := extendByteSlice (s_memory c1) (unat (?w * 32))\<rparr>) \<and> b1"
    unfolding assms [symmetric] allocateMemory_def Let_def g by (cases b1) simp_all
  then consider "b" "c' = c" | "\<not> b" "c' = exit c errGasUintOverflow"
    | "\<not> b" "c' = exit c1 ErrOutOfGas" "b1 = False"
    | "b" "c' = c1\<lparr>s_memory := extendByteSlice (s_memory c1) (unat (?w * 32))\<rparr>" "b1 = True"
    by fastforce
  then show ?thesis
  proof cases
    case 3
    then show ?thesis using ev_lastGasCost_fail [OF g [unfolded 3(3)]] by (simp add: exit_def)
  next
    case 4
    then show ?thesis using ev_allocateMemory_grow [OF g [unfolded 4(3)]] by simp
  qed (simp_all add: exit_def)
qed

lemma ev_get2:
  assumes "get2 c offset l = Some (r, c')"
  shows "ev c c' \<and> (r = None \<longrightarrow> s_stop c')"
proof (cases "allocateMemory c offset l")
  case (Pair b c1)
  then show ?thesis
    using assms ev_allocateMemory [OF Pair]
    by (auto simp: get2_def Let_def split: if_split_asm bool.split_asm option.split_asm)
qed

subsection \<open>Instructions\<close>

lemma ev_withGas:
  assumes "withGas c0 g k = Some c'" and "ev c c0"
    and "\<And>c1. ev c0 c1 \<Longrightarrow> k c1 = Some c' \<Longrightarrow> ev c1 c'"
  shows "ev c c'"
proof (cases "consumeGas c0 g")
  case (Pair b c1)
  have "ev c0 c1" using Pair by (rule ev_consumeGas)
  moreover have "ev c1 c'" using assms(1,3) Pair \<open>ev c0 c1\<close> by (cases b) (simp_all add: tryGas_def)
  ultimately show ?thesis using assms(2) by (blast intro: ev_trans)
qed

lemma ev_withMemory:
  assumes "withMemory c0 offset l k = Some c'" and "ev c c0"
    and "\<And>c1. ev c0 c1 \<Longrightarrow> k c1 = Some c' \<Longrightarrow> ev c1 c'"
  shows "ev c c'"
proof (cases "allocateMemory c0 offset l")
  case (Pair b c1)
  have "ev c0 c1" using ev_allocateMemory [OF Pair] by simp
  moreover have "ev c1 c'" using assms(1,3) Pair \<open>ev c0 c1\<close> by (cases b) (simp_all add: tryMemory_def)
  ultimately show ?thesis using assms(2) by (blast intro: ev_trans)
qed

lemma ev_withGet2:
  assumes "withGet2 c0 offset l k = Some c'" and "ev c c0"
    and "\<And>bs c1. ev c0 c1 \<Longrightarrow> k bs c1 = Some c' \<Longrightarrow> ev c1 c'"
  shows "ev c c'"
proof (cases "get2 c0 offset l")
  case None
  then show ?thesis using assms(1) by (simp add: tryGet2_def)
next
  case (Some p)
  obtain r c1 where p: "p = (r, c1)" by (cases p)
  have "ev c0 c1" using ev_get2 [OF Some [unfolded p]] by simp
  moreover have "ev c1 c'" using assms(1,3) Some p \<open>ev c0 c1\<close> by (cases r) (simp_all add: tryGet2_def)
  ultimately show ?thesis using assms(2) by (blast intro: ev_trans)
qed

lemmas ev_elims = ev_withGas ev_withMemory ev_withGet2

lemma in_set_tl: "v \<in> set (tl xs) \<Longrightarrow> v \<in> set xs"
  by (cases xs) auto

lemmas ev_splits = if_splits option.splits prod.splits list.splits option_bind_splits

lemma ev_arith:
  "opAdd c = Some c' \<Longrightarrow> ev c c'"
  "opMul c = Some c' \<Longrightarrow> ev c c'"
  "opSub c = Some c' \<Longrightarrow> ev c c'"
  "opDiv c = Some c' \<Longrightarrow> ev c c'"
  "opSDiv c = Some c' \<Longrightarrow> ev c c'"
  "opMod c = Some c' \<Longrightarrow> ev c c'"
  "opSMod c = Some c' \<Longrightarrow> ev c c'"
  "opExp c = Some c' \<Longrightarrow> ev c c'"
  "opAddMod c = Some c' \<Longrightarrow> ev c c'"
  "opMulMod c = Some c' \<Longrightarrow> ev c c'"
  "opAnd c = Some c' \<Longrightarrow> ev c c'"
  "opOr c = Some c' \<Longrightarrow> ev c c'"
  "opXor c = Some c' \<Longrightarrow> ev c c'"
  "opByte c = Some c' \<Longrightarrow> ev c c'"
  "opNot c = Some c' \<Longrightarrow> ev c c'"
  "opIsZero c = Some c' \<Longrightarrow> ev c c'"
  "opEq c = Some c' \<Longrightarrow> ev c c'"
  "opLt c = Some c' \<Longrightarrow> ev c c'"
  "opGt c = Some c' \<Longrightarrow> ev c c'"
  "opSlt c = Some c' \<Longrightarrow> ev c c'"
  "opSgt c = Some c' \<Longrightarrow> ev c c'"
  "opSignExtension c = Some c' \<Longrightarrow> ev c c'"
  "opShl c = Some c' \<Longrightarrow> ev c c'"
  "opShr c = Some c' \<Longrightarrow> ev c c'"
  "opSar c = Some c' \<Longrightarrow> ev c c'"
  by (auto simp: op_defs evm_defs nonneg Let_def split: ev_splits elim!: ev_elims dest!: in_set_tl)

lemma ev_memory:
  "opMload c = Some c' \<Longrightarrow> ev c c'"
  "opMStore c = Some c' \<Longrightarrow> ev c c'"
  "opMStore8 c = Some c' \<Longrightarrow> ev c c'"
  "opSload H c = Some c' \<Longrightarrow> ev c c'"
  "opSha3 L c = Some c' \<Longrightarrow> ev c c'"
  "opPop c = Some c' \<Longrightarrow> ev c c'"
  by (auto simp: op_defs evm_defs nonneg Let_def split: ev_splits elim!: ev_elims dest!: in_set_tl)

lemmas host_nonneg = GetBalance_nonneg TxContext_nonneg

lemma ev_context:
  "opAddress c = Some c' \<Longrightarrow> ev c c'"
  "opBalance H c = Some c' \<Longrightarrow> ev c c'"
  "opSelfBalance H c = Some c' \<Longrightarrow> ev c c'"
  "opChainID H c = Some c' \<Longrightarrow> ev c c'"
  "opOrigin H c = Some c' \<Longrightarrow> ev c c'"
  "opCaller c = Some c' \<Longrightarrow> ev c c'"
  "opCallValue c = Some c' \<Longrightarrow> ev c c'"
  "opCallDataLoad c = Some c' \<Longrightarrow> ev c c'"
  "opCallDataSize c = Some c' \<Longrightarrow> ev c c'"
  "opCodeSize c = Some c' \<Longrightarrow> ev c c'"
  "opGasPrice H c = Some c' \<Longrightarrow> ev c c'"
  "opReturnDataSize c = Some c' \<Longrightarrow> ev c c'"
  "opExtCodeHash H c = Some c' \<Longrightarrow> ev c c'"
  "opPC c = Some c' \<Longrightarrow> ev c c'"
  "opMSize c = Some c' \<Longrightarrow> ev c c'"
  "opGas c = Some c' \<Longrightarrow> ev c c'"
  "opBlockHash H c = Some c' \<Longrightarrow> ev c c'"
  "opCoinbase H c = Some c' \<Longrightarrow> ev c c'"
  "opTimestamp H c = Some c' \<Longrightarrow> ev c c'"
  "opNumber H c = Some c' \<Longrightarrow> ev c c'"
  "opDifficulty H c = Some c' \<Longrightarrow> ev c c'"
  "opGasLimit H c = Some c' \<Longrightarrow> ev c c'"
  by (auto simp: op_defs evm_defs nonneg host_nonneg value_ok_def Let_def split: ev_splits elim!: ev_elims dest!: in_set_tl)

lemma ev_copy:
  "opCallDataCopy c = Some c' \<Longrightarrow> ev c c'"
  "opReturnDataCopy c = Some c' \<Longrightarrow> ev c c'"
  "opCodeCopy c = Some c' \<Longrightarrow> ev c c'"
  by (auto simp: op_defs evm_defs nonneg Let_def setMemory_def split: ev_splits elim!: ev_elims dest!: in_set_tl)

lemma set_swap_0: "n < length xs \<Longrightarrow> set (xs[0 := xs ! n, n := xs ! 0]) = set xs"
  by (rule set_swap) auto

lemma ev_control:
  "opJump c = Some c' \<Longrightarrow> ev c c'"
  "opJumpi c = Some c' \<Longrightarrow> ev c c'"
  "opJumpDest c = Some c' \<Longrightarrow> ev c c'"
  "opPush n c = Some c' \<Longrightarrow> ev c c'"
  "opDup n c = Some c' \<Longrightarrow> ev c c'"
  "opSwap n c = Some c' \<Longrightarrow> ev c c'"
  "opStop c = Some c' \<Longrightarrow> ev c c'"
  by (auto simp: op_defs evm_defs nonneg set_swap_0 Suc_le_eq Let_def split: ev_splits elim!: ev_elims dest!: in_set_tl)

lemma ev_host_update:
  assumes "R (s_host c) h"
  shows "ev c (c\<lparr>s_host := h, s_memory := m\<rparr>)" and "ev c (c\<lparr>s_host := h, s_stop := True\<rparr>)"
    and "0 \<le> v \<Longrightarrow> ev c (c\<lparr>s_host := h, s_stack := v # s_stack c\<rparr>)"
  using assms P_R [OF assms] by (auto simp: evolves_def potential_def sane_def)

lemma R_code [simp]:
  "GetCodeSize H h a = (n, h') \<Longrightarrow> R h h'" "GetCode H h a = (bs, h') \<Longrightarrow> R h h'"
  using R_GetCodeSize [of h a] R_GetCode [of h a] by simp_all

lemma ev_ext:
  "opExtCodeSize H c = Some c' \<Longrightarrow> ev c c'"
  "opExtCodeCopy H c = Some c' \<Longrightarrow> ev c c'"
  by (auto simp: op_defs evm_defs Let_def setMemory_def ev_host ev_host_update split: ev_splits elim!: ev_elims)

lemma ev_drop: "s_stack c = v # xs \<Longrightarrow> ev c (c\<lparr>s_stack := xs\<rparr>)"
  "s_stack c = v # w # xs \<Longrightarrow> ev c (c\<lparr>s_stack := xs\<rparr>)"
  by auto

lemma ev_popTopics: "popTopics n c = Some (ts, c') \<Longrightarrow> ev c c'"
proof (induction n arbitrary: c ts)
  case (Suc n)
  then show ?case
    by (auto simp: evm_defs split: ev_splits intro: ev_trans [OF ev_drop(1)])
qed simp

lemma ev_opHalt: "opHalt op c = Some c' \<Longrightarrow> ev c c' \<and> s_stop c'"
  by (auto simp: op_defs evm_defs Let_def split: ev_splits dest!: ev_get2
      intro: ev_trans [OF ev_trans [OF ev_drop(2)]] ev_trans [OF ev_drop(2)])

lemma ev_static_msg: "ev c c' \<Longrightarrow> c_Static (s_msg c') = c_Static (s_msg c)"
  by (simp add: evolves_def)

lemma R_SetStorage': "SetStorage H h a k v cfg = (x, h') \<Longrightarrow> \<not> st \<Longrightarrow> R h h'"
  using R_SetStorage [of h a k v cfg] by simp

lemma ev_drop_host: "s_stack c = v # w # xs \<Longrightarrow> R (s_host c) h \<Longrightarrow> ev c (c\<lparr>s_stack := xs, s_host := h\<rparr>)"
  using P_R [of "s_host c" h] by (auto simp: evolves_def potential_def sane_def)

lemma ev_opSStore:
  assumes "st \<longrightarrow> c_Static (s_msg c)" and "opSStore H c = Some c'"
  shows "ev c c'"
  using assms
  by (auto simp: op_defs evm_defs Let_def split: ev_splits elim!: ev_withGas
      dest!: R_SetStorage' intro: ev_drop_host)

lemma ev_opSelfDestruct:
  assumes "st \<longrightarrow> c_Static (s_msg c)" and "opSelfDestruct H c = Some c'"
  shows "ev c c' \<and> s_stop c'"
proof -
  have "ev c c'" using assms
    by (auto simp: op_defs evm_defs Let_def split: ev_splits elim!: ev_withGas
        intro!: ev_host_update(2) R_Selfdestruct)
  moreover have "s_stop c'" using assms
    by (auto simp: op_defs evm_defs Let_def tryGas_def split: ev_splits bool.splits dest: ev_consumeGas(3))
  ultimately show ?thesis ..
qed

lemma ev_opLog:
  assumes "st \<longrightarrow> c_Static (s_msg c)" and "opLog H n c = Some c'"
  shows "ev c c'"
proof -
  have log: "withGet2 c1 a b (\<lambda>bs c. withGas (c\<lparr>s_host := EmitLog H (s_host c) (c_Address (s_msg c)) ts bs\<rparr>) g
       (\<lambda>c. withGas c g' Some)) = Some c' \<Longrightarrow> \<not> st \<Longrightarrow> ev c1 c'" for c1 a b ts g g'
    by (auto elim!: ev_elims intro!: ev_host R_EmitLog)
  show ?thesis using assms
    by (auto simp: op_defs evm_defs Let_def split: ev_splits
        dest!: ev_popTopics log intro: ev_trans [OF ev_trans [OF ev_drop(2)]])
qed

subsection \<open>Instructions registered with no base cost\<close>

lemma ev_spends: "ev c c1 \<Longrightarrow> spends c1 c' \<Longrightarrow> spends c c'"
  and spends_ev: "spends c c1 \<Longrightarrow> ev c1 c' \<Longrightarrow> spends c c'"
  by (auto simp: evolves_def spends_def)

lemma consumeGas_spends:
  assumes "consumeGas (c :: 'h state) g = (b, c')" and "0 < g"
  shows "spends c c'"
proof -
  have "unat g \<le> unat (s_gas c)" "0 < unat g" if b
    using ev_consumeGas(2) [OF assms(1)] that assms(2) by (simp_all add: word_le_nat_alt word_less_nat_alt)
  then show ?thesis using ev_consumeGas(2,3) [OF assms(1)]
    by (cases b) (simp_all add: spends_def word_less_nat_alt)
qed

lemma spends_withGas:
  assumes "withGas c0 g k = Some c'" and "ev c c0" and "0 < g" and "\<And>c1. k c1 = Some c' \<Longrightarrow> ev c1 c'"
  shows "spends c c'"
proof (cases "consumeGas c0 g")
  case (Pair b c1)
  have "ev c1 c'" using assms(1,4) Pair by (cases b) (auto simp: tryGas_def)
  with consumeGas_spends [OF Pair assms(3)] assms(2) show ?thesis
    by (blast intro: ev_spends spends_ev)
qed

lemma spends_withGas2:
  assumes "withGas c0 g (\<lambda>c. withGas c (g' c) k) = Some c'" and "ev c c0"
    and "\<And>c1. 0 < g' c1" and "\<And>c1. k c1 = Some c' \<Longrightarrow> ev c1 c'"
  shows "spends c c'"
proof (cases "consumeGas c0 g")
  case (Pair b c1)
  have "ev c0 c1" using Pair by (rule ev_consumeGas)
  moreover have "spends c1 c'"
    using assms(1) Pair ev_consumeGas(3) [OF Pair] spends_withGas [OF _ ev_refl assms(3) assms(4)]
    by (cases b) (simp_all add: tryGas_def [of c0] spends_def)
  ultimately show ?thesis using assms(2) by (blast intro: ev_spends ev_trans)
qed

lemma spends_withMemory:
  assumes "withMemory c0 offset l k = Some c'" and "ev c c0"
    and "\<And>c1. ev c0 c1 \<Longrightarrow> k c1 = Some c' \<Longrightarrow> spends c1 c'"
  shows "spends c c'"
proof (cases "allocateMemory c0 offset l")
  case (Pair b c1)
  have "ev c0 c1" using ev_allocateMemory [OF Pair] by simp
  moreover have "spends c1 c'"
    using assms(1,3) Pair \<open>ev c0 c1\<close> ev_allocateMemory [OF Pair] by (cases b) (auto simp: tryMemory_def spends_def)
  ultimately show ?thesis using assms(2) by (blast intro: ev_spends ev_trans)
qed

lemma sstore_cost_pos: "0 < sstore_cost cfg status"
  by (cases status) simp_all

lemma spends_exit [simp]: "spends c (c0\<lparr>s_stop := True, s_err := e\<rparr>)"
  by (simp add: spends_def)

lemma spends_zero_cost:
  "opSload H c = Some c' \<Longrightarrow> spends c c'"
  "opBalance H c = Some c' \<Longrightarrow> spends c c'"
  "opExtCodeSize H c = Some c' \<Longrightarrow> spends c c'"
  "opExtCodeHash H c = Some c' \<Longrightarrow> spends c c'"
  by (auto simp: op_defs evm_defs nonneg host_nonneg ev_host_update Let_def split: ev_splits
      elim!: spends_withGas dest!: in_set_tl)

lemma spends_opSStore:
  assumes "st \<longrightarrow> c_Static (s_msg c)" and "opSStore H c = Some c'"
  shows "spends c c'"
  using assms by (auto simp: op_defs evm_defs Let_def sstore_cost_pos split: ev_splits elim!: spends_withGas
      dest!: R_SetStorage' intro: ev_drop_host)

lemma spends_opExtCodeCopy:
  "opExtCodeCopy H c = Some c' \<Longrightarrow> spends c c'"
  by (auto simp: op_defs evm_defs Let_def setMemory_def split: ev_splits
      elim!: spends_withMemory spends_withGas2 intro!: ev_host ev_host_update)

subsection \<open>Nested executions\<close>

lemma holds_back_ev: "ev c c1 \<Longrightarrow> ev c1 c' \<Longrightarrow> holds_back x c1 c' \<Longrightarrow> holds_back x c c'"
  by (auto simp: evolves_def holds_back_def word_le_nat_alt)

lemma give_back:
  assumes "ev c c1" and "holds_back x c c1" and le: "unat y \<le> x"
    and rel: "sane P c \<Longrightarrow> R (s_host c1) (s_host c2)" and stack: "\<forall>v \<in> set (s_stack c1). 0 \<le> v \<Longrightarrow> \<forall>v \<in> set (s_stack c2). 0 \<le> v"
    and c2: "s_msg c2 = s_msg c1" "s_code c2 = s_code c1" "s_config c2 = s_config c1" "s_bitmap c2 = s_bitmap c1"
      "s_stop c2 = s_stop c1" "s_lastGasCost c2 = s_lastGasCost c1" "s_gas c2 = s_gas c1 + y"
  shows "ev c c2" and "unat y < x \<Longrightarrow> spends c c2"
proof -
  have sum: "unat (s_gas c1) + x \<le> unat (s_gas c)" using assms(2) by (simp add: holds_back_def)
  then have "unat (s_gas c1) + unat y < 2 ^ 64"
    using le unat_uint64_less [of "s_gas c"] by linarith
  then have u: "unat (s_gas c2) = unat (s_gas c1) + unat y"
    unfolding c2 by (intro unat_add_lem [THEN iffD1]) simp
  with le assms(2) have "potential c2 \<le> potential c" if "\<not> s_stop c2" "potential c < 2 ^ 64"
    using that c2 by (simp add: holds_back_def potential_def)
  moreover have "sane P c2 \<and> R (s_host c) (s_host c2)" if "sane P c"
  proof -
    have "sane P c1" "R (s_host c) (s_host c1)" using that assms(1) by (simp_all add: evolves_def)
    with rel [OF that] show ?thesis using stack c2(1) P_R [OF rel [OF that]] by (auto simp: sane_def intro: R_trans)
  qed
  ultimately show "ev c c2" using assms(1) c2 u sum le by (simp add: evolves_def word_le_nat_alt)
  show "spends c c2" if "unat y < x" using that u sum by (simp add: spends_def word_less_nat_alt)
qed

lemma holds_back_consumeGas:
  assumes "consumeGas c g = (True, c')" and "x \<le> unat g"
  shows "holds_back x c c'"
proof -
  have "g \<le> s_gas c" and c': "c' = c\<lparr>s_currentConsumedGas := s_currentConsumedGas c + g, s_gas := s_gas c - g\<rparr>"
    using assms(1) by (auto simp: consumeGas_def Let_def exit_def split: if_splits)
  then have "unat g \<le> unat (s_gas c)" "unat (s_gas c') = unat (s_gas c) - unat g"
    by (simp_all add: word_le_nat_alt unat_sub)
  then show ?thesis using assms(2) c' by (auto simp: holds_back_def potential_def)
qed

lemma consumeGas_facts:
  "consumeGas c g = (b, c') \<Longrightarrow> ev c c' \<and> (b \<longrightarrow> (\<forall>x \<le> unat g. holds_back x c c'))"
  using ev_consumeGas(1) [of c g b c'] holds_back_consumeGas [of c g c'] by auto

lemma popv_bindE:
  assumes "popv c \<bind> f = Some r"
  obtains v c1 where "s_stack c = v # s_stack c1" "ev c c1" "s_msg c1 = s_msg c" "f (v, c1) = Some r"
proof (cases "s_stack c")
  case (Cons v s)
  then show ?thesis using assms by (intro that [of v "c\<lparr>s_stack := s\<rparr>"]) (auto simp: evm_defs)
qed (use assms in \<open>simp add: evm_defs\<close>)

lemma ev_msg: "ev c c' \<Longrightarrow> s_msg c' = s_msg c \<and> s_config c' = s_config c"
  by (simp add: evolves_def)

lemma tryGet2E:
  assumes "tryGet2 c offset l f k = r"
  obtains "r = None" | c1 where "ev c c1" "s_stop c1" "f c1 = r"
  | bs c1 where "ev c c1" "s_msg c1 = s_msg c" "s_config c1 = s_config c" "k bs c1 = r"
proof (cases "get2 c offset l")
  case (Some p)
  then show ?thesis
    using assms ev_get2 [of c offset l "fst p" "snd p"] that ev_msg
    by (cases p; cases "fst p") (auto simp: tryGet2_def)
qed (use assms that(1) in \<open>simp add: tryGet2_def\<close>)

lemma tryMemoryE:
  assumes "tryMemory c offset l f k = r"
  obtains c1 where "ev c c1" "s_stop c1" "f c1 = r"
  | c1 where "ev c c1" "s_msg c1 = s_msg c" "s_config c1 = s_config c" "k c1 = r"
  using assms ev_allocateMemory [of c offset l] that ev_msg
  by (cases "allocateMemory c offset l"; cases "fst (allocateMemory c offset l)") (auto simp: tryMemory_def)

lemma tryGasE:
  assumes "tryGas c g f k = r"
  obtains c1 where "ev c c1" "s_stop c1" "f c1 = r"
  | c1 where "ev c c1" "s_msg c1 = s_msg c" "s_config c1 = s_config c" "\<And>x. x \<le> unat g \<Longrightarrow> holds_back x c c1" "k c1 = r"
  using assms ev_consumeGas(3) [of c g] consumeGas_facts [of c g] ev_msg
  by (cases "consumeGas c g"; cases "fst (consumeGas c g)") (auto simp: tryGas_def)

lemma popSalt_bindE:
  assumes "popSalt op c \<bind> f = Some r"
  obtains v c1 where "ev c c1" "s_msg c1 = s_msg c" "f (v, c1) = Some r"
  using assms popv_bindE [of c f r] by (auto simp: popSalt_def split: if_splits)

lemma finish_create:
  assumes "finishCreate H L op val salt input c = Some (b, c')"
  shows "ev c c' \<and> (case b of BuildNone \<Rightarrow> True | BuildErr co \<Rightarrow> co = None
    | Build ct _ _ \<Rightarrow> holds_back (unat (c_Gas ct)) c c' \<and> c_Depth ct = c_Depth (s_msg c) + 1 \<and> c_Value ct = Some val)"
  using assms unfolding finishCreate_def Let_def
  by (auto simp: NewContract_defs elim!: tryGasE)

lemma build_create:
  assumes "buildCreateContract H L op c = Some (b, c')"
  shows "ev c c' \<and> (case b of BuildNone \<Rightarrow> True | BuildErr co \<Rightarrow> co = None
    | Build ct _ _ \<Rightarrow> holds_back (unat (c_Gas ct)) c c' \<and> c_Depth ct = c_Depth (s_msg c) + 1 \<and>
        (\<exists>v \<in> set (s_stack c). c_Value ct = Some v))"
  using assms unfolding buildCreateContract_def Let_def
  by (auto dest!: finish_create split: if_split_asm build.splits elim!: popv_bindE popSalt_bindE tryGet2E tryGasE;
      meson ev_trans holds_back_ev)

lemma popCallArgs_facts:
  assumes "popCallArgs op c = Some (a, c')"
  shows "ev c c'" and "op = OP_CALL \<Longrightarrow> a_value a = peekAt c 3" and "a_value a = None \<or> a_value a = peekAt c 3"
  using assms by (auto simp: evm_defs Let_def split: ev_splits)

lemma call_contract_simps [simp]:
  "c_Gas (call_contract op m addr val g cd args) = g"
  "c_Depth (call_contract op m addr val g cd args) = c_Depth m + 1"
  "c_Static m \<Longrightarrow> c_Static (call_contract op m addr val g cd args)"
  "op = OP_CALL \<Longrightarrow> c_Value (call_contract op m addr val g cd args) = val"
  "c_Value (call_contract op m addr val g cd args) = (if op = OP_DELEGATECALL then c_Value m else val)"
  by (auto simp: call_contract_def Let_def NewContract_defs)

lemma holds_back_host: "holds_back x c (c1\<lparr>s_host := h\<rparr>) \<longleftrightarrow> holds_back x c c1"
  by (simp add: holds_back_def potential_def)

lemma ev_GetCode:
  "ev c c1 \<Longrightarrow> GetCode H (s_host c1) a = (cd, h) \<Longrightarrow> ev c (c1\<lparr>s_host := h\<rparr>)"
  by (rule ev_trans [OF _ ev_host]) simp_all

lemma finish_call:
  assumes "finishCall H op a args c = Some (b, c')" and eip: "EIP150 (s_config c)"
  shows "ev c c' \<and> call_built op (a_value a) c b c'"
proof -
  obtain tv where tv: "tv = ((op = OP_CALL \<or> op = OP_CALLCODE) \<and> a_value a \<noteq> None \<and> a_value a \<noteq> Some 0)" by simp
  let ?cost = "call_base_cost H op c (a_addr a) tv"
  obtain g where g: "call_gas c (a_gas a) ?cost = Some g"
    using eip by (cases "call_gas c (a_gas a) ?cost") (auto simp: call_gas_def Let_def split: if_splits)
  show ?thesis
    using assms(1) call_cost_exact [OF eip g] unfolding finishCall_def Let_def tv [symmetric] g option.case
    by (cases tv; elim tryGasE)
      (auto simp: call_built_def ev_GetCode holds_back_host Suc_le_eq split: prod.split_asm if_split_asm)
qed

lemma call_built_ev: "ev c c1 \<Longrightarrow> ev c1 c' \<Longrightarrow> call_built op v c1 b c' \<Longrightarrow> call_built op v c b c'"
  using ev_msg [of c c1] by (auto simp: call_built_def intro: holds_back_ev split: build.splits)

lemma build_call:
  assumes "buildCallContract H op c = Some (b, c')" and eip: "EIP150 (s_config c)"
  shows "ev c c' \<and> call_built op (peekAt c 3) c b c'"
proof -
  obtain a c1 where pop: "popCallArgs op c = Some (a, c1)"
    and rest: "tryGet2 c1 (a_inOffset a) (a_inSize a) (\<lambda>c. Some (BuildNone, c)) (\<lambda>args c.
         tryMemory c (a_retOffset a) (a_retSize a) (\<lambda>c. Some (BuildNone, c)) (finishCall H op a args)) = Some (b, c')"
    using assms(1) by (auto simp: buildCallContract_def Let_def split: option_bind_splits prod.splits)
  note c1 = popCallArgs_facts [OF pop]
  have "ev c1 c' \<and> call_built op (a_value a) c1 b c'"
    using rest
  proof (elim tryGet2E tryMemoryE)
    fix bs c2 c3
    assume "ev c1 c2" "ev c2 c3" and fin: "finishCall H op a bs c3 = Some (b, c')"
    then have "ev c1 c3" by (blast intro: ev_trans)
    moreover from this have "EIP150 (s_config c3)" using c1(1) eip ev_msg by auto
    ultimately show ?thesis using finish_call [OF fin] call_built_ev ev_trans by blast
  qed (auto simp: call_built_def intro: ev_trans)
  with c1 have "ev c c'" "call_built op (a_value a) c b c'"
    by (blast intro: ev_trans call_built_ev)+
  with c1(2,3) show ?thesis by (auto simp: call_built_def split: build.splits)
qed

lemma give_back_after:
  assumes "ev c c1" and "holds_back x c c1" and "unat y \<le> x" and "sane P c \<Longrightarrow> R (s_host c1) h" and "0 \<le> v"
  shows "ev c (c1\<lparr>s_host := h, s_stack := v # s_stack c1, s_gas := s_gas c1 + y, s_returnData := d\<rparr>)"
    and "ev c (c1\<lparr>s_host := h, s_stack := v # s_stack c1, s_gas := s_gas c1 + y\<rparr>)"
    and "ev c (c1\<lparr>s_host := h, s_stack := v # s_stack c1, s_memory := m, s_gas := s_gas c1 + y, s_returnData := d\<rparr>)"
    and "ev c (c1\<lparr>s_stack := v # s_stack c1, s_gas := s_gas c1 + y\<rparr>)"
    and "unat y < x \<Longrightarrow> spends c (c1\<lparr>s_host := h, s_stack := v # s_stack c1, s_gas := s_gas c1 + y, s_returnData := d\<rparr>)"
    and "unat y < x \<Longrightarrow> spends c (c1\<lparr>s_host := h, s_stack := v # s_stack c1, s_memory := m, s_gas := s_gas c1 + y, s_returnData := d\<rparr>)"
    and "unat y < x \<Longrightarrow> spends c (c1\<lparr>s_stack := v # s_stack c1, s_gas := s_gas c1 + y\<rparr>)"
  by (rule give_back [OF assms(1,2,3)]; use assms(4,5) in simp)+

lemma ev_opCreate:
  assumes st: "st \<longrightarrow> c_Static (s_msg c)" and "opCreate H L op c = Val c'" and ok
  shows "ev c c'"
proof (cases "inStaticCall c \<or> op = OP_CREATE2 \<and> \<not> Constantinople (s_config c)")
  case True
  then show ?thesis using assms(2) by (auto simp: opCreate_def exit_def split: if_splits)
next
  case False
  then have nst: "\<not> st" using st by (simp add: inStaticCall_def)
  obtain b c1 where b: "buildCreateContract H L op (resetReturnData c) = Some (b, c1)"
    using assms(2) False by (cases "buildCreateContract H L op (resetReturnData c)") (auto simp: opCreate_def)
  have "ev c c1" and hold: "case b of BuildNone \<Rightarrow> True | BuildErr co \<Rightarrow> co = None
      | Build ct _ _ \<Rightarrow> holds_back (unat (c_Gas ct)) c c1 \<and> (\<exists>v \<in> set (s_stack c). c_Value ct = Some v)"
    using build_create [OF b]
    by (auto simp: resetReturnData_def evolves_def holds_back_def potential_def sane_def split: build.splits)
  show ?thesis
  proof (cases b)
    case (Build ct x y)
    let ?ct = "ct\<lparr>c_Type := Create\<rparr>"
    obtain r h where call: "Callx H (s_host c1) ?ct = Val (r, h)" and c': "c' = create_done op ct r (c1\<lparr>s_host := h\<rparr>)"
      using assms(2) False b Build by (cases "Callx H (s_host c1) ?ct") (auto simp: opCreate_def Let_def)
    have "unat (r_GasLeft r) \<le> unat (c_Gas ct)" using Callx_gas [OF \<open>ok\<close> call] by (simp add: word_le_nat_alt)
    moreover have "R (s_host c1) h" if "sane P c"
      using R_Callx [OF call] nst hold Build that by (auto simp: child_def value_ok_def sane_def)
    ultimately show ?thesis
      using give_back_after(1,2) [OF \<open>ev c c1\<close>, of "unat (c_Gas ct)" "r_GasLeft r" h] hold Build
      by (simp add: c' create_done_def Let_def push_def nonneg)
  qed (use assms(2) False b hold \<open>ev c c1\<close> ev_trans [OF \<open>ev c c1\<close> ev_stack(1) [of c1 "0 # s_stack c1"]] in
      \<open>auto simp: opCreate_def Let_def push_def build_failed_def\<close>)
qed

lemma ev_opCall:
  assumes st: "st \<longrightarrow> c_Static (s_msg c)" and eip: "EIP150 (s_config c)" and "opCall H L op c = Val c'" and ok
  shows "ev c c' \<and> spends c c'"
proof -
  define c0 where "c0 = resetReturnData c"
  have c0: "ev c c0" "s_msg c0 = s_msg c" "s_config c0 = s_config c" "s_gas c0 = s_gas c"
    by (simp_all add: c0_def resetReturnData_def)
  show ?thesis
  proof (cases "op = OP_CALL \<and> inStaticCall c0 \<and> BitLen (the (peekAt c0 3)) > 0 \<or>
      op = OP_DELEGATECALL \<and> \<not> Homestead (s_config c0) \<or> op = OP_STATICCALL \<and> \<not> Byzantium (s_config c0)")
    case True
    then have "\<exists>e. c' = exit c0 e" using assms(3)
      by (auto simp: opCall_def Let_def c0_def [symmetric] split: if_split_asm)
    then show ?thesis using ev_trans [OF c0(1) ev_update(6)] by (auto simp: exit_def)
  next
    case False
    then have guard: "op = OP_CALL \<longrightarrow> inStaticCall c0 \<longrightarrow> peekAt c0 3 = Some 0" and run: "(case callType op of None \<Rightarrow> Panic | Some ty \<Rightarrow>
        obind (of_option (buildCallContract H op c0)) (\<lambda>(b, c). case b of
          BuildErr co \<Rightarrow> Val (build_failed co c)
        | BuildNone \<Rightarrow> Val c
        | Build ct offset sz \<Rightarrow>
            obind (Callx H (s_host c) (ct\<lparr>c_Type := ty\<rparr>)) (\<lambda>(result, h).
              of_option (call_done L offset sz result (c\<lparr>s_host := h\<rparr>))))) = Val c'"
      using assms(3) unfolding opCall_def Let_def c0_def [symmetric]
      by (auto simp: BitLen_pos_iff split: if_split_asm option.split_asm)
    from run obtain ty b c1 where ty: "callType op = Some ty" and b: "buildCallContract H op c0 = Some (b, c1)"
      by (cases "callType op"; cases "buildCallContract H op c0") auto
    from build_call [OF b] eip c0 have ev1: "ev c c1" and "call_built op (peekAt c0 3) c0 b c1"
      using ev_trans by auto
    then have hold: "call_built op (peekAt c0 3) c b c1"
      by (simp add: call_built_def holds_back_def potential_def c0_def resetReturnData_def split: build.splits)
    show ?thesis
    proof (cases b)
      case BuildNone
      then show ?thesis using run ty b ev1 hold by (simp add: call_built_def spends_def)
    next
      case (BuildErr co)
      then obtain ct where co: "co = Some ct" and h: "holds_back (Suc (unat (c_Gas ct))) c c1"
        using hold by (auto simp: call_built_def)
      then have "c' = c1\<lparr>s_stack := 0 # s_stack c1, s_gas := s_gas c1 + c_Gas ct\<rparr>"
        using run ty b BuildErr by (simp add: build_failed_def Let_def push_def)
      then show ?thesis using give_back_after(4,7) [OF ev1 h, of "c_Gas ct" "s_host c1" 0] by simp
    next
      case (Build ct offset sz)
      let ?ct = "ct\<lparr>c_Type := ty\<rparr>"
      have ct: "holds_back (Suc (unat (c_Gas ct))) c c1" "c_Static (s_msg c) \<longrightarrow> c_Static ct"
        "op = OP_CALL \<longrightarrow> c_Value ct = peekAt c0 3" "c_Value ct \<in> {None, peekAt c0 3, c_Value (s_msg c)}"
        using hold Build by (simp_all add: call_built_def)
      obtain r h where call: "Callx H (s_host c1) ?ct = Val (r, h)"
        and fin: "call_done L offset sz r (c1\<lparr>s_host := h\<rparr>) = Some c'"
        using run ty b Build by (auto simp: obind_eq_Val)
      have "unat (r_GasLeft r) < Suc (unat (c_Gas ct))" using Callx_gas [OF \<open>ok\<close> call] by (simp add: word_le_nat_alt)
      moreover have "R (s_host c1) h" if "sane P c"
      proof -
        have "value_ok ct" using ct(4) that
          by (auto simp: value_ok_def sane_def peekAt_def c0_def resetReturnData_def split: if_splits)
        then have "child st ?ct" using False st ct ty c0(2) guard
          by (auto simp: child_def value_ok_def callType_def inStaticCall_def split: if_splits)
        then show ?thesis using R_Callx [OF call] by simp
      qed
      ultimately show ?thesis
        using give_back_after(1,3,5,6) [OF ev1 ct(1), of "r_GasLeft r" h] fin
        by (auto simp: call_done_def Let_def push_def nonneg split: if_split_asm)
    qed
  qed
qed

end

end
