(* ===== verification/EVM_Gas.thy ===== *)
theory EVM_Gas
  imports EVM_Evolve
begin

section \<open>Runs end, and end with no more gas than they had\<close>

text \<open>
  The relation of theory \<open>EVM_Evolve\<close> for every entry of the dispatch table, one iteration, the
  loop and a whole run. Every iteration that does not stop the machine leaves less gas, so the
  fuel of \<open>EVM_Run\<close> is enough.
\<close>

context evm_host
begin

subsection \<open>The loop\<close>

lemma inst_okI:
  assumes "\<And>c c'. st \<longrightarrow> c_Static (s_msg c) \<Longrightarrow> f c = Some c' \<Longrightarrow> ev c c'"
  shows "inst_ok P R st False (of_option \<circ> f)"
  using assms by (auto simp: inst_ok_def)

lemma inst_ok_freeI:
  assumes "\<And>c c'. st \<longrightarrow> c_Static (s_msg c) \<Longrightarrow> f c = Some c' \<Longrightarrow> ev c c'"
    and "\<And>c c'. st \<longrightarrow> c_Static (s_msg c) \<Longrightarrow> f c = Some c' \<Longrightarrow> spends c c'"
  shows "inst_ok P R st True (of_option \<circ> f)"
  using assms by (auto simp: inst_ok_def)

lemma inst_ok_nested:
  assumes ok
  shows "inst_ok P R st False (opCreate H L op)" and "inst_ok P R st True (opCall H L op)"
  using ev_opCreate ev_opCall assms by (auto simp: inst_ok_def)

lemma inst_ok_halting:
  "inst_ok P R st True (of_option \<circ> opStop)" "inst_ok P R st True (of_option \<circ> opHalt op)"
  "inst_ok P R st True (of_option \<circ> opSelfDestruct H)"
  using ev_opHalt ev_opSelfDestruct
  by (auto simp: inst_ok_def spends_def opStop_def Halt_def)

lemmas ev_all = ev_arith ev_memory ev_context ev_copy ev_control ev_ext ev_opSStore ev_opLog

lemmas spends_all = spends_zero_cost spends_opSStore spends_opExtCodeCopy

lemma dispatch_all: "ok \<Longrightarrow> \<forall>(op, h) \<in> set (dispatchTable H L). inst_ok P R st (h_gas h = 0) (h_inst h)"
  unfolding dispatchTable_def registerRange_def mk_handler_def
  by (simp add: inst_ok_nested inst_ok_halting ball_Un del: o_apply, intro conjI ballI;
      (rule inst_okI | rule inst_ok_freeI), (rule ev_all spends_all; assumption)+)

lemma dispatch_ok: "ok \<Longrightarrow> map_of (dispatchTable H L) op = Some h \<Longrightarrow> inst_ok P R st (h_gas h = 0) (h_inst h)"
  using dispatch_all [of L] by (auto dest!: map_of_SomeD)

lemma run_step_ev:
  assumes "st \<longrightarrow> c_Static (s_msg c)" and "EIP150 (s_config c)" and "run_step H L c = Val c'" and ok
  shows "ev c c' \<and> spends c c'"
proof (cases "CurrentOpCode c")
  case None
  then show ?thesis using assms(3) by (simp add: run_step_def)
next
  case (Some p)
  obtain op valid where p: "p = (op, valid)" by (cases p)
  show ?thesis
  proof (cases "valid \<and> map_of (dispatchTable H L) op \<noteq> None \<and>
      h_stack (the (map_of (dispatchTable H L) op)) \<le> length (s_stack c)")
    case False
    then show ?thesis using assms(3) Some p
      by (auto simp: run_step_def Halt_def exit_def spends_def split: if_splits option.splits)
  next
    case True
    then obtain h where tab: "map_of (dispatchTable H L) op = Some h" and "h_stack h \<le> length (s_stack c)" by auto
    obtain b c1 where gas: "consumeGas c (h_gas h) = (b, c1)" by (cases "consumeGas c (h_gas h)")
    note c1 = ev_consumeGas [OF gas]
    show ?thesis
    proof (cases b)
      case False
      then show ?thesis using assms(3) Some p True tab gas c1 ev_trans [OF c1(1) ev_update(6)]
        by (auto simp: run_step_def exit_def split: if_splits)
    next
      case b: True
      obtain c2 where inst: "h_inst h c1 = Val c2"
        and c': "c' = (if length (s_stack c2) > stackSize then exit c2 ErrStackOverflow else c2\<lparr>s_ip := s_ip c2 + 1\<rparr>)"
        using assms(3) Some p True tab gas b by (auto simp: run_step_def obind_eq_Val split: if_splits)
      have "ev c1 c2" and sp: "h_gas h = 0 \<longrightarrow> spends c1 c2"
        using dispatch_ok [OF \<open>ok\<close> tab] inst assms(1,2) ev_msg [OF c1(1)] by (auto simp: inst_ok_def)
      have "ev c2 c'" by (simp add: c' exit_def)
      moreover have "spends c c2"
        using sp consumeGas_spends [OF gas] c1(1) \<open>ev c1 c2\<close> by (metis ev_spends spends_ev word_gt_0)
      ultimately show ?thesis using c1(1) \<open>ev c1 c2\<close> by (blast intro: ev_trans spends_ev)
    qed
  qed
qed

lemma Run_loop_ev:
  assumes "Run_loop n H L c = Val c'" and "st \<longrightarrow> c_Static (s_msg c)" and "EIP150 (s_config c)" and ok
  shows "ev c c' \<and> s_stop c'"
  using assms
proof (induction n arbitrary: c)
  case 0
  then show ?case by (auto split: if_splits)
next
  case (Suc n)
  show ?case
  proof (cases "s_stop c")
    case False
    then obtain c1 where c1: "run_step H L c = Val c1" and rest: "Run_loop n H L c1 = Val c'"
      using Suc.prems(1) by (auto simp: obind_eq_Val)
    have "ev c c1" using run_step_ev [OF Suc.prems(2,3) c1 Suc.prems(4)] by simp
    moreover have "ev c1 c' \<and> s_stop c'"
      using Suc.IH [OF rest] Suc.prems(2-4) ev_msg [OF \<open>ev c c1\<close>] by simp
    ultimately show ?thesis by (blast intro: ev_trans)
  qed (use Suc.prems in simp)
qed

end

text \<open>Nested executions one level deeper come back: this is what makes the fuel of the loop enough.\<close>

locale evm_host_depth = evm_host H P R st ok
  for H :: "('h, 'z) Host_scheme" and P R st ok +
  fixes d :: int
  assumes Callx_fuel: "ok \<Longrightarrow> c_Depth m = d + 1 \<Longrightarrow> Callx H h m \<noteq> NoFuel"
begin

lemma opCreate_fuel: "ok \<Longrightarrow> c_Depth (s_msg c) = d \<Longrightarrow> opCreate H L op c \<noteq> NoFuel"
  using build_create [of L op "resetReturnData c"]
  by (auto simp: opCreate_def obind_eq_NoFuel resetReturnData_def Callx_fuel split: build.splits prod.splits)

lemma opCall_fuel:
  assumes "c_Depth (s_msg c) = d" and "EIP150 (s_config c)" and ok
  shows "opCall H L op c \<noteq> NoFuel"
proof -
  have "c_Depth ct = d + 1" if "buildCallContract H op (resetReturnData c) = Some (Build ct x y, c1)" for ct x y c1
    using build_call [OF that] assms by (auto simp: call_built_def resetReturnData_def)
  then show ?thesis
    by (auto simp: opCall_def Let_def obind_eq_NoFuel Callx_fuel [OF \<open>ok\<close>] split: build.splits prod.splits option.splits)
qed

lemma dispatch_fuel:
  assumes "c_Depth (s_msg c) = d" and "EIP150 (s_config c)" and ok
    and "map_of (dispatchTable H L) op = Some h"
  shows "h_inst h c \<noteq> NoFuel"
proof -
  have "\<forall>(op, h) \<in> set (dispatchTable H L). h_inst h c \<noteq> NoFuel"
    unfolding dispatchTable_def registerRange_def mk_handler_def
    by (simp add: opCreate_fuel opCall_fuel assms ball_Un)
  then show ?thesis using map_of_SomeD [OF assms(4)] by auto
qed

lemma run_step_fuel:
  assumes "c_Depth (s_msg c) = d" and "EIP150 (s_config c)" and ok
  shows "run_step H L c \<noteq> NoFuel"
proof -
  have "h_inst h c1 \<noteq> NoFuel"
    if "map_of (dispatchTable H L) op = Some h" "consumeGas c (h_gas h) = (b, c1)" for op h b c1
    using dispatch_fuel [OF _ _ \<open>ok\<close> that(1)] ev_msg [OF ev_consumeGas(1) [OF that(2)]] assms by simp
  then show ?thesis
    by (auto simp: run_step_def obind_eq_NoFuel split: option.splits prod.splits bool.splits)
qed

lemma Run_loop_fuel:
  assumes "st \<longrightarrow> c_Static (s_msg c)" and "EIP150 (s_config c)" and "c_Depth (s_msg c) = d" and ok
    and "s_stop c \<or> unat (s_gas c) < n"
  shows "Run_loop n H L c \<noteq> NoFuel"
  using assms
proof (induction n arbitrary: c)
  case 0
  then show ?case by simp
next
  case (Suc n)
  show ?case
  proof (cases "run_step H L c")
    case (Val c1)
    from run_step_ev [OF Suc.prems(1,2) Val Suc.prems(4)] have ev1: "ev c c1" and "spends c c1" by auto
    then have "s_stop c \<or> s_stop c1 \<or> unat (s_gas c1) < n"
      using Suc.prems(5) by (auto simp: spends_def word_less_nat_alt)
    then show ?thesis using Suc.IH [of c1] Suc.prems(1-4) ev_msg [OF ev1] Val by auto
  qed (use run_step_fuel [OF Suc.prems(3,2,4)] in auto)
qed

end

subsection \<open>Running a contract\<close>

text \<open>
  For every host that gives back at most the gas it was handed: a run keeps its host related,
  ends with at most the gas it started with, and ends within its fuel if nested executions do.
\<close>

context evm_host
begin

lemma EVM_Run_ok:
  assumes "EVM_Run H L m h cfg = Val (r, h')" and "st \<longrightarrow> c_Static m" and "EIP150 cfg" and ok
  shows "P h \<Longrightarrow> value_ok m \<Longrightarrow> R h h'" and "r_GasLeft r \<le> c_Gas m" and "r_GasUsed r = c_Gas m - r_GasLeft r"
proof -
  obtain bm c where run: "Run_loop (run_fuel m) H L (setup_state (new_state m h cfg) bm m h cfg) = Val c"
    and r: "r = EVM_result m c" "h' = s_host c"
    using assms(1) by (auto simp: EVM_Run_def obind_eq_Val)
  have "ev (setup_state (new_state m h cfg) bm m h cfg) c"
    using Run_loop_ev [OF run] assms(2-4) by (simp add: setup_state_def)
  then show "P h \<Longrightarrow> value_ok m \<Longrightarrow> R h h'" and "r_GasLeft r \<le> c_Gas m" and "r_GasUsed r = c_Gas m - r_GasLeft r"
    by (simp_all add: r evolves_def setup_state_def new_state_def sane_def EVM_result_def Let_def resetReturnData_def)
qed

end

context evm_host_depth
begin

lemma EVM_Run_fuel:
  assumes "st \<longrightarrow> c_Static m" and "EIP150 cfg" and "c_Depth m = d" and ok
  shows "EVM_Run H L m h cfg \<noteq> NoFuel"
  using Run_loop_fuel [of "setup_state (new_state m h cfg) bm m h cfg" "run_fuel m" L for bm] assms
  by (auto simp: EVM_Run_def obind_eq_NoFuel setup_state_def run_fuel_def)

end

end
