(* ===== verification/Crypto.thy ===== *)
theory Crypto
  imports Types
begin

section \<open>Signatures and the sender of a transaction (\<^verbatim>\<open>crypto/crypto.go\<close>, \<^verbatim>\<open>crypto/txsigner.go\<close>)\<close>

text \<open>
  The two signers of transactions, before and after EIP-155, and the checks on signature values.
  The curve (\<^verbatim>\<open>btcsuite/btcd/btcec\<close>) and the RLP encoder (\<^verbatim>\<open>umbracle/fastrlp\<close>) are parameters;
  a value built with the encoder is a term of the type \<open>rlp\<close>, with one constructor for every
  constructor function of the encoder the sources use.
\<close>

subsection \<open>RLP values\<close>

text \<open>The values the sources build with the \<^verbatim>\<open>fastrlp\<close> arena; \<open>RlpNil\<close> is \<^verbatim>\<open>NewBigInt(nil)\<close>.\<close>

datatype rlp =
  RlpUint uint64 | RlpBigInt int | RlpNil | RlpBytes bytes | RlpNull | RlpNullArray | RlpArray "rlp list"

text \<open>
  \<open>RecoverCompact\<close> takes a compact signature, which starts with the byte 27 or 28, and the hash,
  and returns the coordinates of the public key; \<open>SignCompact\<close> takes a private key.
\<close>

record sig_lib =
  rlp_Marshal :: "rlp \<Rightarrow> bytes"
  RecoverCompact :: "bytes \<Rightarrow> bytes \<Rightarrow> (int \<times> int) option"
  SignCompact :: "int \<Rightarrow> bytes \<Rightarrow> bytes option"
  PublicKey :: "int \<Rightarrow> int \<times> int"

subsection \<open>Signature values\<close>

definition secp256k1N :: bytes where
  "secp256k1N = [0xff, 0xff, 0xff, 0xff, 0xff, 0xff, 0xff, 0xff, 0xff, 0xff, 0xff, 0xff, 0xff, 0xff, 0xff, 0xfe,
     0xba, 0xae, 0xdc, 0xe6, 0xaf, 0x48, 0xa0, 0x3b, 0xbf, 0xd2, 0x5e, 0x8c, 0xd0, 0x36, 0x41, 0x41]"

text \<open>The loop stops at the first non-zero byte, or at the last byte; its index is 0 for an empty slice.\<close>

fun trimLeftZeros :: "bytes \<Rightarrow> bytes" where
  "trimLeftZeros [] = []"
| "trimLeftZeros [b] = [b]"
| "trimLeftZeros (b # c # bs) = (if b \<noteq> 0 then b # c # bs else trimLeftZeros (c # bs))"

text \<open>\<^verbatim>\<open>bytes.Compare(a, b) < 0\<close>: the lexicographic order.\<close>

fun bytes_less :: "bytes \<Rightarrow> bytes \<Rightarrow> bool" where
  "bytes_less [] bs = (bs \<noteq> [])"
| "bytes_less (a # as) [] = False"
| "bytes_less (a # as) (b # bs) = (a < b \<or> a = b \<and> bytes_less as bs)"

definition ValidateSignatureValues :: "byte \<Rightarrow> int option \<Rightarrow> int option \<Rightarrow> bool" where
  "ValidateSignatureValues v r s =
     (case (r, s) of
        (Some r, Some s) \<Rightarrow>
          (if v > 1 then False
           else let rr = trimLeftZeros (Bytes r) in
             if \<not> bytes_less rr secp256k1N \<or> bytes_less rr [1] then False
             else let ss = trimLeftZeros (Bytes s) in
               if \<not> bytes_less ss secp256k1N \<or> bytes_less ss [1] then False else True)
      | _ \<Rightarrow> False)"

subsection \<open>Recovery\<close>

datatype sig_error = errInvalidSignature | errRecover | errInvalidTxnSignature | errSign

text \<open>\<^verbatim>\<open>elliptic.Marshal\<close>: the byte 4 and both coordinates in 32 bytes.\<close>

definition MarshalPublicKey :: "int \<times> int \<Rightarrow> bytes" where
  "MarshalPublicKey pub = [4] @ pad_bytes 32 (Bytes (fst pub)) @ pad_bytes 32 (Bytes (snd pub))"

definition RecoverPubkey :: "sig_lib \<Rightarrow> bytes \<Rightarrow> bytes \<Rightarrow> sig_error + int \<times> int" where
  "RecoverPubkey S signature hash =
     (if length signature < 1 then Inl errInvalidSignature
      else let term' = (if last signature = 1 then 28 else 27);
               sig = [term'] @ butlast signature
           in case RecoverCompact S sig hash of None \<Rightarrow> Inl errRecover | Some pub \<Rightarrow> Inr pub)"

definition Ecrecover :: "sig_lib \<Rightarrow> bytes \<Rightarrow> bytes \<Rightarrow> sig_error + bytes" where
  "Ecrecover S hash sig = map_sum id MarshalPublicKey (RecoverPubkey S sig hash)"

definition PubKeyToAddress :: "crypto_lib \<Rightarrow> int \<times> int \<Rightarrow> Address" where
  "PubKeyToAddress L pub = BytesToAddress (drop 12 (Keccak256 L (tl (MarshalPublicKey pub))))"

text \<open>\<open>SignCompact\<close> puts the recovery byte first; the sources move it to the end as 0 or 1.\<close>

definition Sign :: "sig_lib \<Rightarrow> int \<Rightarrow> bytes \<Rightarrow> bytes option" where
  "Sign S priv hash = map_option (\<lambda>sig. tl (sig @ [if hd sig = 28 then 1 else 0])) (SignCompact S priv hash)"

subsection \<open>The signers\<close>

definition calcTxHash :: "crypto_lib \<Rightarrow> sig_lib \<Rightarrow> Transaction \<Rightarrow> uint64 \<Rightarrow> Hash" where
  "calcTxHash L S tx chainID =
     (let v = [RlpUint (t_Nonce tx), RlpBigInt (t_GasPrice tx), RlpUint (t_Gas tx),
               (case t_To tx of None \<Rightarrow> RlpNull | Some to' \<Rightarrow> RlpBytes (Address_Bytes to')),
               RlpBigInt (t_Value tx), RlpBytes (t_Input tx)] @
              (if chainID \<noteq> 0 then [RlpUint chainID, RlpUint 0, RlpUint 0] else [])
      in BytesToHash (Keccak256 L (rlp_Marshal S (RlpArray v))))"

text \<open>
  The copies to \<^verbatim>\<open>sig[32-len(R.Bytes()):32]\<close> panic for a value of more than 32 bytes; the check on the
  values is lexicographic and lets such values through.
\<close>

definition encodeSignature :: "int option \<Rightarrow> int option \<Rightarrow> byte \<Rightarrow> (sig_error + bytes) option" where
  "encodeSignature R' S' V' =
     (if \<not> ValidateSignatureValues V' R' S' then Some (Inl errInvalidTxnSignature)
      else if length (Bytes (the R')) > 32 \<or> length (Bytes (the S')) > 32 then None
      else Some (Inr (pad_bytes 32 (Bytes (the R')) @ pad_bytes 32 (Bytes (the S')) @ [V'])))"

definition recoverSender :: "crypto_lib \<Rightarrow> sig_lib \<Rightarrow> Hash \<Rightarrow> Transaction \<Rightarrow> byte \<Rightarrow> (sig_error + Address) option" where
  "recoverSender L S h tx V' =
     map_option (\<lambda>r. case r of Inl e \<Rightarrow> Inl e | Inr sig \<Rightarrow>
         (case Ecrecover S (Hash_Bytes h) sig of
            Inl e \<Rightarrow> Inl e | Inr pub \<Rightarrow> Inr (BytesToAddress (drop 12 (Keccak256 L (tl pub))))))
       (encodeSignature (t_R tx) (t_S tx) V')"

text \<open>\<^verbatim>\<open>byte(x.Int64())\<close> keeps the lowest eight bits.\<close>

definition big_byte :: "int \<Rightarrow> byte" where
  "big_byte x = word_of_int (Int64 x)"

definition big_V :: "Transaction \<Rightarrow> int" where
  "big_V tx = (case t_V tx of None \<Rightarrow> 0 | Some v \<Rightarrow> SetBytes (Bytes v))"

definition Frontier_Sender :: "crypto_lib \<Rightarrow> sig_lib \<Rightarrow> Transaction \<Rightarrow> (sig_error + Address) option" where
  "Frontier_Sender L S tx = recoverSender L S (calcTxHash L S tx 0) tx (big_byte (big_V tx - 27))"

definition chain_offset :: "uint64 \<Rightarrow> int" where
  "chain_offset chainID = sint chainID * 2"

definition EIP155_Sender :: "crypto_lib \<Rightarrow> sig_lib \<Rightarrow> uint64 \<Rightarrow> Transaction \<Rightarrow> (sig_error + Address) option" where
  "EIP155_Sender L S chainID tx =
     (let bigV = big_V tx; vv = Uint64 bigV;
          protected = (if nat_BitLen (unat vv) \<le> 8 then vv \<noteq> 27 \<and> vv \<noteq> 28 else True)
      in if \<not> protected then Frontier_Sender L S tx
         else recoverSender L S (calcTxHash L S tx chainID) tx (big_byte (bigV - chain_offset chainID - 35)))"

text \<open>A signer is the Frontier signer or the EIP-155 signer of a chain.\<close>

datatype TxSigner = FrontierSigner | EIP155Signer uint64

definition NewSigner :: "ForksInTime \<Rightarrow> uint64 \<Rightarrow> TxSigner" where
  "NewSigner forks chainID = (if EIP155 forks then EIP155Signer chainID else FrontierSigner)"

fun Sender :: "crypto_lib \<Rightarrow> sig_lib \<Rightarrow> TxSigner \<Rightarrow> Transaction \<Rightarrow> (sig_error + Address) option" where
  "Sender L S FrontierSigner tx = Frontier_Sender L S tx"
| "Sender L S (EIP155Signer chainID) tx = EIP155_Sender L S chainID tx"

fun Signer_Hash :: "crypto_lib \<Rightarrow> sig_lib \<Rightarrow> TxSigner \<Rightarrow> Transaction \<Rightarrow> Hash" where
  "Signer_Hash L S FrontierSigner tx = calcTxHash L S tx 0"
| "Signer_Hash L S (EIP155Signer chainID) tx = calcTxHash L S tx chainID"

fun CalculateV :: "TxSigner \<Rightarrow> byte \<Rightarrow> bytes" where
  "CalculateV FrontierSigner parity = Bytes (uint parity + 27)"
| "CalculateV (EIP155Signer chainID) parity = Bytes (uint parity + 35 + chain_offset chainID)"

definition SignTx :: "crypto_lib \<Rightarrow> sig_lib \<Rightarrow> TxSigner \<Rightarrow> Transaction \<Rightarrow> int \<Rightarrow> sig_error + Transaction" where
  "SignTx L S signer tx privateKey =
     (let tx = Transaction_Copy tx; h = Signer_Hash L S signer tx in
      case Sign S privateKey (Hash_Bytes h) of
        None \<Rightarrow> Inl errSign
      | Some sig \<Rightarrow> Inr (tx\<lparr>t_R := Some (SetBytes (take 32 sig)), t_S := Some (SetBytes (take 32 (drop 32 sig))),
          t_V := Some (SetBytes (CalculateV signer (sig ! 64)))\<rparr>))"

subsection \<open>The order on byte strings\<close>

lemma length_nat_Bytes_gt: "256 ^ k \<le> n \<Longrightarrow> k < length (nat_Bytes n)"
  using nat_SetBytes_less [of "nat_Bytes n"] by (metis le_less_trans linorder_not_less nat_SetBytes_Bytes nat_power_less_imp_less zero_less_numeral)

lemma length_Bytes_eq: "256 ^ k \<le> x \<Longrightarrow> x < 256 ^ Suc k \<Longrightarrow> length (Bytes x) = Suc k"
proof -
  assume a: "256 ^ k \<le> x" and b: "x < 256 ^ Suc k"
  from a have pos: "0 \<le> x" by (meson order_trans zero_le_numeral zero_le_power)
  have "256 ^ k \<le> nat x" using a by (simp add: le_nat_iff pos)
  moreover have "nat x < 256 ^ Suc k" using b pos by (simp add: nat_less_iff)
  ultimately show ?thesis
    using length_nat_Bytes_gt [of k "nat x"] length_nat_Bytes_le [of "nat x" "Suc k"] pos by (simp add: Bytes_def)
qed

lemma nat_Bytes_hd: "nat_Bytes n = b # bs \<Longrightarrow> b \<noteq> 0"
proof (induction n arbitrary: b bs rule: nat_Bytes.induct)
  case (1 n)
  have n: "n \<noteq> 0"
  proof
    assume "n = 0"
    then show False using "1.prems" by (simp add: nat_Bytes.simps [of 0])
  qed
  show ?case
  proof (cases "nat_Bytes (n div 256)")
    case Nil
    then have "n div 256 = 0" using nat_SetBytes_Bytes [of "n div 256"] by simp
    then have "n < 256" by simp
    then have "unat (word_of_nat n :: byte) = n" by (simp add: unat_of_nat)
    then show ?thesis using "1.prems" n Nil \<open>n < 256\<close> by (auto simp: nat_Bytes.simps [of n])
  next
    case (Cons c cs)
    then show ?thesis using "1.IH" [OF n Cons] "1.prems" n by (auto simp: nat_Bytes.simps [of n])
  qed
qed

lemma trimLeftZeros_id: "(\<And>b cs. bs = b # cs \<Longrightarrow> b \<noteq> 0) \<Longrightarrow> trimLeftZeros bs = bs"
  by (cases bs rule: trimLeftZeros.cases) auto

lemma trimLeftZeros_Bytes [simp]: "trimLeftZeros (Bytes x) = Bytes x"
  by (rule trimLeftZeros_id) (simp add: Bytes_def nat_Bytes_hd)

lemma nat_SetBytes_Cons: "nat_SetBytes (b # bs) = unat b * 256 ^ length bs + nat_SetBytes bs"
  using nat_SetBytes_append [of "[b]" bs] by (simp add: nat_SetBytes_def)

text \<open>On strings of the same length the lexicographic order is the order of the numbers.\<close>

lemma bytes_less_iff: "length as = length bs \<Longrightarrow> bytes_less as bs \<longleftrightarrow> nat_SetBytes as < nat_SetBytes bs"
proof (induction as bs rule: list_induct2)
  case (Cons a as b bs)
  have less: "nat_SetBytes as < 256 ^ length bs" "nat_SetBytes bs < 256 ^ length bs"
    using nat_SetBytes_less [of as] nat_SetBytes_less [of bs] Cons.hyps by simp_all
  have "unat a * 256 ^ length bs + nat_SetBytes as < unat b * 256 ^ length bs + nat_SetBytes bs"
    if "unat a < unat b"
  proof -
    have "unat a * 256 ^ length bs + 256 ^ length bs \<le> unat b * 256 ^ length bs"
      using that by (metis Suc_leI add.commute mult_Suc mult_le_mono1)
    then show ?thesis using less by linarith
  qed
  moreover have "\<not> unat a * 256 ^ length bs + nat_SetBytes as < unat b * 256 ^ length bs + nat_SetBytes bs"
    if "unat b < unat a"
  proof -
    have "unat b * 256 ^ length bs + 256 ^ length bs \<le> unat a * 256 ^ length bs"
      using that by (metis Suc_leI add.commute mult_Suc mult_le_mono1)
    then show ?thesis using less by linarith
  qed
  ultimately show ?case using Cons
    by (cases "unat a" "unat b" rule: linorder_cases) (auto simp: nat_SetBytes_Cons word_less_nat_alt word_unat_eq_iff)
qed simp

definition secp256k1_order :: int where
  "secp256k1_order = 0xfffffffffffffffffffffffffffffffebaaedce6af48a03bbfd25e8cd0364141"

lemma secp256k1N_order: "SetBytes secp256k1N = secp256k1_order" "length secp256k1N = 32"
  by (simp_all add: secp256k1N_def secp256k1_order_def SetBytes_def nat_SetBytes_def)

lemma Bytes_less_order:
  assumes "2 ^ 248 \<le> x" and "x < 2 ^ 256"
  shows "bytes_less (Bytes x) secp256k1N \<longleftrightarrow> x < secp256k1_order"
proof -
  have "length (Bytes x) = 32" using length_Bytes_eq [of 31 x] assms by simp
  then have "bytes_less (Bytes x) secp256k1N \<longleftrightarrow> SetBytes (Bytes x) < SetBytes secp256k1N"
    by (simp add: bytes_less_iff secp256k1N_order(2) SetBytes_def)
  also have "SetBytes (Bytes x) = x" using assms by (simp add: SetBytes_Bytes)
  finally show ?thesis by (simp add: secp256k1N_order)
qed

lemma bytes_less_one: "bytes_less (Bytes x) [1] \<longleftrightarrow> x = 0"
proof (cases "Bytes x")
  case Nil
  then show ?thesis using SetBytes_Bytes [of x] by simp
next
  case (Cons b bs)
  then have "b \<noteq> 0" by (simp add: Bytes_def nat_Bytes_hd)
  moreover have "x \<noteq> 0" using Cons by (auto simp: Bytes_def nat_Bytes.simps)
  ultimately show ?thesis using Cons
    by (cases bs) (auto simp: word_less_nat_alt word_unat_eq_iff)
qed

subsection \<open>What the checks accept\<close>

text \<open>
  C32. On full-size values the check of signature values is the one of the standard: for \<open>r\<close> and \<open>s\<close>
  of exactly 32 bytes it accepts just those below the order of the curve, with a recovery
  identifier of 0 or 1.
\<close>

theorem ValidateSignatureValues_full:
  assumes "2 ^ 248 \<le> r" and "r < 2 ^ 256" and "2 ^ 248 \<le> s" and "s < 2 ^ 256"
  shows "ValidateSignatureValues v (Some r) (Some s) \<longleftrightarrow> v \<le> 1 \<and> r < secp256k1_order \<and> s < secp256k1_order"
  using assms by (auto simp: ValidateSignatureValues_def Let_def Bytes_less_order bytes_less_one not_le)

theorem ValidateSignatureValues_full_witness:
  "ValidateSignatureValues 1 (Some (2 ^ 255)) (Some (2 ^ 250)) \<and> \<not> ValidateSignatureValues 0 (Some (2 ^ 256 - 1)) (Some (2 ^ 250))"
  using ValidateSignatureValues_full [of "2 ^ 255" "2 ^ 250" 1] ValidateSignatureValues_full [of "2 ^ 256 - 1" "2 ^ 250" 0]
  by (simp add: secp256k1_order_def)

lemma Bytes_2_256: "Bytes (2 ^ 256) = 1 # replicate 32 0"
proof -
  have len: "length (Bytes (2 ^ 256)) = 33" using length_Bytes_eq [of 32 "2 ^ 256"] by simp
  have "nat_SetBytes (Bytes (2 ^ 256)) = nat_SetBytes (1 # replicate 32 0)"
    unfolding nat_SetBytes_Cons by (simp add: Bytes_def nat_power_eq)
  then show ?thesis using len by (intro nat_SetBytes_inj) simp_all
qed

lemma Bytes_1: "Bytes 1 = [1]"
  by (simp add: Bytes_def nat_Bytes.simps [of "Suc 0"] nat_Bytes.simps [of 0])

lemma encodeSignature_panics:
  assumes "v \<le> 1"
  shows "encodeSignature (Some (2 ^ 256)) (Some 1) v = None"
proof -
  have "bytes_less (Bytes (2 ^ 256)) secp256k1N" "bytes_less (Bytes 1) secp256k1N"
    unfolding Bytes_2_256 Bytes_1 by (simp_all add: secp256k1N_def)
  moreover have "\<not> bytes_less (Bytes (2 ^ 256)) [1]" "\<not> bytes_less (Bytes 1) [1]"
    unfolding bytes_less_one by simp_all
  moreover have "length (Bytes (2 ^ 256)) = 33" unfolding Bytes_2_256 by simp
  ultimately show ?thesis using assms
    by (simp add: encodeSignature_def ValidateSignatureValues_def Let_def not_le not_less del: power_numeral)
qed

lemma big_byte_eq: "big_byte x = word_of_int x"
proof -
  have "(if x < 0 then - Uint64 x else Uint64 x) = word_of_int x"
    by (simp add: Uint64_def)
  then show ?thesis
    unfolding big_byte_def Int64_def by (simp add: word_of_int_eq_iff sint_sbintrunc' take_bit_signed_take_bit)
qed

lemma chain_offset_small:
  assumes "uint chainID < 2 ^ 62"
  shows "chain_offset chainID = 2 * uint chainID"
proof -
  have "- (2 ^ 63) \<le> (0 :: int)" by simp
  then have "- (2 ^ 63) \<le> uint chainID" using uint_ge_0 [of chainID] by (rule order_trans)
  moreover have "uint chainID < 2 ^ 63" using assms by simp
  ultimately have "signed_take_bit 63 (uint chainID) = uint chainID" by (rule signed_take_bit_int_eq_self)
  then show ?thesis by (simp add: chain_offset_def sint_uint)
qed

lemma protected_V:
  assumes "29 \<le> v" and "v < 2 ^ 64"
  shows "Uint64 v \<noteq> 27" and "Uint64 v \<noteq> 28"
proof -
  have "uint (Uint64 v) = v" using assms by (intro uint_Uint64) (simp add: IsUint64_iff)
  then show "Uint64 v \<noteq> 27" and "Uint64 v \<noteq> 28" using assms(1) by (auto dest!: arg_cong [of _ _ uint])
qed

text \<open>
  C37. The comparison is lexicographic, so a value of another length is judged by its leading
  bytes: values of 33 bytes that start with the byte 1 pass the check, and building the 65-byte
  signature from such a value slices an array at a negative index. A transaction with
  \<open>r\<close> equal to 2 to the 256 makes either signer panic in \<^verbatim>\<open>Sender\<close>.
\<close>

theorem Sender_panics:
  assumes "t_R tx = Some (2 ^ 256)" and "t_S tx = Some 1"
    and "t_V tx = Some (case signer of FrontierSigner \<Rightarrow> 27 | EIP155Signer chainID \<Rightarrow> 2 * uint chainID + 35)"
    and "case signer of FrontierSigner \<Rightarrow> True | EIP155Signer chainID \<Rightarrow> chainID < 2 ^ 62"
  shows "Sender L S signer tx = None"
proof (cases signer)
  case FrontierSigner
  then show ?thesis using assms
    by (simp add: Frontier_Sender_def recoverSender_def big_V_def big_byte_eq SetBytes_Bytes encodeSignature_panics del: power_numeral)
next
  case (EIP155Signer chainID)
  have small: "uint chainID < 2 ^ 62" using assms(4) EIP155Signer by (simp add: word_less_def)
  note off = chain_offset_small [OF small]
  have V: "big_V tx = 2 * uint chainID + 35"
    using assms(3) EIP155Signer by (simp add: big_V_def SetBytes_Bytes)
  then have "Uint64 (2 * uint chainID + 35) \<noteq> 27" "Uint64 (2 * uint chainID + 35) \<noteq> 28"
    using protected_V [of "2 * uint chainID + 35"] small by simp_all
  then show ?thesis
    using assms(1,2) EIP155Signer
    by (simp add: EIP155_Sender_def recoverSender_def V off big_byte_eq encodeSignature_panics Let_def del: power_numeral)
qed

text \<open>A transaction to no one with the given signature, and a library with trivial hash and curve.\<close>

definition plain_tx :: "int \<Rightarrow> int \<Rightarrow> int \<Rightarrow> Transaction" where
  "plain_tx v r s = \<lparr>t_Nonce = 0, t_GasPrice = 1, t_Gas = 21000, t_To = Some 256, t_Value = 0, t_Input = [],
     t_V = Some v, t_R = Some r, t_S = Some s, t_Hash = 0, t_From = 0\<rparr>"

definition plain_sig :: sig_lib where
  "plain_sig = \<lparr>rlp_Marshal = (\<lambda>_. []), RecoverCompact = (\<lambda>_ _. Some (1, 2)),
     SignCompact = (\<lambda>_ _. Some (27 # replicate 64 5)), PublicKey = (\<lambda>_. (1, 2))\<rparr>"

theorem Sender_panics_witness: "\<forall>L. Sender L plain_sig (EIP155Signer 100) (plain_tx 235 (2 ^ 256) 1) = None"
  by (rule allI, rule Sender_panics) (simp_all add: plain_tx_def)

text \<open>
  C38. A signature has more than one encoding. The sender check reads \<open>V\<close> modulo 256, so adding 256 to \<open>V\<close>
  gives another transaction, with another hash, that the same sender has signed.
\<close>

theorem Sender_V_malleable:
  assumes "t_V tx = Some v" and "29 \<le> v" and "v + 256 < 2 ^ 64"
  shows "Sender L S (EIP155Signer chainID) (tx\<lparr>t_V := Some (v + 256)\<rparr>) = Sender L S (EIP155Signer chainID) tx"
proof -
  have V: "big_V tx = v" "big_V (tx\<lparr>t_V := Some (v + 256)\<rparr>) = v + 256"
    using assms by (simp_all add: big_V_def SetBytes_Bytes)
  have h: "calcTxHash L S (tx\<lparr>t_V := Some (v + 256)\<rparr>) chainID = calcTxHash L S tx chainID"
    by (simp add: calcTxHash_def)
  have "big_byte (v + 256 - chain_offset chainID - 35) = big_byte (v - chain_offset chainID - 35)"
    unfolding big_byte_eq by (simp add: word_of_int_eq_iff take_bit_eq_mod algebra_simps)
  then show ?thesis
    using protected_V [of v] protected_V [of "v + 256"] assms
    by (simp add: EIP155_Sender_def Let_def V h recoverSender_def)
qed

theorem Sender_V_malleable_witness:
  "\<forall>L. Sender L plain_sig (EIP155Signer 100) ((plain_tx 235 5 5)\<lparr>t_V := Some 491\<rparr>) = Sender L plain_sig (EIP155Signer 100) (plain_tx 235 5 5)"
  using Sender_V_malleable [of "plain_tx 235 5 5" 235 _ plain_sig 100] by (simp add: plain_tx_def)

subsection \<open>Signing and recovering\<close>

text \<open>
  What the sources rely on of the curve: a compact signature has 65 bytes, starts with 27 or 28, and
  the key recovered from it is the key that signed. The library can also return 29 or 30, when the
  point it picked has a coordinate above the curve order (one nonce in 2 to the 127); \<open>Sign\<close> does not
  handle these, so the round trip is stated for signatures without them.
\<close>

definition sig_laws :: "sig_lib \<Rightarrow> bool" where
  "sig_laws S \<longleftrightarrow> (\<forall>priv hash sig. SignCompact S priv hash = Some sig \<longrightarrow>
     length sig = 65 \<and> hd sig \<in> {27, 28} \<and> RecoverCompact S sig hash = Some (PublicKey S priv))"

lemma sig_lawsD:
  assumes "sig_laws S" and "SignCompact S priv hash = Some sig"
  shows "length (tl sig) = 64" and "hd sig \<in> {27, 28}" and "RecoverCompact S sig hash = Some (PublicKey S priv)" and "sig \<noteq> []"
proof -
  have "length sig = 65" and "hd sig \<in> {27, 28}" and "RecoverCompact S sig hash = Some (PublicKey S priv)"
    using assms by (simp_all add: sig_laws_def)
  then show "length (tl sig) = 64" and "hd sig \<in> {27, 28}" and "RecoverCompact S sig hash = Some (PublicKey S priv)" and "sig \<noteq> []"
    by auto
qed

lemma pad_SetBytes: "length bs = k \<Longrightarrow> pad_bytes k (Bytes (SetBytes bs)) = bs"
proof -
  assume len: "length bs = k"
  have "\<bar>SetBytes bs\<bar> < 256 ^ k" using SetBytes_less [of bs] len by simp
  then have "length (pad_bytes k (Bytes (SetBytes bs))) = k" by (intro length_pad_bytes length_Bytes_le)
  moreover have "nat_SetBytes (pad_bytes k (Bytes (SetBytes bs))) = nat_SetBytes bs"
    by (simp add: pad_bytes_def Bytes_def SetBytes_def)
  ultimately show ?thesis using len by (intro nat_SetBytes_inj) simp_all
qed

lemma encodeSignature_Sign:
  assumes "length bs = 64" and "ValidateSignatureValues v (Some (SetBytes (take 32 bs))) (Some (SetBytes (drop 32 bs)))"
  shows "encodeSignature (Some (SetBytes (take 32 bs))) (Some (SetBytes (drop 32 bs))) v = Some (Inr (bs @ [v]))"
proof -
  have len: "length (take 32 bs) = 32" "length (drop 32 bs) = 32" using assms(1) by simp_all
  have "length (Bytes (SetBytes cs)) \<le> 32" if "length cs = 32" for cs
    using SetBytes_less [of cs] that by (intro length_Bytes_le) simp
  then show ?thesis using assms(2) len by (simp add: encodeSignature_def not_less pad_SetBytes)
qed

lemma recover_after_sign:
  assumes "sig_laws S" and "SignCompact S priv (Hash_Bytes h) = Some sig" and "v = (if hd sig = 28 then 1 else 0)"
    and "t_R tx = Some (SetBytes (take 32 (tl sig)))" and "t_S tx = Some (SetBytes (drop 32 (tl sig)))"
    and "ValidateSignatureValues v (t_R tx) (t_S tx)"
  shows "recoverSender L S h tx v = Some (Inr (PubKeyToAddress L (PublicKey S priv)))"
proof -
  note sig = sig_lawsD [OF assms(1,2)]
  then have "[if v = 1 then 28 else 27] @ tl sig = sig" using assms(3) by (cases sig) auto
  then have "RecoverPubkey S (tl sig @ [v]) (Hash_Bytes h) = Inr (PublicKey S priv)"
    using sig by (simp add: RecoverPubkey_def Let_def)
  then show ?thesis
    using encodeSignature_Sign [OF sig(1)] assms(4-6)
    by (simp add: recoverSender_def Ecrecover_def PubKeyToAddress_def)
qed

text \<open>
  C23. The sender of a signed transaction is the signer. For the Frontier signer and for the EIP-155
  signer of every chain identifier below 2 to the 62, signing a transaction and asking for its sender
  gives the address of the signing key, whenever the curve keeps its contract (recovery bytes 27 and 28)
  and the values of the signature pass \<^verbatim>\<open>ValidateSignatureValues\<close>.
\<close>

theorem SignTx_Sender:
  assumes "sig_laws S" and "SignTx L S signer tx priv = Inr tx'"
    and "ValidateSignatureValues 0 (t_R tx') (t_S tx')"
    and "case signer of FrontierSigner \<Rightarrow> True | EIP155Signer chainID \<Rightarrow> chainID < 2 ^ 62"
  shows "Sender L S signer tx' = Some (Inr (PubKeyToAddress L (PublicKey S priv)))"
proof -
  let ?h = "Signer_Hash L S signer (Transaction_Copy tx)"
  obtain sig where sig: "SignCompact S priv (Hash_Bytes ?h) = Some sig"
    using assms(2) by (cases "SignCompact S priv (Hash_Bytes ?h)") (auto simp: SignTx_def Sign_def Let_def)
  define v :: byte where "v = (if hd sig = 28 then 1 else 0)"
  note len = sig_lawsD(1,4) [OF assms(1) sig]
  have v64: "tl (sig @ [v]) ! 64 = v" and rs: "take 32 (tl (sig @ [v])) = take 32 (tl sig)"
    "take 32 (drop 32 (tl (sig @ [v]))) = drop 32 (tl sig)"
    using len by (simp_all add: nth_append)
  have tx': "tx' = (Transaction_Copy tx)\<lparr>t_R := Some (SetBytes (take 32 (tl sig))), t_S := Some (SetBytes (drop 32 (tl sig))),
      t_V := Some (SetBytes (CalculateV signer v))\<rparr>"
    using assms(2) sig v64 rs by (simp add: SignTx_def Sign_def Let_def v_def)
  have valid: "ValidateSignatureValues v (t_R tx') (t_S tx')"
    using assms(3) by (auto simp: ValidateSignatureValues_def v_def Let_def split: option.splits if_splits)
  have vle: "v = 0 \<or> v = 1" by (simp add: v_def)
  have rec: "recoverSender L S ?h tx' v = Some (Inr (PubKeyToAddress L (PublicKey S priv)))"
    by (rule recover_after_sign [OF assms(1) sig v_def _ _ valid]) (simp_all add: tx')
  show ?thesis
  proof (cases signer)
    case FrontierSigner
    have "big_V tx' - 27 = uint v" using FrontierSigner by (simp add: tx' big_V_def SetBytes_Bytes)
    moreover have "calcTxHash L S tx' 0 = ?h" using FrontierSigner by (simp add: tx' calcTxHash_def)
    ultimately show ?thesis using rec FrontierSigner by (simp add: Frontier_Sender_def big_byte_eq)
  next
    case (EIP155Signer chainID)
    have small: "uint chainID < 2 ^ 62" using assms(4) EIP155Signer by (simp add: word_less_def)
    have V: "big_V tx' = uint v + 35 + 2 * uint chainID"
      using EIP155Signer by (simp add: tx' big_V_def SetBytes_Bytes chain_offset_small [OF small])
    have "Uint64 (big_V tx') \<noteq> 27" "Uint64 (big_V tx') \<noteq> 28"
      using protected_V [of "big_V tx'"] small vle unfolding V by auto
    moreover have "calcTxHash L S tx' chainID = ?h" using EIP155Signer by (simp add: tx' calcTxHash_def)
    moreover have "big_V tx' - chain_offset chainID - 35 = uint v" by (simp add: V chain_offset_small [OF small])
    ultimately show ?thesis using rec EIP155Signer by (simp add: EIP155_Sender_def Let_def big_byte_eq)
  qed
qed

theorem SignTx_Sender_witness:
  "\<forall>L. \<exists>tx'. SignTx L plain_sig (EIP155Signer 100) (plain_tx 0 0 0) 3 = Inr tx' \<and>
     Sender L plain_sig (EIP155Signer 100) tx' = Some (Inr (PubKeyToAddress L (1, 2)))"
proof
  fix L
  have laws: "sig_laws plain_sig" by (simp add: sig_laws_def plain_sig_def)
  have thirty_two: "replicate 32 x = x # replicate 31 x" for x :: byte by (simp add: numeral_eq_Suc)
  obtain tx' where tx': "SignTx L plain_sig (EIP155Signer 100) (plain_tx 0 0 0) 3 = Inr tx'"
    and rs: "t_R tx' = Some (SetBytes (replicate 32 5))" "t_S tx' = Some (SetBytes (replicate 32 5))"
    by (simp add: SignTx_def Sign_def plain_sig_def Let_def)
  have "Bytes (SetBytes (replicate 32 5)) = replicate 32 5"
  proof (rule nat_SetBytes_inj)
    have "256 ^ 31 \<le> nat_SetBytes (replicate 32 5)"
      unfolding thirty_two nat_SetBytes_Cons by simp
    then show "length (Bytes (SetBytes (replicate 32 5))) = length (replicate 32 (5 :: byte))"
      using length_Bytes_eq [of 31 "SetBytes (replicate 32 5)"] SetBytes_less [of "replicate 32 5"]
      by (simp add: SetBytes_def)
  qed (simp add: Bytes_def SetBytes_def)
  note eq = this
  moreover have "trimLeftZeros (replicate 32 5) = replicate 32 5" by (metis eq trimLeftZeros_Bytes)
  moreover have "bytes_less (replicate 32 5) secp256k1N" "\<not> bytes_less (replicate 32 5) [1]"
    by (simp_all add: thirty_two secp256k1N_def)
  ultimately have "ValidateSignatureValues 0 (t_R tx') (t_S tx')"
    by (simp add: ValidateSignatureValues_def rs)
  then show "\<exists>tx'. SignTx L plain_sig (EIP155Signer 100) (plain_tx 0 0 0) 3 = Inr tx' \<and>
     Sender L plain_sig (EIP155Signer 100) tx' = Some (Inr (PubKeyToAddress L (1, 2)))"
    using tx' SignTx_Sender [OF laws tx'] by (simp add: plain_sig_def)
qed

end
