(* ===== verification/Precompiled.thy ===== *)
theory Precompiled
  imports Crypto
begin

section \<open>Precompiled contracts (\<^verbatim>\<open>state/runtime/precompiled\<close>)\<close>

text \<open>
  The nine contracts of the runtime, their gas and their results. SHA-256, RIPEMD-160 and the
  pairing curve (\<^verbatim>\<open>umbracle/go-eth-bn256\<close>) are parameters; modular exponentiation, the identity
  and the BLAKE2 compression function are translated in full. The buffer \<^verbatim>\<open>p.buf\<close> the contracts
  share is not part of the state: \<open>get\<close> overwrites every byte of it that it returns.

  A contract returns an error or bytes; \<^const>\<open>None\<close> is a panic of the Go runtime.
\<close>

unbundle bit_operations_syntax

subsection \<open>Inputs\<close>

definition leftPad :: "bytes \<Rightarrow> nat \<Rightarrow> bytes" where
  "leftPad buf n = (if length buf > n then buf else replicate (n - length buf) 0 @ buf)"

text \<open>The next \<open>size\<close> bytes of the input, filled up with zeros, and the rest of the input.\<close>

definition Precompiled_get :: "bytes \<Rightarrow> nat \<Rightarrow> bytes \<times> bytes" where
  "Precompiled_get input size' =
     (let n = (if length input < size' then length input else size')
      in (take n input @ replicate (size' - n) 0, drop n input))"

definition getUint64 :: "bytes \<Rightarrow> uint64 \<times> bytes" where
  "getUint64 input = (let (buf, input) = Precompiled_get input 32 in (word_of_nat (nat_SetBytes (drop 24 buf)), input))"

text \<open>A size converted from \<^verbatim>\<open>uint64\<close> to \<^verbatim>\<open>int\<close> is negative from 2 to the 63 on, and slicing with it panics.
  A smaller size that the machine has no memory for ends the Go program as well; the model has unbounded memory.\<close>

definition get_sized :: "bytes \<Rightarrow> uint64 \<Rightarrow> (bytes \<times> bytes) option" where
  "get_sized input size' = (if unat size' < 2 ^ 63 then Some (Precompiled_get input (unat size')) else None)"

subsection \<open>Hashes, signatures and the identity (\<^verbatim>\<open>base.go\<close>)\<close>

record precompiled_lib =
  Sum256 :: "bytes \<Rightarrow> bytes"
  ripemd160_Sum :: "bytes \<Rightarrow> bytes"
  G1_Unmarshal :: "bytes \<Rightarrow> (int \<times> int) option"
  G1_Add :: "int \<times> int \<Rightarrow> int \<times> int \<Rightarrow> int \<times> int"
  G1_ScalarMult :: "int \<times> int \<Rightarrow> int \<Rightarrow> int \<times> int"
  G1_Marshal :: "int \<times> int \<Rightarrow> bytes"
  G2_Unmarshal :: "bytes \<Rightarrow> ((int \<times> int) \<times> int \<times> int) option"
  PairingCheck :: "(int \<times> int) list \<Rightarrow> ((int \<times> int) \<times> int \<times> int) list \<Rightarrow> bool"

type_synonym contract_result = "vm_error + bytes"

definition baseGasCalc :: "bytes \<Rightarrow> uint64 \<Rightarrow> uint64 \<Rightarrow> uint64" where
  "baseGasCalc input base word' = base + word_of_nat (length input + 31) div 32 * word'"

definition ecrecover_gas :: uint64 where
  "ecrecover_gas = 3000"

definition identity_gas :: "bytes \<Rightarrow> uint64" where
  "identity_gas input = baseGasCalc input 15 3"

definition sha256h_gas :: "bytes \<Rightarrow> uint64" where
  "sha256h_gas input = baseGasCalc input 60 12"

definition ripemd160h_gas :: "bytes \<Rightarrow> uint64" where
  "ripemd160h_gas input = baseGasCalc input 600 120"

definition ecrecover_run :: "crypto_lib \<Rightarrow> sig_lib \<Rightarrow> bytes \<Rightarrow> contract_result" where
  "ecrecover_run L S input =
     (let input = fst (Precompiled_get input 128) in
      if \<exists>i \<in> set [32..<63]. input ! i \<noteq> 0 then Inr []
      else let v = input ! 63 - 27;
               r = SetBytes (take 32 (drop 64 input));
               s = SetBytes (take 32 (drop 96 input))
           in if \<not> ValidateSignatureValues v (Some r) (Some s) then Inr []
              else case Ecrecover S (take 32 input) (take 64 (drop 64 input) @ [v]) of
                     Inl e \<Rightarrow> Inr []
                   | Inr pubKey \<Rightarrow> Inr (leftPad (drop 12 (Keccak256 L (tl pubKey))) 32))"

definition identity_run :: "bytes \<Rightarrow> contract_result" where
  "identity_run input = Inr input"

definition sha256h_run :: "precompiled_lib \<Rightarrow> bytes \<Rightarrow> contract_result" where
  "sha256h_run C input = Inr (Sum256 C input)"

definition ripemd160h_run :: "precompiled_lib \<Rightarrow> bytes \<Rightarrow> contract_result" where
  "ripemd160h_run C input = Inr (leftPad (ripemd160_Sum C input) 32)"

subsection \<open>The pairing curve (\<^verbatim>\<open>bn256.go\<close>)\<close>

definition bn256Add_gas :: "ForksInTime \<Rightarrow> uint64" where
  "bn256Add_gas config = (if Istanbul config then 150 else 500)"

definition bn256Add_run :: "precompiled_lib \<Rightarrow> bytes \<Rightarrow> contract_result" where
  "bn256Add_run C input =
     (let (val, input) = Precompiled_get input 64 in
      case G1_Unmarshal C val of
        None \<Rightarrow> Inl (errPrecompiled ''bn256'')
      | Some b1 \<Rightarrow>
          (case G1_Unmarshal C (fst (Precompiled_get input 64)) of
             None \<Rightarrow> Inl (errPrecompiled ''bn256'')
           | Some b2 \<Rightarrow> Inr (G1_Marshal C (G1_Add C b1 b2))))"

definition bn256Mul_gas :: "ForksInTime \<Rightarrow> uint64" where
  "bn256Mul_gas config = (if Istanbul config then 6000 else 40000)"

definition bn256Mul_run :: "precompiled_lib \<Rightarrow> bytes \<Rightarrow> contract_result" where
  "bn256Mul_run C input =
     (let (v, input) = Precompiled_get input 64 in
      case G1_Unmarshal C v of
        None \<Rightarrow> Inl (errPrecompiled ''bn256'')
      | Some b0 \<Rightarrow> Inr (G1_Marshal C (G1_ScalarMult C b0 (SetBytes (fst (Precompiled_get input 32))))))"

definition falseBytes :: bytes where
  "falseBytes = replicate 32 0"

definition trueBytes :: bytes where
  "trueBytes = falseBytes[31 := 1]"

definition bn256Pairing_gas :: "bytes \<Rightarrow> ForksInTime \<Rightarrow> uint64" where
  "bn256Pairing_gas input config =
     (let (baseGas, pointGas) = (if Istanbul config then (45000, 34000) else (100000, 80000))
      in baseGas + pointGas * word_of_nat (length input div 192))"

primrec pairing_points ::
    "precompiled_lib \<Rightarrow> nat \<Rightarrow> bytes \<Rightarrow> ((int \<times> int) list \<times> ((int \<times> int) \<times> int \<times> int) list) option" where
  "pairing_points C 0 input = Some ([], [])"
| "pairing_points C (Suc n) input =
     (let (buf1, input) = Precompiled_get input 64 in
      case G1_Unmarshal C buf1 of
        None \<Rightarrow> None
      | Some a0 \<Rightarrow>
          (let (buf2, input) = Precompiled_get input 128 in
           case G2_Unmarshal C buf2 of
             None \<Rightarrow> None
           | Some b0 \<Rightarrow> map_option (\<lambda>(ar, br). (a0 # ar, b0 # br)) (pairing_points C n input)))"

definition bn256Pairing_run :: "precompiled_lib \<Rightarrow> bytes \<Rightarrow> contract_result" where
  "bn256Pairing_run C input =
     (if length input = 0 then Inr trueBytes
      else if length input mod 192 \<noteq> 0 then Inl (errPrecompiled ''bad size'')
      else case pairing_points C (length input div 192) input of
             None \<Rightarrow> Inl (errPrecompiled ''bn256'')
           | Some (ar, br) \<Rightarrow> Inr (if PairingCheck C ar br then trueBytes else falseBytes))"

subsection \<open>Modular exponentiation (\<^verbatim>\<open>modexp.go\<close>)\<close>

definition adjustedExponentLength :: "int \<Rightarrow> int \<Rightarrow> int" where
  "adjustedExponentLength expLen head' =
     (let bitlength = (if head' \<noteq> 0 then int (BitLen head') - 1 else 0)
      in if expLen \<le> 32 then bitlength else (expLen - 32) * 8 + bitlength)"

definition subMul :: "int \<Rightarrow> int \<Rightarrow> int \<Rightarrow> int \<Rightarrow> int" where
  "subMul x a b c = (x * b - c) + x * x div a"

definition multComplexity :: "int \<Rightarrow> int" where
  "multComplexity x =
     (if x \<le> 64 then x * x
      else if x \<le> 1024 then subMul x 4 96 3072
      else subMul x 16 480 199680)"

text \<open>The three lengths in front of the operands.\<close>

definition modExp_lengths :: "bytes \<Rightarrow> int \<times> int \<times> int" where
  "modExp_lengths input =
     (let (val1, tail) = Precompiled_get input 32; (val2, tail) = Precompiled_get tail 32; (val3, _) = Precompiled_get tail 32
      in (SetBytes val1, SetBytes val2, SetBytes val3))"

definition modExp_gas :: "bytes \<Rightarrow> uint64" where
  "modExp_gas input =
     (let (baseLen, expLen, modLen) = modExp_lengths input;
          input = (if length input > 96 then drop 96 input else []);
          expHeadLen = (if expLen < 32 then Uint64 expLen else 32);
          bLen = Uint64 baseLen;
          expHead = (if bLen < word_of_nat (length input)
            then SetBytes (fst (Precompiled_get (drop (unat bLen) input) (unat expHeadLen))) else 0);
          gasCost = (if modLen \<ge> baseLen then modLen else baseLen);
          gasCost = multComplexity gasCost;
          adjExpLen = adjustedExponentLength expLen expHead;
          gasCost = (if adjExpLen \<ge> 1 then gasCost * adjExpLen else gasCost * 1);
          gasCost = gasCost div 20
      in if \<not> IsUint64 gasCost then - 1 else Uint64 gasCost)"

text \<open>\<^verbatim>\<open>base.Exp(base, exponent, modulus)\<close> for a positive modulus.\<close>

definition big_Exp :: "int \<Rightarrow> int \<Rightarrow> int \<Rightarrow> int" where
  "big_Exp base exponent modulus = base ^ nat exponent mod modulus"

definition modExp_run :: "bytes \<Rightarrow> contract_result option" where
  "modExp_run input =
     (let (baseLen, input) = getUint64 input; (exponentLen, input) = getUint64 input; (modulusLen, input) = getUint64 input in
      if baseLen = 0 \<and> modulusLen = 0 then Some (Inr [])
      else Option.bind (get_sized input baseLen) (\<lambda>(val1, input).
           Option.bind (get_sized input exponentLen) (\<lambda>(val2, input).
           Option.bind (get_sized input modulusLen) (\<lambda>(val3, _).
             let base = SetBytes val1; exponent = SetBytes val2; modulus = SetBytes val3;
                 res = (if modulus \<noteq> 0 then Bytes (big_Exp base exponent modulus) else [])
             in Some (Inr (leftPad res (unat modulusLen)))))))"

subsection \<open>The BLAKE2 compression function (\<^verbatim>\<open>blake2f.go\<close>)\<close>

text \<open>\<^verbatim>\<open>bits.RotateLeft64(x, k)\<close> rotates to the right for a negative \<open>k\<close>.\<close>

definition RotateLeft64 :: "uint64 \<Rightarrow> int \<Rightarrow> uint64" where
  "RotateLeft64 x k = word_rotl (nat (k mod 64)) x"

type_synonym blake_vars =
  "uint64 \<times> uint64 \<times> uint64 \<times> uint64 \<times> uint64 \<times> uint64 \<times> uint64 \<times> uint64 \<times>
   uint64 \<times> uint64 \<times> uint64 \<times> uint64 \<times> uint64 \<times> uint64 \<times> uint64 \<times> uint64"

definition F_round :: "uint64 list \<Rightarrow> nat list \<Rightarrow> blake_vars \<Rightarrow> blake_vars" where
  "F_round m s vs =
     (let (v0, v1, v2, v3, v4, v5, v6, v7, v8, v9, v10, v11, v12, v13, v14, v15) = vs;
          v0 = v0 + m ! (s ! 0); v0 = v0 + v4; v12 = v12 XOR v0; v12 = RotateLeft64 v12 (- 32); v8 = v8 + v12; v4 = v4 XOR v8; v4 = RotateLeft64 v4 (- 24);
          v1 = v1 + m ! (s ! 1); v1 = v1 + v5; v13 = v13 XOR v1; v13 = RotateLeft64 v13 (- 32); v9 = v9 + v13; v5 = v5 XOR v9; v5 = RotateLeft64 v5 (- 24);
          v2 = v2 + m ! (s ! 2); v2 = v2 + v6; v14 = v14 XOR v2; v14 = RotateLeft64 v14 (- 32); v10 = v10 + v14; v6 = v6 XOR v10; v6 = RotateLeft64 v6 (- 24);
          v3 = v3 + m ! (s ! 3); v3 = v3 + v7; v15 = v15 XOR v3; v15 = RotateLeft64 v15 (- 32); v11 = v11 + v15; v7 = v7 XOR v11; v7 = RotateLeft64 v7 (- 24);
          v0 = v0 + m ! (s ! 4); v0 = v0 + v4; v12 = v12 XOR v0; v12 = RotateLeft64 v12 (- 16); v8 = v8 + v12; v4 = v4 XOR v8; v4 = RotateLeft64 v4 (- 63);
          v1 = v1 + m ! (s ! 5); v1 = v1 + v5; v13 = v13 XOR v1; v13 = RotateLeft64 v13 (- 16); v9 = v9 + v13; v5 = v5 XOR v9; v5 = RotateLeft64 v5 (- 63);
          v2 = v2 + m ! (s ! 6); v2 = v2 + v6; v14 = v14 XOR v2; v14 = RotateLeft64 v14 (- 16); v10 = v10 + v14; v6 = v6 XOR v10; v6 = RotateLeft64 v6 (- 63);
          v3 = v3 + m ! (s ! 7); v3 = v3 + v7; v15 = v15 XOR v3; v15 = RotateLeft64 v15 (- 16); v11 = v11 + v15; v7 = v7 XOR v11; v7 = RotateLeft64 v7 (- 63);
          v0 = v0 + m ! (s ! 8); v0 = v0 + v5; v15 = v15 XOR v0; v15 = RotateLeft64 v15 (- 32); v10 = v10 + v15; v5 = v5 XOR v10; v5 = RotateLeft64 v5 (- 24);
          v1 = v1 + m ! (s ! 9); v1 = v1 + v6; v12 = v12 XOR v1; v12 = RotateLeft64 v12 (- 32); v11 = v11 + v12; v6 = v6 XOR v11; v6 = RotateLeft64 v6 (- 24);
          v2 = v2 + m ! (s ! 10); v2 = v2 + v7; v13 = v13 XOR v2; v13 = RotateLeft64 v13 (- 32); v8 = v8 + v13; v7 = v7 XOR v8; v7 = RotateLeft64 v7 (- 24);
          v3 = v3 + m ! (s ! 11); v3 = v3 + v4; v14 = v14 XOR v3; v14 = RotateLeft64 v14 (- 32); v9 = v9 + v14; v4 = v4 XOR v9; v4 = RotateLeft64 v4 (- 24);
          v0 = v0 + m ! (s ! 12); v0 = v0 + v5; v15 = v15 XOR v0; v15 = RotateLeft64 v15 (- 16); v10 = v10 + v15; v5 = v5 XOR v10; v5 = RotateLeft64 v5 (- 63);
          v1 = v1 + m ! (s ! 13); v1 = v1 + v6; v12 = v12 XOR v1; v12 = RotateLeft64 v12 (- 16); v11 = v11 + v12; v6 = v6 XOR v11; v6 = RotateLeft64 v6 (- 63);
          v2 = v2 + m ! (s ! 14); v2 = v2 + v7; v13 = v13 XOR v2; v13 = RotateLeft64 v13 (- 16); v8 = v8 + v13; v7 = v7 XOR v8; v7 = RotateLeft64 v7 (- 63);
          v3 = v3 + m ! (s ! 15); v3 = v3 + v4; v14 = v14 XOR v3; v14 = RotateLeft64 v14 (- 16); v9 = v9 + v14; v4 = v4 XOR v9; v4 = RotateLeft64 v4 (- 63)
      in (v0, v1, v2, v3, v4, v5, v6, v7, v8, v9, v10, v11, v12, v13, v14, v15))"

definition precomputed :: "nat list list" where
  "precomputed = [
     [0, 2, 4, 6, 1, 3, 5, 7, 8, 10, 12, 14, 9, 11, 13, 15],
     [14, 4, 9, 13, 10, 8, 15, 6, 1, 0, 11, 5, 12, 2, 7, 3],
     [11, 12, 5, 15, 8, 0, 2, 13, 10, 3, 7, 9, 14, 6, 1, 4],
     [7, 3, 13, 11, 9, 1, 12, 14, 2, 5, 4, 15, 6, 10, 0, 8],
     [9, 5, 2, 10, 0, 7, 4, 15, 14, 11, 6, 3, 1, 12, 8, 13],
     [2, 6, 0, 8, 12, 10, 11, 3, 4, 7, 15, 1, 13, 5, 14, 9],
     [12, 1, 14, 4, 5, 15, 13, 10, 0, 6, 9, 8, 7, 3, 2, 11],
     [13, 7, 12, 3, 11, 14, 1, 9, 5, 15, 8, 2, 0, 4, 6, 10],
     [6, 14, 11, 0, 15, 9, 3, 8, 12, 13, 1, 10, 2, 7, 4, 5],
     [10, 8, 7, 1, 2, 4, 6, 5, 15, 9, 3, 13, 11, 14, 12, 0]]"

definition IV :: "uint64 list" where
  "IV = [0x6a09e667f3bcc908, 0xbb67ae8584caa73b, 0x3c6ef372fe94f82b, 0xa54ff53a5f1d36f1, 0x510e527fade682d1, 0x9b05688c2b3e6c1f, 0x1f83d9abfb41bd6b, 0x5be0cd19137e2179]"

text \<open>The loop counts a \<^verbatim>\<open>uint32\<close> from \<open>j\<close> up; \<open>n\<close> rounds are left.\<close>

primrec F_rounds :: "uint64 list \<Rightarrow> nat \<Rightarrow> nat \<Rightarrow> blake_vars \<Rightarrow> blake_vars" where
  "F_rounds m 0 j vs = vs"
| "F_rounds m (Suc n) j vs = F_rounds m n (j + 1) (F_round m (precomputed ! (j mod 10)) vs)"

definition F :: "uint64 list \<Rightarrow> uint64 list \<Rightarrow> uint64 list \<Rightarrow> bool \<Rightarrow> 32 word \<Rightarrow> uint64 list" where
  "F h m c f rounds =
     (let c0 = c ! 0; c1 = c ! 1;
          v12 = IV ! 4 XOR c0; v13 = IV ! 5 XOR c1;
          v14 = (if f then IV ! 6 XOR 0xffffffffffffffff else IV ! 6);
          (v0, v1, v2, v3, v4, v5, v6, v7, v8, v9, v10, v11, v12, v13, v14, v15) =
            F_rounds m (unat rounds) 0 (h ! 0, h ! 1, h ! 2, h ! 3, h ! 4, h ! 5, h ! 6, h ! 7,
              IV ! 0, IV ! 1, IV ! 2, IV ! 3, v12, v13, v14, IV ! 7)
      in [h ! 0 XOR (v0 XOR v8), h ! 1 XOR (v1 XOR v9), h ! 2 XOR (v2 XOR v10), h ! 3 XOR (v3 XOR v11),
          h ! 4 XOR (v4 XOR v12), h ! 5 XOR (v5 XOR v13), h ! 6 XOR (v6 XOR v14), h ! 7 XOR (v7 XOR v15)])"

text \<open>Little-endian 64-bit words.\<close>

definition Uint64_LE :: "bytes \<Rightarrow> uint64" where
  "Uint64_LE bs = word_of_nat (nat_SetBytes (rev (take 8 bs)))"

definition PutUint64_LE :: "uint64 \<Rightarrow> bytes" where
  "PutUint64_LE w = map (\<lambda>i. ucast (drop_bit (8 * i) w)) [0..<8]"

definition words_LE :: "nat \<Rightarrow> bytes \<Rightarrow> uint64 list" where
  "words_LE n bs = map (\<lambda>i. Uint64_LE (drop (8 * i) bs)) [0..<n]"

definition blake2f_gas :: "bytes \<Rightarrow> uint64" where
  "blake2f_gas input = (if length input \<noteq> 213 then 0 else ucast (word_of_nat (nat_SetBytes (take 4 input)) :: 32 word))"

definition blake2f_run :: "bytes \<Rightarrow> contract_result" where
  "blake2f_run input =
     (if length input \<noteq> 213 then Inl (errPrecompiled ''bad length'')
      else if input ! 212 \<noteq> 0 \<and> input ! 212 \<noteq> 1 then Inl (errPrecompiled ''bad flag'')
      else let rounds = word_of_nat (nat_SetBytes (take 4 input)); input = drop 4 input;
               h = words_LE 8 input; input = drop 64 input;
               m = words_LE 16 input; input = drop 128 input;
               c = words_LE 2 input;
               flag = input ! 16;
               h = F h m c (flag = 1) rounds
           in Inr (concat (map (\<lambda>i. PutUint64_LE (h ! i)) [0..<8])))"

subsection \<open>The runtime (\<^verbatim>\<open>precompiled.go\<close>)\<close>

datatype contract =
  ecrecover | sha256h | ripemd160h | identity | modExp | bn256Add | bn256Mul | bn256Pairing | blake2f

definition contracts :: "(Address \<times> contract) list" where
  "contracts = [(1, ecrecover), (2, sha256h), (3, ripemd160h), (4, identity), (5, modExp), (6, bn256Add),
     (7, bn256Mul), (8, bn256Pairing), (9, blake2f)]"

definition contract_gas :: "contract \<Rightarrow> bytes \<Rightarrow> ForksInTime \<Rightarrow> uint64" where
  "contract_gas c input config = (case c of
     ecrecover \<Rightarrow> ecrecover_gas
   | sha256h \<Rightarrow> sha256h_gas input
   | ripemd160h \<Rightarrow> ripemd160h_gas input
   | identity \<Rightarrow> identity_gas input
   | modExp \<Rightarrow> modExp_gas input
   | bn256Add \<Rightarrow> bn256Add_gas config
   | bn256Mul \<Rightarrow> bn256Mul_gas config
   | bn256Pairing \<Rightarrow> bn256Pairing_gas input config
   | blake2f \<Rightarrow> blake2f_gas input)"

definition contract_run :: "crypto_lib \<Rightarrow> sig_lib \<Rightarrow> precompiled_lib \<Rightarrow> contract \<Rightarrow> bytes \<Rightarrow> contract_result option" where
  "contract_run L S C c input = (case c of
     ecrecover \<Rightarrow> Some (ecrecover_run L S input)
   | sha256h \<Rightarrow> Some (sha256h_run C input)
   | ripemd160h \<Rightarrow> Some (ripemd160h_run C input)
   | identity \<Rightarrow> Some (identity_run input)
   | modExp \<Rightarrow> modExp_run input
   | bn256Add \<Rightarrow> Some (bn256Add_run C input)
   | bn256Mul \<Rightarrow> Some (bn256Mul_run C input)
   | bn256Pairing \<Rightarrow> Some (bn256Pairing_run C input)
   | blake2f \<Rightarrow> Some (blake2f_run input))"

definition Precompiled_CanRun :: "Contract \<Rightarrow> ForksInTime \<Rightarrow> bool" where
  "Precompiled_CanRun c config =
     (if map_of contracts (c_CodeAddress c) = None then False
      else if c_CodeAddress c \<in> {5, 6, 7, 8} then Byzantium config
      else if c_CodeAddress c = 9 then Istanbul config
      else True)"

definition Precompiled_Run ::
    "crypto_lib \<Rightarrow> sig_lib \<Rightarrow> precompiled_lib \<Rightarrow> Contract \<Rightarrow> ForksInTime \<Rightarrow> ExecutionResult option" where
  "Precompiled_Run L S C c config =
     Option.bind (map_of contracts (c_CodeAddress c)) (\<lambda>contract.
       let gasCost = contract_gas contract (c_Input c) config in
       if c_Gas c < gasCost then Some \<lparr>r_ReturnValue = [], r_GasLeft = 0, r_GasUsed = 0, r_Err = Some ErrOutOfGas\<rparr>
       else map_option (\<lambda>r. case r of
           Inl e \<Rightarrow> \<lparr>r_ReturnValue = [], r_GasLeft = 0, r_GasUsed = 0, r_Err = Some e\<rparr>
         | Inr returnValue \<Rightarrow> \<lparr>r_ReturnValue = returnValue, r_GasLeft = c_Gas c - gasCost, r_GasUsed = 0, r_Err = None\<rparr>)
         (contract_run L S C contract (c_Input c)))"

lemma Precompiled_Run_gas:
  assumes "Precompiled_Run L S C c config = Some r"
  shows "r_GasLeft r \<le> c_Gas c"
proof -
  obtain k where k: "map_of contracts (c_CodeAddress c) = Some k"
    using assms by (cases "map_of contracts (c_CodeAddress c)") (auto simp: Precompiled_Run_def)
  show ?thesis
  proof (cases "contract_run L S C k (c_Input c)")
    case (Some res)
    then show ?thesis using assms k
      by (cases res) (auto simp: Precompiled_Run_def Let_def not_less word_sub_le split: if_splits)
  qed (use assms k in \<open>auto simp: Precompiled_Run_def Let_def split: if_splits\<close>)
qed

end
