(* ===== verification/Block.thy ===== *)
theory Block
  imports Types
begin

section \<open>Headers and blocks (\<^verbatim>\<open>types/header.go\<close>)\<close>

text \<open>
  The header of a block and the block. The cached size of a block is not modelled; the nonce of a
  header is its eight bytes as a number.
\<close>

definition EmptyRootHash :: Hash where
  "EmptyRootHash = 0x56e81f171bcc55a6ff8345e692c0f86e5b48e01b996cadc001622fb5e363b421"

definition EmptyUncleHash :: Hash where
  "EmptyUncleHash = 0x1dcc4de8dec75d7aab85b567b6ccd41ad312451b948a7413f0a142fd40d49347"

record Header =
  hd_ParentHash :: Hash
  hd_Sha3Uncles :: Hash
  hd_Miner :: bytes
  hd_StateRoot :: Hash
  hd_TxRoot :: Hash
  hd_ReceiptsRoot :: Hash
  hd_LogsBloom :: Bloom
  hd_Difficulty :: uint64
  hd_Number :: uint64
  hd_GasLimit :: uint64
  hd_GasUsed :: uint64
  hd_Timestamp :: uint64
  hd_ExtraData :: bytes
  hd_MixHash :: Hash
  hd_Nonce :: uint64
  hd_Hash :: Hash

definition Header_Equal :: "Header \<Rightarrow> Header \<Rightarrow> bool" where
  "Header_Equal h hh \<longleftrightarrow> hd_Hash h = hd_Hash hh"

definition HasBody :: "Header \<Rightarrow> bool" where
  "HasBody h \<longleftrightarrow> hd_TxRoot h \<noteq> EmptyRootHash \<or> hd_Sha3Uncles h \<noteq> EmptyUncleHash"

definition HasReceipts :: "Header \<Rightarrow> bool" where
  "HasReceipts h \<longleftrightarrow> hd_ReceiptsRoot h \<noteq> EmptyRootHash"

definition Header_SetNonce :: "Header \<Rightarrow> uint64 \<Rightarrow> Header" where
  "Header_SetNonce h i = h\<lparr>hd_Nonce := i\<rparr>"

definition IsGenesis :: "Header \<Rightarrow> bool" where
  "IsGenesis h \<longleftrightarrow> hd_Hash h \<noteq> 0 \<and> hd_Number h = 0"

record Body =
  bd_Transactions :: "Transaction list"
  bd_Uncles :: "Header list"

record Block =
  b_Header :: Header
  b_Transactions :: "Transaction list"
  b_Uncles :: "Header list"

definition Block_Hash :: "Block \<Rightarrow> Hash" where
  "Block_Hash b = hd_Hash (b_Header b)"

definition Block_Number :: "Block \<Rightarrow> uint64" where
  "Block_Number b = hd_Number (b_Header b)"

definition Block_ParentHash :: "Block \<Rightarrow> Hash" where
  "Block_ParentHash b = hd_ParentHash (b_Header b)"

definition Block_Body :: "Block \<Rightarrow> Body" where
  "Block_Body b = \<lparr>bd_Transactions = b_Transactions b, bd_Uncles = b_Uncles b\<rparr>"

definition WithSeal :: "Block \<Rightarrow> Header \<Rightarrow> Block" where
  "WithSeal b header = b\<lparr>b_Header := header\<rparr>"

end
