(* ===== verification/Transition.thy ===== *)
theory Transition
  imports World EVM_Gas Precompiled Block
begin

section \<open>Executing transactions (\<^verbatim>\<open>state/executor.go\<close>)\<close>

text \<open>
  A \<open>Transition\<close> executes the transactions of a block on the world state of theory \<open>Txn\<close>, runs
  contract code with the machine of theory \<open>EVM\<close> or a precompiled contract, and is itself the host
  of the running contract. Its fields that never change after \<open>BeginTxn\<close> (the active forks, the
  block hash function, the runtimes and their libraries, the hook) are fields of the environment;
  the tracer, which only observes, is left out.

  Contracts call contracts. The nested call is a parameter \<open>callx\<close> of the definitions and is tied
  by recursion on the number of levels that may still be entered; the sources refuse calls at
  a depth of more than 1025, and the theorems show that 1025 levels are enough.
\<close>

subsection \<open>State and environment\<close>

record ('t, 'c) Transition =
  tr_state :: "('t, 'c) Txn"
  tr_ctx :: TxContext
  tr_gasPool :: uint64
  tr_receipts :: "Receipt list"
  tr_totalGas :: uint64

record ('s, 't, 'c) tenv = "('s, 't, 'c) env" +
  e_config :: ForksInTime
  e_getHash :: "uint64 \<Rightarrow> Hash"
  e_sig :: sig_lib
  e_precompiles :: precompiled_lib
  e_PostHook :: "(('t, 'c) Transition \<Rightarrow> ('t, 'c) Transition) option"

definition spuriousDragonMaxCodeSize :: nat where
  "spuriousDragonMaxCodeSize = 24576"

definition TxGas :: uint64 where
  "TxGas = 21000"

definition TxGasContractCreation :: uint64 where
  "TxGasContractCreation = 53000"

definition emptyCodeHashTwo :: "crypto_lib \<Rightarrow> Hash" where
  "emptyCodeHashTwo L = BytesToHash (Keccak256 L [])"

abbreviation on_state :: "(('t, 'c) Txn \<Rightarrow> ('t, 'c) Txn) \<Rightarrow> ('t, 'c) Transition \<Rightarrow> ('t, 'c) Transition" where
  "on_state f t \<equiv> t\<lparr>tr_state := f (tr_state t)\<rparr>"

subsection \<open>The host of a contract\<close>

definition Transition_Selfdestruct ::
    "('s, 't, 'c) tenv \<Rightarrow> ('t, 'c) Transition \<Rightarrow> Address \<Rightarrow> Address \<Rightarrow> ('t, 'c) Transition" where
  "Transition_Selfdestruct E t addr beneficiary =
     (let s = tr_state t;
          s = (if \<not> HasSuicided E s addr then AddRefund E s 24000 else s);
          s = AddBalance E s beneficiary (Txn_GetBalance E s addr)
      in t\<lparr>tr_state := snd (Suicide E s addr)\<rparr>)"

text \<open>The interface \<^verbatim>\<open>runtime.Host\<close> of a transition.\<close>

definition host ::
    "('s, 't, 'c) tenv \<Rightarrow> (('t, 'c) Transition \<Rightarrow> Contract \<Rightarrow> (ExecutionResult \<times> ('t, 'c) Transition) outcome) \<Rightarrow>
     ('t, 'c) Transition Host" where
  "host E callx = \<lparr>
     AccountExists = (\<lambda>t addr. Exist E (tr_state t) addr),
     GetStorage = (\<lambda>t addr key. GetState E (tr_state t) addr key),
     SetStorage = (\<lambda>t addr key value' config.
       let (status, s) = Txn_SetStorage E (tr_state t) addr key value' config in (status, t\<lparr>tr_state := s\<rparr>)),
     GetBalance = (\<lambda>t addr. Txn_GetBalance E (tr_state t) addr),
     GetCodeSize = (\<lambda>t addr. let (n, s) = Txn_GetCodeSize E (tr_state t) addr in (n, t\<lparr>tr_state := s\<rparr>)),
     GetCodeHash = (\<lambda>t addr. Txn_GetCodeHash E (tr_state t) addr),
     GetCode = (\<lambda>t addr. let (code, s) = Txn_GetCode E (tr_state t) addr in (code, t\<lparr>tr_state := s\<rparr>)),
     Selfdestruct = Transition_Selfdestruct E,
     GetTxContext = tr_ctx,
     GetBlockHash = (\<lambda>t number. e_getHash E (word_of_int number)),
     EmitLog = (\<lambda>t addr topics bs. on_state (\<lambda>s. Txn_EmitLog E s addr topics bs) t),
     Callx = callx,
     Empty = (\<lambda>t addr. Txn_Empty E (tr_state t) addr),
     GetNonce = (\<lambda>t addr. Txn_GetNonce E (tr_state t) addr),
     GetRefund = (\<lambda>t. Txn_GetRefund E (tr_state t))\<rparr>"

subsection \<open>Calls and contract creation\<close>

definition Transition_run ::
    "('s, 't, 'c) tenv \<Rightarrow> ('t, 'c) Transition Host \<Rightarrow> ('t, 'c) Transition \<Rightarrow> Contract \<Rightarrow>
     (ExecutionResult \<times> ('t, 'c) Transition) outcome" where
  "Transition_run E H t contract =
     (if Precompiled_CanRun contract (e_config E)
      then of_option (map_option (\<lambda>r. (r, t))
        (Precompiled_Run (e_crypto E) (e_sig E) (e_precompiles E) contract (e_config E)))
      else EVM_Run H (e_crypto E) contract t (e_config E))"

definition transfer ::
    "('s, 't, 'c) tenv \<Rightarrow> ('t, 'c) Transition \<Rightarrow> Address \<Rightarrow> Address \<Rightarrow> int option \<Rightarrow> vm_error + ('t, 'c) Transition" where
  "transfer E t from to' amount =
     (case amount of
        None \<Rightarrow> Inr t
      | Some amount \<Rightarrow>
          (case SubBalance E (tr_state t) from amount of
             None \<Rightarrow> Inl ErrInsufficientBalance
           | Some s \<Rightarrow> Inr (t\<lparr>tr_state := AddBalance E s to' amount\<rparr>)))"

definition failure :: "uint64 \<Rightarrow> vm_error \<Rightarrow> ExecutionResult" where
  "failure gasLeft e = \<lparr>r_ReturnValue = [], r_GasLeft = gasLeft, r_GasUsed = 0, r_Err = Some e\<rparr>"

text \<open>\<open>revert_state\<close> goes back to a snapshot of the world state.\<close>

definition revert_state :: "('t, 'c) Transition \<Rightarrow> nat \<Rightarrow> ('t, 'c) Transition outcome" where
  "revert_state t snapshot =
     obind (of_option (RevertToSnapshot (tr_state t) snapshot)) (\<lambda>s. Val (t\<lparr>tr_state := s\<rparr>))"

definition finish_applyCall ::
    "('s, 't, 'c) tenv \<Rightarrow> ('t, 'c) Transition Host \<Rightarrow> Contract \<Rightarrow> nat \<Rightarrow> ('t, 'c) Transition \<Rightarrow>
     (ExecutionResult \<times> ('t, 'c) Transition) outcome" where
  "finish_applyCall E H c snapshot t =
     obind (Transition_run E H t c) (\<lambda>(result, t).
       if Failed result then obind (revert_state t snapshot) (\<lambda>t. Val (result, t))
       else Val (result, t))"

definition applyCall ::
    "('s, 't, 'c) tenv \<Rightarrow> ('t, 'c) Transition Host \<Rightarrow> ('t, 'c) Transition \<Rightarrow> Contract \<Rightarrow> CallType \<Rightarrow>
     (ExecutionResult \<times> ('t, 'c) Transition) outcome" where
  "applyCall E H t c kind =
     (if c_Depth c > 1024 + 1 then Val (failure (c_Gas c) ErrDepth, t)
      else let (snapshot, s) = Snapshot (tr_state t);
               t = t\<lparr>tr_state := TouchAccount E s (c_Address c)\<rparr>
           in if kind = Call
              then case transfer E t (c_Caller c) (c_Address c) (c_Value c) of
                     Inl err \<Rightarrow> Val (failure (c_Gas c) err, t)
                   | Inr t \<Rightarrow> finish_applyCall E H c snapshot t
              else finish_applyCall E H c snapshot t)"

definition hasCodeOrNonce :: "('s, 't, 'c) tenv \<Rightarrow> ('t, 'c) Transition \<Rightarrow> Address \<Rightarrow> bool" where
  "hasCodeOrNonce E t addr =
     (if Txn_GetNonce E (tr_state t) addr \<noteq> 0 then True
      else let codeHash = Txn_GetCodeHash E (tr_state t) addr
           in codeHash \<noteq> emptyCodeHashTwo (e_crypto E) \<and> codeHash \<noteq> 0)"

text \<open>The end of a creation: the code a constructor returned is paid for and stored.\<close>

definition store_code ::
    "('s, 't, 'c) tenv \<Rightarrow> Contract \<Rightarrow> nat \<Rightarrow> ExecutionResult \<Rightarrow> ('t, 'c) Transition \<Rightarrow>
     (ExecutionResult \<times> ('t, 'c) Transition) outcome" where
  "store_code E c snapshot result t =
     (if Failed result then obind (revert_state t snapshot) (\<lambda>t. Val (result, t))
      else if EIP158 (e_config E) \<and> length (r_ReturnValue result) > spuriousDragonMaxCodeSize
      then obind (revert_state t snapshot) (\<lambda>t. Val (failure 0 ErrMaxCodeSizeExceeded, t))
      else let gasCost = word_of_nat (length (r_ReturnValue result)) * 200 in
        if r_GasLeft result < gasCost
        then let result = result\<lparr>r_Err := Some ErrCodeStoreOutOfGas, r_ReturnValue := []\<rparr> in
          if Homestead (e_config E)
          then obind (revert_state t snapshot) (\<lambda>t. Val (result\<lparr>r_GasLeft := 0\<rparr>, t))
          else Val (result, t)
        else Val (result\<lparr>r_GasLeft := r_GasLeft result - gasCost\<rparr>,
          on_state (\<lambda>s. SetCode E s (c_Address c) (r_ReturnValue result)) t))"

definition applyCreate ::
    "('s, 't, 'c) tenv \<Rightarrow> ('t, 'c) Transition Host \<Rightarrow> ('t, 'c) Transition \<Rightarrow> Contract \<Rightarrow>
     (ExecutionResult \<times> ('t, 'c) Transition) outcome" where
  "applyCreate E H t c =
     (if c_Depth c > 1024 + 1 then Val (failure (c_Gas c) ErrDepth, t)
      else let t = on_state (\<lambda>s. IncrNonce E s (c_Caller c)) t in
        if hasCodeOrNonce E t (c_Address c) then Val (failure 0 ErrContractAddressCollision, t)
        else let (snapshot, s) = Snapshot (tr_state t);
                 s = (if EIP158 (e_config E) then IncrNonce E (CreateAccount E s (c_Address c)) (c_Address c) else s);
                 t = t\<lparr>tr_state := s\<rparr>
             in case transfer E t (c_Caller c) (c_Address c) (c_Value c) of
                  Inl err \<Rightarrow> Val (failure (c_Gas c) err, t)
                | Inr t \<Rightarrow> obind (Transition_run E H t c) (\<lambda>(result, t). store_code E c snapshot result t))"

definition Transition_Callx ::
    "('s, 't, 'c) tenv \<Rightarrow> ('t, 'c) Transition Host \<Rightarrow> ('t, 'c) Transition \<Rightarrow> Contract \<Rightarrow>
     (ExecutionResult \<times> ('t, 'c) Transition) outcome" where
  "Transition_Callx E H t c =
     (if c_Type c = Create then applyCreate E H t c else applyCall E H t c (c_Type c))"

text \<open>The host that allows \<open>n\<close> more levels of calls.\<close>

primrec callx ::
    "nat \<Rightarrow> ('s, 't, 'c) tenv \<Rightarrow> ('t, 'c) Transition \<Rightarrow> Contract \<Rightarrow> (ExecutionResult \<times> ('t, 'c) Transition) outcome" where
  "callx 0 E = (\<lambda>t c. NoFuel)"
| "callx (Suc n) E = Transition_Callx E (host E (callx n E))"

definition maxCallLevels :: nat where
  "maxCallLevels = 1025"

abbreviation top_host :: "('s, 't, 'c) tenv \<Rightarrow> ('t, 'c) Transition Host" where
  "top_host E \<equiv> host E (callx maxCallLevels E)"

definition Transition_Create2 ::
    "('s, 't, 'c) tenv \<Rightarrow> ('t, 'c) Transition \<Rightarrow> Address \<Rightarrow> bytes \<Rightarrow> int \<Rightarrow> uint64 \<Rightarrow>
     (ExecutionResult \<times> ('t, 'c) Transition) outcome" where
  "Transition_Create2 E t caller code value' gas' =
     (let address = CreateAddress (e_crypto E) caller (Txn_GetNonce E (tr_state t) caller);
          contract = NewContractCreation 1 caller caller address (Some value') gas' code
      in applyCreate E (top_host E) t contract)"

definition Transition_Call2 ::
    "('s, 't, 'c) tenv \<Rightarrow> ('t, 'c) Transition \<Rightarrow> Address \<Rightarrow> Address \<Rightarrow> bytes \<Rightarrow> int \<Rightarrow> uint64 \<Rightarrow>
     (ExecutionResult \<times> ('t, 'c) Transition) outcome" where
  "Transition_Call2 E t caller to' input value' gas' =
     (let (code, s) = Txn_GetCode E (tr_state t) to';
          c = NewContractCall 1 caller caller to' (Some value') gas' code input
      in applyCall E (top_host E) (t\<lparr>tr_state := s\<rparr>) c Call)"

subsection \<open>Applying a transaction\<close>

datatype apply_cause =
  ErrNonceIncorrect | ErrNotEnoughFundsForGas | ErrBlockLimitReached | ErrIntrinsicGasOverflow
| ErrNotEnoughIntrinsicGas | ErrNotEnoughFundsForValue | ErrSender sig_error

datatype apply_error =
  TransitionApplicationError (cause: apply_cause) (IsRecoverable: bool)
| GasLimitReachedTransitionApplicationError (cause: apply_cause)

definition subGasPool :: "('t, 'c) Transition \<Rightarrow> uint64 \<Rightarrow> ('t, 'c) Transition option" where
  "subGasPool t amount =
     (if tr_gasPool t < amount then None else Some (t\<lparr>tr_gasPool := tr_gasPool t - amount\<rparr>))"

definition addGasPool :: "('t, 'c) Transition \<Rightarrow> uint64 \<Rightarrow> ('t, 'c) Transition" where
  "addGasPool t amount = t\<lparr>tr_gasPool := tr_gasPool t + amount\<rparr>"

definition subGasLimitPrice ::
    "('s, 't, 'c) tenv \<Rightarrow> ('t, 'c) Transition \<Rightarrow> Transaction \<Rightarrow> ('t, 'c) Transition option" where
  "subGasLimitPrice E t msg =
     (let upfrontGasCost = t_GasPrice msg * uint (t_Gas msg)
      in map_option (\<lambda>s. t\<lparr>tr_state := s\<rparr>) (SubBalance E (tr_state t) (t_From msg) upfrontGasCost))"

definition nonceCheck :: "('s, 't, 'c) tenv \<Rightarrow> ('t, 'c) Transition \<Rightarrow> Transaction \<Rightarrow> bool" where
  "nonceCheck E t msg \<longleftrightarrow> Txn_GetNonce E (tr_state t) (t_From msg) = t_Nonce msg"

definition TransactionGasCost :: "Transaction \<Rightarrow> bool \<Rightarrow> bool \<Rightarrow> uint64 option" where
  "TransactionGasCost msg isHomestead isIstanbul =
     (let cost = (if IsContractCreation msg \<and> isHomestead then TxGasContractCreation else TxGas);
          payload = t_Input msg
      in if payload = [] then Some cost
         else let zeros = foldl (\<lambda>zeros b. if b = 0 then zeros + 1 else zeros) (0 :: uint64) payload;
                  nonZeros = word_of_nat (length payload) - zeros;
                  nonZeroCost = (if isIstanbul then 16 else 68)
              in if (0xFFFFFFFFFFFFFFFF - cost) div nonZeroCost < nonZeros then None
                 else let cost = cost + nonZeros * nonZeroCost
                      in if (0xFFFFFFFFFFFFFFFF - cost) div 4 < zeros then None
                         else Some (cost + zeros * 4))"

text \<open>Running the message once the checks have passed, and settling the gas.\<close>

definition execute_msg ::
    "('s, 't, 'c) tenv \<Rightarrow> ('t, 'c) Transition \<Rightarrow> Transaction \<Rightarrow> uint64 \<Rightarrow>
     (ExecutionResult \<times> ('t, 'c) Transition) outcome" where
  "execute_msg E t msg gasLeft =
     (case t_To msg of
        None \<Rightarrow> Transition_Create2 E t (t_From msg) (t_Input msg) (t_Value msg) gasLeft
      | Some to' \<Rightarrow> Transition_Call2 E (on_state (\<lambda>s. IncrNonce E s (t_From msg)) t)
          (t_From msg) to' (t_Input msg) (t_Value msg) gasLeft)"

definition settle ::
    "('s, 't, 'c) tenv \<Rightarrow> Transaction \<Rightarrow> ExecutionResult \<Rightarrow> ('t, 'c) Transition \<Rightarrow>
     ExecutionResult \<times> ('t, 'c) Transition" where
  "settle E msg result t =
     (let result = UpdateGasUsed result (t_Gas msg) (Txn_GetRefund E (tr_state t));
          remaining = uint (r_GasLeft result) * t_GasPrice msg;
          s = AddBalance E (tr_state t) (t_From msg) remaining;
          coinbaseFee = uint (r_GasUsed result) * t_GasPrice msg;
          s = AddBalance E s (x_Coinbase (tr_ctx t)) coinbaseFee
      in (result, addGasPool (t\<lparr>tr_state := s\<rparr>) (r_GasLeft result)))"

text \<open>An error comes with the transition as the failing check left it.\<close>

definition Transition_apply ::
    "('s, 't, 'c) tenv \<Rightarrow> ('t, 'c) Transition \<Rightarrow> Transaction \<Rightarrow>
     ((apply_error + ExecutionResult) \<times> ('t, 'c) Transition) outcome" where
  "Transition_apply E t msg =
     (if \<not> nonceCheck E t msg then Val (Inl (TransitionApplicationError ErrNonceIncorrect True), t)
      else case subGasLimitPrice E t msg of
        None \<Rightarrow> Val (Inl (TransitionApplicationError ErrNotEnoughFundsForGas True), t)
      | Some t \<Rightarrow> (case subGasPool t (t_Gas msg) of
        None \<Rightarrow> Val (Inl (GasLimitReachedTransitionApplicationError ErrBlockLimitReached), t)
      | Some t \<Rightarrow> (case TransactionGasCost msg (Homestead (e_config E)) (Istanbul (e_config E)) of
        None \<Rightarrow> Val (Inl (TransitionApplicationError ErrIntrinsicGasOverflow False), t)
      | Some intrinsicGasCost \<Rightarrow>
          (let gasLeft = t_Gas msg - intrinsicGasCost in
           if gasLeft > t_Gas msg
           then Val (Inl (TransitionApplicationError ErrNotEnoughIntrinsicGas False), t)
           else if Txn_GetBalance E (tr_state t) (t_From msg) < t_Value msg
           then Val (Inl (TransitionApplicationError ErrNotEnoughFundsForValue True), t)
           else let t = t\<lparr>tr_ctx := (tr_ctx t)\<lparr>x_GasPrice := BytesToHash (Bytes (t_GasPrice msg)),
                                              x_Origin := t_From msg\<rparr>\<rparr>
                in obind (execute_msg E t msg gasLeft) (\<lambda>(result, t).
                     let (result, t) = settle E msg result t in Val (Inr result, t))))))"

definition run_PostHook :: "('s, 't, 'c) tenv \<Rightarrow> ('t, 'c) Transition \<Rightarrow> ('t, 'c) Transition" where
  "run_PostHook E t = (case e_PostHook E of None \<Rightarrow> t | Some hook \<Rightarrow> hook t)"

definition Apply ::
    "('s, 't, 'c) tenv \<Rightarrow> ('t, 'c) Transition \<Rightarrow> Transaction \<Rightarrow>
     ((apply_error + ExecutionResult) \<times> ('t, 'c) Transition) outcome" where
  "Apply E t msg =
     (let (snapshot, s) = Snapshot (tr_state t)
      in obind (Transition_apply E (t\<lparr>tr_state := s\<rparr>) msg) (\<lambda>(result, t).
           case result of
             Inl err \<Rightarrow> obind (revert_state t snapshot) (\<lambda>t. Val (Inl err, run_PostHook E t))
           | Inr r \<Rightarrow> Val (Inr r, run_PostHook E t)))"

subsection \<open>Writing a transaction into the block\<close>

text \<open>
  The transaction with its sender recovered, when it has none. The sources store the sender in the
  transaction they are given; the model passes the changed transaction on.
\<close>

definition with_sender ::
    "('s, 't, 'c) tenv \<Rightarrow> ('t, 'c) Transition \<Rightarrow> Transaction \<Rightarrow> (apply_error + Transaction) outcome" where
  "with_sender E t txn =
     (if t_From txn \<noteq> 0 then Val (Inr txn)
      else obind (of_option (Sender (e_crypto E) (e_sig E)
             (NewSigner (e_config E) (word_of_int (x_ChainID (tr_ctx t)))) txn)) (\<lambda>r.
        case r of
          Inl err \<Rightarrow> Val (Inl (TransitionApplicationError (ErrSender err) False))
        | Inr from \<Rightarrow> Val (Inr (txn\<lparr>t_From := from\<rparr>))))"

definition new_receipt :: "uint64 \<Rightarrow> Hash \<Rightarrow> uint64 \<Rightarrow> Receipt" where
  "new_receipt totalGas hash gasUsed = \<lparr>rc_Root = 0, rc_CumulativeGasUsed = totalGas,
     rc_LogsBloom = replicate BloomByteLength 0, rc_Logs = [], rc_Status = None, rc_GasUsed = gasUsed,
     rc_ContractAddress = None, rc_TxHash = hash\<rparr>"

definition created_address :: "('s, 't, 'c) tenv \<Rightarrow> Transaction \<Rightarrow> Receipt \<Rightarrow> Receipt" where
  "created_address E msg receipt =
     (if t_To msg = None
      then SetContractAddress receipt (CreateAddress (e_crypto E) (t_From msg) (t_Nonce msg)) else receipt)"

definition set_bloom :: "('s, 't, 'c) tenv \<Rightarrow> Receipt \<Rightarrow> Receipt" where
  "set_bloom E receipt = receipt\<lparr>rc_LogsBloom := CreateBloom (Keccak256 (e_crypto E)) [receipt]\<rparr>"

definition WriteFailedReceipt ::
    "('s, 't, 'c) tenv \<Rightarrow> ('t, 'c) Transition \<Rightarrow> Transaction \<Rightarrow>
     (apply_error option \<times> ('t, 'c) Transition) outcome" where
  "WriteFailedReceipt E t txn =
     obind (with_sender E t txn) (\<lambda>r. case r of
       Inl err \<Rightarrow> Val (Some err, t)
     | Inr txn \<Rightarrow>
         let (logs, s) = Logs E (tr_state t);
             receipt = (new_receipt (tr_totalGas t) (t_Hash txn) 0)\<lparr>rc_Logs := logs\<rparr>;
             receipt = created_address E txn (SetStatus (set_bloom E receipt) ReceiptFailed)
         in Val (None, t\<lparr>tr_state := s, tr_receipts := tr_receipts t @ [receipt]\<rparr>))"

definition Write ::
    "('s, 't, 'c) tenv \<Rightarrow> ('t, 'c) Transition \<Rightarrow> Transaction \<Rightarrow>
     (apply_error option \<times> ('t, 'c) Transition) outcome" where
  "Write E t txn =
     obind (with_sender E t txn) (\<lambda>r. case r of
       Inl err \<Rightarrow> Val (Some err, t)
     | Inr txn \<Rightarrow>
         let msg = Transaction_Copy txn in
         obind (Apply E t msg) (\<lambda>(result, t). case result of
           Inl err \<Rightarrow> Val (Some err, t)
         | Inr result \<Rightarrow>
             let t = t\<lparr>tr_totalGas := tr_totalGas t + r_GasUsed result\<rparr>;
                 (logs, s) = Logs E (tr_state t);
                 receipt = new_receipt (tr_totalGas t) (t_Hash txn) (r_GasUsed result)
             in obind (of_option (CleanDeleteObjects E s True)) (\<lambda>s.
                  let receipt = SetStatus receipt (if Failed result then ReceiptFailed else ReceiptSuccess);
                      receipt = created_address E msg receipt;
                      receipt = set_bloom E (receipt\<lparr>rc_Logs := logs\<rparr>)
                  in Val (None, t\<lparr>tr_state := s, tr_receipts := tr_receipts t @ [receipt]\<rparr>))))"

subsection \<open>Direct changes of the world state\<close>

record GenesisAccount =
  ga_Code :: bytes
  ga_Storage :: "(Hash \<times> Hash) list"
  ga_Balance :: "int option"
  ga_Nonce :: uint64

text \<open>\<open>SetBalance\<close> dereferences the balance: a nil one panics.\<close>

definition SetAccountDirectly ::
    "('s, 't, 'c) tenv \<Rightarrow> ('t, 'c) Transition \<Rightarrow> Address \<Rightarrow> GenesisAccount \<Rightarrow>
     (bool \<times> ('t, 'c) Transition) outcome" where
  "SetAccountDirectly E t addr account =
     (if Exist E (tr_state t) addr then Val (False, t)
      else let s = SetCode E (tr_state t) addr (ga_Code account);
               s = foldl (\<lambda>s (key, value'). snd (Txn_SetStorage E s addr key value' (e_config E))) s (ga_Storage account)
           in obind (of_option (ga_Balance account)) (\<lambda>balance.
                Val (True, t\<lparr>tr_state := SetNonce E (SetBalance E s addr balance) addr (ga_Nonce account)\<rparr>)))"

definition SetCodeDirectly ::
    "('s, 't, 'c) tenv \<Rightarrow> ('t, 'c) Transition \<Rightarrow> Address \<Rightarrow> bytes \<Rightarrow> bool \<times> ('t, 'c) Transition" where
  "SetCodeDirectly E t addr code =
     (if \<not> Exist E (tr_state t) addr then (False, t) else (True, on_state (\<lambda>s. SetCode E s addr code) t))"

subsection \<open>The executor\<close>

text \<open>
  The interfaces \<^verbatim>\<open>State\<close> and \<^verbatim>\<open>Snapshot\<close> of the persistent state: opening a snapshot, which fails
  for an unknown root, and committing objects to one.
\<close>

record State =
  st_NewSnapshotAt :: "Hash \<Rightarrow> readSnapshot option"
  st_NewSnapshot :: readSnapshot
  st_Commit :: "readSnapshot \<Rightarrow> Object list \<Rightarrow> readSnapshot \<times> bytes"

record ('s, 't, 'c) Executor =
  ex_Forks :: Forks
  ex_ChainID :: int
  ex_state :: State
  ex_GetHash :: "Header \<Rightarrow> uint64 \<Rightarrow> Hash"
  ex_env :: "('s, 't, 'c) tenv"

definition Transition_Commit ::
    "('s, 't, 'c) tenv \<Rightarrow> State \<Rightarrow> ('t, 'c) Transition \<Rightarrow> (readSnapshot \<times> Hash) option" where
  "Transition_Commit E st t =
     map_option (\<lambda>(objs, s). let (s2, root) = st_Commit st (tx_snapshot (tr_state t)) objs in (s2, BytesToHash root))
       (Txn_Commit E (tr_state t) (EIP155 (e_config E)))"

text \<open>The order in which Go visits the accounts of the map is that of the list.\<close>

definition genesis_account ::
    "('s, 't, 'c) tenv \<Rightarrow> ('t, 'c) Txn \<Rightarrow> Address \<times> GenesisAccount \<Rightarrow> ('t, 'c) Txn" where
  "genesis_account E s entry =
     (case entry of (addr, account) \<Rightarrow>
        let s = (case ga_Balance account of None \<Rightarrow> s | Some b \<Rightarrow> AddBalance E s addr b);
            s = (if ga_Nonce account \<noteq> 0 then SetNonce E s addr (ga_Nonce account) else s);
            s = (if ga_Code account \<noteq> [] then SetCode E s addr (ga_Code account) else s)
        in foldl (\<lambda>s (key, value'). SetState E s addr key value') s (ga_Storage account))"

definition WriteGenesis ::
    "('s, 't, 'c) Executor \<Rightarrow> (Address \<times> GenesisAccount) list \<Rightarrow> (Hash \<times> readSnapshot) option" where
  "WriteGenesis X alloc =
     (let snap = st_NewSnapshot (ex_state X);
          txn = foldl (genesis_account (ex_env X)) (newTxn (ex_env X) snap) alloc
      in map_option (\<lambda>(objs, s). let (s2, root) = st_Commit (ex_state X) snap objs in (BytesToHash root, s2))
           (Txn_Commit (ex_env X) txn False))"

definition GetForksInTime :: "('s, 't, 'c) Executor \<Rightarrow> uint64 \<Rightarrow> ForksInTime" where
  "GetForksInTime X blockNumber = Forks_At (ex_Forks X) blockNumber"

text \<open>Beginning a block gives the transition and the environment of its transactions.\<close>

definition BeginTxn ::
    "('s, 't, 'c) Executor \<Rightarrow> Hash \<Rightarrow> Header \<Rightarrow> Address \<Rightarrow>
     (('s, 't, 'c) tenv \<times> ('t, 'c) Transition) option" where
  "BeginTxn X parentRoot header coinbaseReceiver =
     (let forkConfig = Forks_At (ex_Forks X) (hd_Number header) in
      map_option (\<lambda>auxSnap2.
        let E = (ex_env X)\<lparr>e_config := forkConfig, e_getHash := ex_GetHash X header\<rparr>;
            txCtx = \<lparr>x_GasPrice = 0, x_Origin = 0, x_Coinbase = coinbaseReceiver,
              x_Number = sint (hd_Number header), x_Timestamp = sint (hd_Timestamp header),
              x_GasLimit = sint (hd_GasLimit header), x_ChainID = ex_ChainID X,
              x_Difficulty = BytesToHash (Bytes (uint (hd_Difficulty header)))\<rparr>
        in (E, \<lparr>tr_state = newTxn E auxSnap2, tr_ctx = txCtx, tr_gasPool = word_of_int (x_GasLimit txCtx),
             tr_receipts = [], tr_totalGas = 0\<rparr>))
        (st_NewSnapshotAt (ex_state X) parentRoot))"

primrec write_all ::
    "('s, 't, 'c) tenv \<Rightarrow> uint64 \<Rightarrow> Transaction list \<Rightarrow> ('t, 'c) Transition \<Rightarrow>
     (apply_error + ('t, 'c) Transition) outcome" where
  "write_all E gasLimit [] txn = Val (Inr txn)"
| "write_all E gasLimit (t # ts) txn =
     obind (if ExceedsBlockGasLimit t gasLimit then WriteFailedReceipt E txn t else Write E txn t) (\<lambda>(err, txn).
       case err of Some e \<Rightarrow> Val (Inl e) | None \<Rightarrow> write_all E gasLimit ts txn)"

text \<open>The error \<^const>\<open>None\<close> is that of opening the parent's state.\<close>

definition ProcessBlock ::
    "('s, 't, 'c) Executor \<Rightarrow> Hash \<Rightarrow> Block \<Rightarrow> Address \<Rightarrow>
     (apply_error option + ('t, 'c) Transition) outcome" where
  "ProcessBlock X parentRoot block blockCreator =
     (case BeginTxn X parentRoot (b_Header block) blockCreator of
        None \<Rightarrow> Val (Inl None)
      | Some (E, txn) \<Rightarrow>
          obind (write_all E (hd_GasLimit (b_Header block)) (b_Transactions block) txn) (\<lambda>r.
            case r of Inl e \<Rightarrow> Val (Inl (Some e)) | Inr txn \<Rightarrow> Val (Inr txn)))"

end
