(* ===== verification/Execution.thy ===== *)
theory Execution
  imports Transition
begin

section \<open>What nested executions do to the world state\<close>

text \<open>
  The transition is the host of the machine, and the machine is what the transition runs. This
  theory closes the circle. The locale \<open>world_relation\<close> has the laws of a relation between world
  states that every operation a contract can reach keeps; by induction on the levels of calls,
  executions keep it too, which gives the host laws of the machine (locale \<open>evm_host\<close>) for the host
  of the transition. It is interpreted twice: executions never raise the supply, and static ones
  change no balance, nonce, storage, log or refund.
\<close>

subsection \<open>The fields that executions keep\<close>

definition ctx_ok :: "('s, 't, 'c) tenv \<Rightarrow> ('t, 'c) Transition \<Rightarrow> bool" where
  "ctx_ok E t \<longleftrightarrow> EIP150 (e_config E) \<and> 0 \<le> x_Number (tr_ctx t) \<and> 0 \<le> x_Timestamp (tr_ctx t) \<and> 0 \<le> x_GasLimit (tr_ctx t)"

definition frame :: "('t, 'c) Transition \<Rightarrow> ('t, 'c) Transition \<Rightarrow> bool" where
  "frame t t' \<longleftrightarrow> tr_ctx t' = tr_ctx t \<and> tr_gasPool t' = tr_gasPool t \<and> tr_receipts t' = tr_receipts t \<and>
     tr_totalGas t' = tr_totalGas t \<and> tx_snapshot (tr_state t') = tx_snapshot (tr_state t) \<and>
     take (length (tx_snapshots (tr_state t))) (tx_snapshots (tr_state t')) = tx_snapshots (tr_state t)"

lemma frame_refl [simp]: "frame t t"
  by (simp add: frame_def)

lemma take_prefix_trans:
  assumes "take (length a) b = a" and "take (length b) c = b"
  shows "take (length a) c = a"
proof -
  have "length a \<le> length b" using arg_cong [OF assms(1), of length] by simp
  then have "take (length a) c = take (length a) (take (length b) c)" by (simp add: min_def)
  then show ?thesis by (simp add: assms)
qed

lemma frame_trans: "frame t t' \<Longrightarrow> frame t' t'' \<Longrightarrow> frame t t''"
  unfolding frame_def using take_prefix_trans by (metis (no_types, lifting))

lemma frame_state:
  "tx_snapshot s = tx_snapshot (tr_state t) \<Longrightarrow> tx_snapshots s = tx_snapshots (tr_state t) \<Longrightarrow> frame t (t\<lparr>tr_state := s\<rparr>)"
  by (simp add: frame_def)

lemma account_ops_same [simp]:
  "tx_snapshot (AddBalance E s a b) = tx_snapshot s" "tx_snapshots (AddBalance E s a b) = tx_snapshots s"
  "tx_snapshot (IncrNonce E s a) = tx_snapshot s" "tx_snapshots (IncrNonce E s a) = tx_snapshots s"
  "tx_snapshot (SetCode E s a code) = tx_snapshot s" "tx_snapshots (SetCode E s a code) = tx_snapshots s"
  "tx_snapshot (TouchAccount E s a) = tx_snapshot s" "tx_snapshots (TouchAccount E s a) = tx_snapshots s"
  "tx_snapshot (snd (Suicide E s a)) = tx_snapshot s" "tx_snapshots (snd (Suicide E s a)) = tx_snapshots s"
  "tx_snapshot (Txn_EmitLog E s a ts bs) = tx_snapshot s" "tx_snapshots (Txn_EmitLog E s a ts bs) = tx_snapshots s"
  by (simp_all add: AddBalance_def IncrNonce_def SetCode_def TouchAccount_def Suicide_def Txn_EmitLog_def AddLog_def Let_def)

lemma CreateAccount_same [simp]:
  "tx_snapshot (CreateAccount E s a) = tx_snapshot s" "tx_snapshots (CreateAccount E s a) = tx_snapshots s"
  by (simp_all add: CreateAccount_def Let_def split: option.split)

lemma SubBalance_same:
  "SubBalance E s a v = Some s' \<Longrightarrow> tx_snapshot s' = tx_snapshot s \<and> tx_snapshots s' = tx_snapshots s"
  by (auto simp: SubBalance_def split: if_splits)

subsection \<open>Relations that executions keep\<close>

definition keeps ::
    "('s, 't, 'c) tenv \<Rightarrow> (('t, 'c) Txn \<Rightarrow> ('t, 'c) Txn \<Rightarrow> bool) \<Rightarrow> ('t, 'c) Transition \<Rightarrow> ('t, 'c) Transition \<Rightarrow> bool" where
  "keeps E Q t t' \<longleftrightarrow> (ctx_ok E t \<longrightarrow> frame t t' \<and> Q (tr_state t) (tr_state t'))"

locale world_relation =
  fixes E :: "('s, 't, 'c) tenv" and Q :: "('t, 'c) Txn \<Rightarrow> ('t, 'c) Txn \<Rightarrow> bool" and st :: bool
  assumes Q_trans [trans]: "Q s s' \<Longrightarrow> Q s' s'' \<Longrightarrow> Q s s''"
    and Q_same: "tx_txn s' = tx_txn s \<Longrightarrow> tx_snapshot s' = tx_snapshot s \<Longrightarrow> Q s s'"
    and Q_touch: "Q s (TouchAccount E s a)"
    and Q_transfer: "SubBalance E s a v = Some s' \<Longrightarrow> 0 \<le> v \<Longrightarrow> (st \<Longrightarrow> v = 0) \<Longrightarrow> Q s (AddBalance E s' b v)"
    and Q_nonce: "\<not> st \<Longrightarrow> Q s (IncrNonce E s a)"
    and Q_create: "\<not> st \<Longrightarrow> Q s (CreateAccount E s a)"
    and Q_code: "\<not> st \<Longrightarrow> Q s (SetCode E s a code)"
    and Q_storage: "\<not> st \<Longrightarrow> Q s (snd (Txn_SetStorage E s a k w cfg))"
    and Q_log: "\<not> st \<Longrightarrow> Q s (Txn_EmitLog E s a ts bs)"
    and Q_selfdestruct: "\<not> st \<Longrightarrow> Q (tr_state t) (tr_state (Transition_Selfdestruct E t a b))"
begin

abbreviation kept :: "('t, 'c) Transition \<Rightarrow> ('t, 'c) Transition \<Rightarrow> bool" where
  "kept \<equiv> keeps E Q"

lemma keeps_refl [simp]: "kept t t"
  by (simp add: keeps_def Q_same)

lemma keeps_ctx: "kept t t' \<Longrightarrow> ctx_ok E t \<Longrightarrow> ctx_ok E t'"
  by (simp add: keeps_def ctx_ok_def frame_def)

lemma keeps_trans [trans]: "kept t t' \<Longrightarrow> kept t' t'' \<Longrightarrow> kept t t''"
  using keeps_ctx unfolding keeps_def by (blast intro: frame_trans Q_trans)

lemma keeps_state:
  assumes "tx_snapshot s = tx_snapshot (tr_state t)" and "tx_snapshots s = tx_snapshots (tr_state t)" and "Q (tr_state t) s"
  shows "kept t (t\<lparr>tr_state := s\<rparr>)"
  using assms by (simp add: keeps_def frame_state)

lemma keeps_code: "kept t (t\<lparr>tr_state := snd (Txn_GetCode E (tr_state t) a)\<rparr>)"
  by (rule keeps_state) (simp_all add: Q_same)

text \<open>What the host laws ask of the nested call.\<close>

definition callx_ok where
  "callx_ok cx \<longleftrightarrow> (\<forall>t m r t'. cx t m = Val (r, t') \<longrightarrow> child st m \<longrightarrow> kept t t') \<and>
     (\<forall>t m r t'. EIP150 (e_config E) \<longrightarrow> cx t m = Val (r, t') \<longrightarrow> r_GasLeft r \<le> c_Gas m)"

lemma callx_okD:
  assumes "callx_ok cx" and "cx t m = Val (r, t')"
  shows "child st m \<Longrightarrow> kept t t'" and "EIP150 (e_config E) \<Longrightarrow> r_GasLeft r \<le> c_Gas m"
  using assms unfolding callx_ok_def by blast+

lemma host_laws:
  assumes "callx_ok cx"
  shows "evm_host (host E cx) (ctx_ok E) kept st (EIP150 (e_config E))"
proof
  show "kept h h''" if "kept h h'" "kept h' h''" for h h' h'' using that by (rule keeps_trans)
  show "ctx_ok E h'" if "kept h h'" "ctx_ok E h" for h h' using that by (rule keeps_ctx)
  show "0 \<le> x_Number (GetTxContext (host E cx) h) \<and> 0 \<le> x_Timestamp (GetTxContext (host E cx) h) \<and>
      0 \<le> x_GasLimit (GetTxContext (host E cx) h)" if "ctx_ok E h" for h
    using that by (simp add: host_def ctx_ok_def)
  show "kept h (snd (GetCodeSize (host E cx) h a))" for h a
    using keeps_code [of h a] by (simp add: host_def Txn_GetCodeSize_def Let_def case_prod_beta)
  show "kept h (snd (GetCode (host E cx) h a))" for h a
    using keeps_code [of h a] by (simp add: host_def case_prod_beta)
  show "kept h (snd (SetStorage (host E cx) h a k v cfg))" if "\<not> st" for h a k v cfg
    using keeps_state [of _ h] Q_storage [OF that] by (simp add: host_def case_prod_beta)
  show "kept h (Selfdestruct (host E cx) h a b)" if "\<not> st" for h a b
    using Q_selfdestruct [OF that, of h a b] by (simp add: host_def keeps_def frame_def Transition_Selfdestruct_def Let_def)
  show "kept h (EmitLog (host E cx) h a ts bs)" if "\<not> st" for h a ts bs
    using keeps_state [of _ h] Q_log [OF that] by (simp add: host_def)
  show "kept h h'" if "Callx (host E cx) h m = Val (r, h')" "child st m" for h m r h'
    using that assms by (auto simp: host_def callx_ok_def)
  show "r_GasLeft r \<le> c_Gas m" if "EIP150 (e_config E)" "Callx (host E cx) h m = Val (r, h')" for h m r h'
    using that assms unfolding callx_ok_def by (simp add: host_def) blast
qed (simp_all add: host_def)

lemma run_keeps:
  assumes "callx_ok cx" and "Transition_run E (host E cx) t m = Val (r, t')"
  shows "st \<longrightarrow> c_Static m \<Longrightarrow> value_ok m \<Longrightarrow> kept t t'"
    and "EIP150 (e_config E) \<Longrightarrow> st \<longrightarrow> c_Static m \<Longrightarrow> r_GasLeft r \<le> c_Gas m"
proof -
  note laws = evm_host.EVM_Run_ok [OF host_laws [OF assms(1)]]
  show "kept t t'" if "st \<longrightarrow> c_Static m" "value_ok m"
  proof (cases "Precompiled_CanRun m (e_config E) \<or> \<not> EIP150 (e_config E)")
    case True
    then show ?thesis using assms(2) by (auto simp: Transition_run_def keeps_def ctx_ok_def Q_same)
  next
    case False
    then show ?thesis using assms(2) laws(1) [of "e_crypto E" m t "e_config E" r t'] that
      by (cases "ctx_ok E t") (simp_all add: Transition_run_def keeps_def)
  qed
  show "EIP150 (e_config E) \<Longrightarrow> st \<longrightarrow> c_Static m \<Longrightarrow> r_GasLeft r \<le> c_Gas m"
    using assms(2) laws(2) [of "e_crypto E" m t "e_config E" r t'] Precompiled_Run_gas
    by (auto simp: Transition_run_def split: if_splits)
qed

lemma transfer_keeps:
  assumes "transfer E t a b v = Inr t'" and "\<forall>x. v = Some x \<longrightarrow> 0 \<le> x \<and> (st \<longrightarrow> x = 0)"
  shows "kept t t'"
  using assms Q_transfer SubBalance_same by (fastforce simp: transfer_def intro!: keeps_state split: option.splits)

lemma snapshot_keeps: "kept t (t\<lparr>tr_state := snd (Snapshot (tr_state t))\<rparr>)"
  by (simp add: keeps_def frame_def Snapshot_def Q_same)

lemma revert_keeps:
  assumes "kept (t0\<lparr>tr_state := snd (Snapshot (tr_state t0))\<rparr>) t"
    and "revert_state t (length (tx_snapshots (tr_state t0))) = Val t'"
  shows "kept t0 t'"
  unfolding keeps_def
proof
  let ?n = "length (tx_snapshots (tr_state t0))"
  assume "ctx_ok E t0"
  then have fr: "frame (t0\<lparr>tr_state := snd (Snapshot (tr_state t0))\<rparr>) t"
    using assms(1) by (simp add: keeps_def ctx_ok_def)
  then have pre: "take (Suc ?n) (tx_snapshots (tr_state t)) = tx_snapshots (tr_state t0) @ [tx_txn (tr_state t0)]"
    by (simp add: frame_def Snapshot_def)
  then have "tx_snapshots (tr_state t) ! ?n = tx_txn (tr_state t0)"
    by (metis lessI nth_append_length nth_take)
  then have t': "t' = t\<lparr>tr_state := (tr_state t)\<lparr>tx_txn := tx_txn (tr_state t0)\<rparr>\<rparr>"
    using assms(2) by (auto simp: revert_state_def obind_eq_Val RevertToSnapshot_def split: if_splits)
  have "frame t0 t" using snapshot_keeps [of t0] fr frame_trans \<open>ctx_ok E t0\<close> unfolding keeps_def by blast
  then show "frame t0 t' \<and> Q (tr_state t0) (tr_state t')"
    by (auto simp: t' frame_def intro!: Q_same)
qed

lemma finish_applyCall_keeps:
  assumes "callx_ok cx" and "kept (t0\<lparr>tr_state := snd (Snapshot (tr_state t0))\<rparr>) t"
    and "finish_applyCall E (host E cx) m (length (tx_snapshots (tr_state t0))) t = Val (r, t')"
    and "st \<longrightarrow> c_Static m" and "value_ok m"
  shows "kept t0 t'"
proof -
  obtain t1 where run: "Transition_run E (host E cx) t m = Val (r, t1)"
    and fin: "if Failed r then revert_state t1 (length (tx_snapshots (tr_state t0))) = Val t' else t' = t1"
    using assms(3) by (auto simp: finish_applyCall_def obind_eq_Val split: if_splits)
  have k: "kept (t0\<lparr>tr_state := snd (Snapshot (tr_state t0))\<rparr>) t1"
    using assms(2) run_keeps(1) [OF assms(1) run assms(4,5)] by (rule keeps_trans)
  then show ?thesis using fin revert_keeps [OF k] keeps_trans [OF snapshot_keeps k] by (simp split: if_splits)
qed

lemma applyCall_keeps:
  assumes "callx_ok cx" and "applyCall E (host E cx) t m kind = Val (r, t')"
    and "st \<longrightarrow> c_Static m \<and> (kind = Call \<longrightarrow> c_Value m = Some 0)" and "value_ok m"
  shows "kept t t'"
proof (cases "c_Depth m > 1025")
  case False
  define t1 where "t1 = t\<lparr>tr_state := snd (Snapshot (tr_state t))\<rparr>"
  define t2 where "t2 = t1\<lparr>tr_state := TouchAccount E (tr_state t1) (c_Address m)\<rparr>"
  have t2: "kept t1 t2" unfolding t2_def by (rule keeps_state) (simp_all add: Q_touch)
  have t02: "kept t t2" using keeps_trans [OF snapshot_keeps] t2 unfolding t1_def by blast
  note fin = finish_applyCall_keeps [OF assms(1), of t _ m r t', folded t1_def]
  show ?thesis
  proof (cases "kind = Call")
    case True
    show ?thesis
    proof (cases "transfer E t2 (c_Caller m) (c_Address m) (c_Value m)")
      case (Inl e)
      then show ?thesis using assms(2) False True t02 by (simp add: applyCall_def Snapshot_def t2_def t1_def Let_def)
    next
      case (Inr t3)
      have "kept t2 t3" using transfer_keeps [OF Inr] assms(3,4) True by (auto simp: value_ok_def)
      then show ?thesis using fin [of t3] assms(2-4) False True Inr keeps_trans [OF t2]
        by (simp add: applyCall_def Snapshot_def t2_def t1_def Let_def)
    qed
  next
    case False
    then show ?thesis using fin [OF t2] assms(2-4) \<open>\<not> c_Depth m > 1025\<close>
      by (simp add: applyCall_def Snapshot_def t2_def t1_def Let_def)
  qed
qed (use assms(2) in \<open>simp add: applyCall_def\<close>)

lemma store_code_keeps:
  assumes "\<not> st" and "kept (t0\<lparr>tr_state := snd (Snapshot (tr_state t0))\<rparr>) t"
    and "store_code E m (length (tx_snapshots (tr_state t0))) r t = Val (r', t')"
  shows "kept t0 t'"
proof -
  let ?revert = "\<lambda>t'. revert_state t (length (tx_snapshots (tr_state t0))) = Val t'"
  have "?revert t' \<or> t' = t \<or> t' = on_state (\<lambda>s. SetCode E s (c_Address m) (r_ReturnValue r)) t"
    using assms(3) unfolding store_code_def Let_def by (auto simp: obind_eq_Val split: if_splits)
  moreover have "kept t (on_state (\<lambda>s. SetCode E s (c_Address m) (r_ReturnValue r)) t)"
    by (rule keeps_state) (simp_all add: Q_code assms(1))
  ultimately show ?thesis
    using revert_keeps [OF assms(2)] keeps_trans [OF snapshot_keeps assms(2)] keeps_trans by blast
qed

lemma applyCreate_keeps:
  assumes "\<not> st" and "callx_ok cx" and "applyCreate E (host E cx) t m = Val (r, t')" and "value_ok m"
  shows "kept t t'"
proof (cases "c_Depth m > 1025")
  case False
  define t1 where "t1 = on_state (\<lambda>s. IncrNonce E s (c_Caller m)) t"
  define t2 where "t2 = t1\<lparr>tr_state := snd (Snapshot (tr_state t1))\<rparr>"
  define s3 where "s3 = (if EIP158 (e_config E)
    then IncrNonce E (CreateAccount E (tr_state t2) (c_Address m)) (c_Address m) else tr_state t2)"
  define t3 where "t3 = t2\<lparr>tr_state := s3\<rparr>"
  have t1: "kept t t1" unfolding t1_def by (rule keeps_state) (simp_all add: Q_nonce assms(1))
  have "Q (tr_state t2) s3"
    using Q_trans [OF Q_create Q_nonce] assms(1) by (simp add: s3_def Q_same)
  then have t3: "kept t2 t3" unfolding t3_def by (intro keeps_state) (simp_all add: s3_def)
  have body: "applyCreate E (host E cx) t m =
     (if hasCodeOrNonce E t1 (c_Address m) then Val (failure 0 ErrContractAddressCollision, t1)
      else case transfer E t3 (c_Caller m) (c_Address m) (c_Value m) of
             Inl err \<Rightarrow> Val (failure (c_Gas m) err, t3)
           | Inr t \<Rightarrow> obind (Transition_run E (host E cx) t m) (\<lambda>(result, t).
               store_code E m (length (tx_snapshots (tr_state t1))) result t))"
    using False by (simp add: applyCreate_def t1_def [symmetric] Snapshot_def t3_def s3_def t2_def Let_def split: sum.split)
  have t13: "kept t1 t3" using keeps_trans [OF snapshot_keeps] t3 unfolding t2_def by blast
  have "kept t1 t'"
  proof (cases "transfer E t3 (c_Caller m) (c_Address m) (c_Value m)")
    case (Inl e)
    then show ?thesis using assms(3) t13 by (simp add: body split: if_splits)
  next
    case (Inr t4)
    have "kept t3 t4" using transfer_keeps [OF Inr] assms(1,4) by (simp add: value_ok_def)
    then have t24: "kept t2 t4" using keeps_trans [OF t3] by blast
    consider "t' = t1" | r1 t5 where "Transition_run E (host E cx) t4 m = Val (r1, t5)"
      "store_code E m (length (tx_snapshots (tr_state t1))) r1 t5 = Val (r, t')"
      using assms(3) Inr by (auto simp: body obind_eq_Val split: if_splits)
    then show ?thesis
    proof cases
      case 2
      have "kept t2 t5" using keeps_trans [OF t24 run_keeps(1) [OF assms(2) 2(1)]] assms(1,4) by simp
      then show ?thesis using store_code_keeps [OF assms(1) _ 2(2)] unfolding t2_def by simp
    qed simp
  qed
  then show ?thesis using keeps_trans [OF t1] by simp
qed (use assms(3) in \<open>simp add: applyCreate_def\<close>)

lemma Transition_Callx_keeps:
  assumes "callx_ok cx" and "Transition_Callx E (host E cx) t m = Val (r, t')" and "child st m"
  shows "kept t t'"
  using assms applyCreate_keeps [OF _ assms(1), of t m r t'] applyCall_keeps [OF assms(1), of t m "c_Type m" r t']
  by (auto simp: Transition_Callx_def child_def split: if_splits)

text \<open>The gas an execution gives back.\<close>

lemma store_code_gas: "store_code E m n r t = Val (r', t') \<Longrightarrow> r_GasLeft r' \<le> r_GasLeft r"
  unfolding store_code_def Let_def
  by (auto simp: obind_eq_Val failure_def word_le_sub1 linorder_not_less split: if_splits intro: word_sub_le)

lemma applyCall_gas:
  assumes "callx_ok cx" and "applyCall E (host E cx) t m kind = Val (r, t')" and "EIP150 (e_config E)" and "st \<longrightarrow> c_Static m"
  shows "r_GasLeft r \<le> c_Gas m"
proof -
  have "r_GasLeft r \<le> c_Gas m" if "finish_applyCall E (host E cx) m n t0 = Val (r, t')" for t0 n
    using that run_keeps(2) [OF assms(1) _ assms(3,4)] by (auto simp: finish_applyCall_def obind_eq_Val split: if_splits)
  then show ?thesis
    using assms(2) by (auto simp: applyCall_def failure_def Let_def Snapshot_def split: if_splits sum.splits)
qed

lemma applyCreate_gas:
  assumes "callx_ok cx" and "applyCreate E (host E cx) t m = Val (r, t')" and "EIP150 (e_config E)" and "st \<longrightarrow> c_Static m"
  shows "r_GasLeft r \<le> c_Gas m"
  using assms(2) run_keeps(2) [OF assms(1) _ assms(3,4)] unfolding applyCreate_def Let_def Snapshot_def
  by (auto simp: failure_def obind_eq_Val split: if_splits sum.splits dest!: store_code_gas intro: order_trans)

lemma Transition_Callx_gas:
  assumes "callx_ok cx" and "Transition_Callx E (host E cx) t m = Val (r, t')" and "EIP150 (e_config E)" and "st \<longrightarrow> c_Static m"
  shows "r_GasLeft r \<le> c_Gas m"
  using assms(2) applyCall_gas [OF assms(1) _ assms(3,4)] applyCreate_gas [OF assms(1) _ assms(3,4)]
  by (auto simp: Transition_Callx_def split: if_splits)

lemma callx_ok_zero: "callx_ok (callx 0 E)"
  by (simp add: callx_ok_def)

lemma callx_ok_free: "\<not> st \<Longrightarrow> callx_ok (callx n E)"
proof (induction n)
  case (Suc n)
  then have "callx_ok (callx n E)" by blast
  then show ?case using Transition_Callx_keeps Transition_Callx_gas Suc.prems
    unfolding callx_ok_def callx.simps by blast
qed (rule callx_ok_zero)

lemma callx_ok_gas:
  assumes "\<And>n t m r t'. EIP150 (e_config E) \<Longrightarrow> callx n E t m = Val (r, t') \<Longrightarrow> r_GasLeft r \<le> c_Gas m"
  shows "callx_ok (callx n E)"
proof (induction n)
  case (Suc n)
  then show ?case using Transition_Callx_keeps [OF Suc] assms [of "Suc n"]
    unfolding callx_ok_def callx.simps by blast
qed (rule callx_ok_zero)

end

subsection \<open>Gas and levels of calls\<close>

text \<open>The relation that asks nothing gives what holds of every execution.\<close>

interpretation any_world: world_relation E "\<lambda>_ _. True" False for E
  by unfold_locales simp_all

interpretation nested: evm_host "host E (callx n E)" "ctx_ok E" "keeps E (\<lambda>_ _. True)" False "EIP150 (e_config E)" for E n
  by (rule any_world.host_laws) (simp add: any_world.callx_ok_free)

lemma callx_gas:
  assumes "EIP150 (e_config E)" and "callx n E t m = Val (r, t')"
  shows "r_GasLeft r \<le> c_Gas m"
  by (rule any_world.callx_okD(2) [OF any_world.callx_ok_free]) (use assms in simp_all)

lemma Transition_run_fuel:
  assumes "EIP150 (e_config E)" and "\<And>t m'. c_Depth m' = c_Depth m + 1 \<Longrightarrow> callx n E t m' \<noteq> NoFuel"
  shows "Transition_run E (host E (callx n E)) t m \<noteq> NoFuel"
proof -
  have "evm_host_depth (host E (callx n E)) (ctx_ok E) (keeps E (\<lambda>_ _. True)) False (EIP150 (e_config E)) (c_Depth m)"
    by unfold_locales (simp add: host_def assms(2))
  from evm_host_depth.EVM_Run_fuel [OF this _ assms(1) HOL.refl assms(1)] show ?thesis
    by (simp add: Transition_run_def)
qed

lemma revert_state_fuel: "revert_state t n \<noteq> NoFuel"
  by (simp add: revert_state_def obind_eq_NoFuel)

lemma apply_fuel:
  assumes "\<And>t. Transition_run E H t m \<noteq> NoFuel"
  shows "applyCall E H t m kind \<noteq> NoFuel" and "applyCreate E H t m \<noteq> NoFuel"
proof -
  have fin: "finish_applyCall E H m n t \<noteq> NoFuel" for n t
    by (auto simp: finish_applyCall_def obind_eq_NoFuel assms revert_state_fuel split: if_splits)
  show "applyCall E H t m kind \<noteq> NoFuel"
    by (simp add: applyCall_def Let_def Snapshot_def fin split: sum.split)
  have code: "store_code E m n r t \<noteq> NoFuel" for n r t
    by (simp add: store_code_def Let_def obind_eq_NoFuel revert_state_fuel)
  show "applyCreate E H t m \<noteq> NoFuel"
    unfolding applyCreate_def Let_def Snapshot_def
    by (auto simp: obind_eq_NoFuel code assms split: sum.split)
qed

lemma callx_fuel:
  assumes "EIP150 (e_config E)" and "1 \<le> n" and "1027 \<le> int n + c_Depth m"
  shows "callx n E t m \<noteq> NoFuel"
  using assms(2,3)
proof (induction n arbitrary: t m)
  case (Suc n)
  show ?case
  proof (cases "c_Depth m > 1025")
    case True
    then show ?thesis by (simp add: Transition_Callx_def applyCall_def applyCreate_def)
  next
    case False
    then have "Transition_run E (host E (callx n E)) t m \<noteq> NoFuel" for t
      using Suc by (intro Transition_run_fuel [OF assms(1)]) simp
    then show ?thesis by (simp add: Transition_Callx_def apply_fuel)
  qed
qed simp

interpretation top: evm_host_depth "top_host E" "ctx_ok E" "keeps E (\<lambda>_ _. True)" False "EIP150 (e_config E)" 1 for E
  by unfold_locales (simp add: host_def callx_fuel maxCallLevels_def)

text \<open>In a world relation, nested executions and whole messages keep it.\<close>

context world_relation
begin

lemma callx_ok_all: "callx_ok (callx n E)"
  by (rule callx_ok_gas) (rule callx_gas)

lemmas applyCall_all = applyCall_keeps [OF callx_ok_all]

lemmas applyCreate_all = applyCreate_keeps [OF _ callx_ok_all]

lemmas apply_gas_all = applyCall_gas [OF callx_ok_all] applyCreate_gas [OF callx_ok_all]

end

subsection \<open>The supply\<close>

definition supply_rel :: "('s, 't, 'c) tenv \<Rightarrow> ('t, 'c) Txn \<Rightarrow> ('t, 'c) Txn \<Rightarrow> bool" where
  "supply_rel E s s' \<longleftrightarrow> (laws E \<longrightarrow> total_supply E s' \<le> total_supply E s)"

lemma supply_rel_same: "(\<And>a. laws E \<Longrightarrow> Txn_GetBalance E s' a = Txn_GetBalance E s a) \<Longrightarrow> supply_rel E s s'"
  unfolding supply_rel_def using supply_same [of E s' s] by auto

lemma GetBalance_same_tree:
  "tx_txn s' = tx_txn s \<Longrightarrow> tx_snapshot s' = tx_snapshot s \<Longrightarrow> Txn_GetBalance E s' a = Txn_GetBalance E s a"
  using getStateObject_cong [of s' s E] by (simp add: Txn_GetBalance_def)

lemma supply_Selfdestruct:
  assumes "laws E"
  shows "total_supply E (tr_state (Transition_Selfdestruct E t a b)) \<le> total_supply E (tr_state t)"
proof -
  define s where "s = (if \<not> HasSuicided E (tr_state t) a then AddRefund E (tr_state t) 24000 else tr_state t)"
  define x where "x = Txn_GetBalance E s a"
  define s2 where "s2 = AddBalance E s b x"
  have s: "Txn_GetBalance E s a' = Txn_GetBalance E (tr_state t) a'" for a'
    by (simp add: s_def Txn_GetBalance_def view_simps assms)
  have "0 \<le> x" by (simp add: x_def)
  then have "total_supply E s2 = total_supply E (tr_state t) + x" and "x \<le> Txn_GetBalance E s2 a"
    using supply_same [of E s "tr_state t"] s
    by (simp_all add: s2_def supply_AddBalance GetBalance_AddBalance assms x_def)
  then show ?thesis
    by (simp add: Transition_Selfdestruct_def Let_def supply_Suicide assms flip: s_def x_def s2_def)
qed

interpretation supply_world: world_relation E "supply_rel E" False for E
proof
  show "supply_rel E s (AddBalance E s' b v)" if "SubBalance E s a v = Some s'" "0 \<le> v" for s a v s' b
    using that supply_SubBalance supply_AddBalance unfolding supply_rel_def by fastforce
  show "supply_rel E (tr_state t) (tr_state (Transition_Selfdestruct E t a b))" for t a b
    by (simp add: supply_rel_def supply_Selfdestruct)
  show "supply_rel E s s''" if "supply_rel E s s'" "supply_rel E s' s''" for s s' s''
    using that unfolding supply_rel_def by auto
  show "supply_rel E s s'" if "tx_txn s' = tx_txn s" "tx_snapshot s' = tx_snapshot s" for s s'
    by (rule supply_rel_same) (rule GetBalance_same_tree [OF that])
qed (rule supply_rel_same; simp add: view_simps)+

subsection \<open>Static executions\<close>

text \<open>What a contract can see of the world state, the existence of empty accounts apart.\<close>

definition same_view :: "('s, 't, 'c) tenv \<Rightarrow> ('t, 'c) Txn \<Rightarrow> ('t, 'c) Txn \<Rightarrow> bool" where
  "same_view E s s' \<longleftrightarrow>
     (\<forall>a. Txn_GetBalance E s' a = Txn_GetBalance E s a \<and> Txn_GetNonce E s' a = Txn_GetNonce E s a) \<and>
     (\<forall>a k. GetState E s' a k = GetState E s a k) \<and>
     tree_logs E s' = tree_logs E s \<and> Txn_GetRefund E s' = Txn_GetRefund E s"

definition static_rel :: "('s, 't, 'c) tenv \<Rightarrow> ('t, 'c) Txn \<Rightarrow> ('t, 'c) Txn \<Rightarrow> bool" where
  "static_rel E s s' \<longleftrightarrow> (laws E \<longrightarrow> empty_storage (tx_snapshot s) \<longrightarrow>
     tx_snapshot s' = tx_snapshot s \<and> same_view E s s')"

lemma same_view_tree:
  assumes "tx_txn s' = tx_txn s" and "tx_snapshot s' = tx_snapshot s"
  shows "same_view E s s'"
proof -
  have "getStateObject E s' a = getStateObject E s a" for a
    using getStateObject_cong [OF assms] by metis
  from GetState_cong [OF this assms(2)] show ?thesis
    by (simp add: same_view_def tree_logs_def Txn_GetRefund_def assms(1))
qed

lemma same_view_touch:
  assumes "laws E" and "empty_storage (tx_snapshot s)"
  shows "same_view E s (TouchAccount E s a)"
  using assms(2) unfolding same_view_def
  by (auto simp: Txn_GetBalance_def Txn_GetNonce_def GetState_def view_simps assms(1) empty_storage_def
      TouchAccount_def [of E s a] get_TouchAccount [OF assms(1), unfolded TouchAccount_def] split: option.split)

lemma same_view_add_zero:
  assumes "laws E" and "empty_storage (tx_snapshot s)"
  shows "same_view E s (AddBalance E s a 0)"
  using assms unfolding same_view_def
  by (auto simp: GetBalance_on_balance AddBalance_def GetState_upsert_other logs_refund_upsertAccount
      Txn_GetNonce_def get_upsertAccount dest: getStateObject_SomeD(2) split: option.split)

interpretation static_world: world_relation E "static_rel E" True for E
proof
  show "static_rel E s s''" if "static_rel E s s'" "static_rel E s' s''" for s s' s''
    using that unfolding static_rel_def same_view_def by auto
  show "static_rel E s s'" if "tx_txn s' = tx_txn s" "tx_snapshot s' = tx_snapshot s" for s s'
    using same_view_tree [OF that] that(2) unfolding static_rel_def by blast
  show "static_rel E s (TouchAccount E s a)" for s a
    by (simp add: static_rel_def same_view_touch)
  show "static_rel E s (AddBalance E s' b v)" if "SubBalance E s a v = Some s'" "True \<Longrightarrow> v = 0" for s a v s' b
    using that by (simp add: SubBalance_def static_rel_def same_view_add_zero)
qed simp_all

subsection \<open>Message calls\<close>

lemma run_frame:
  assumes "ctx_ok E t" and "value_ok m" and "Transition_run E (host E (callx n E)) t m = Val (r, t')"
  shows "frame t t'"
  using any_world.run_keeps(1) [OF any_world.callx_ok_free assms(3)] assms(1,2) by (simp add: keeps_def)

text \<open>The execution of a failed call is undone.\<close>

lemma finish_applyCall_failed:
  assumes "ctx_ok E t" and "value_ok m" and "finish_applyCall E (host E (callx n E)) m i t = Val (r, t')" and "Failed r"
    and "i < length (tx_snapshots (tr_state t))"
  shows "tx_txn (tr_state t') = tx_snapshots (tr_state t) ! i \<and> tx_snapshot (tr_state t') = tx_snapshot (tr_state t)"
proof -
  obtain t1 where run: "Transition_run E (host E (callx n E)) t m = Val (r, t1)" and rev: "revert_state t1 i = Val t'"
    using assms(3,4) by (auto simp: finish_applyCall_def obind_eq_Val split: if_splits)
  have fr: "frame t t1" by (rule run_frame [OF assms(1,2) run])
  then have "tx_snapshots (tr_state t1) ! i = tx_snapshots (tr_state t) ! i"
    unfolding frame_def using assms(5) by (metis nth_take)
  then show ?thesis using rev fr
    by (auto simp: revert_state_def obind_eq_Val RevertToSnapshot_def frame_def split: if_splits)
qed

lemma transfer_frame: "transfer E t a b v = Inr t' \<Longrightarrow> frame t t' \<and> tx_snapshots (tr_state t') = tx_snapshots (tr_state t)"
  using SubBalance_same by (fastforce simp: transfer_def frame_def split: option.splits)

lemma applyCall_cases:
  assumes "applyCall E H t m kind = Val (r, t')"
  obtains (depth) "c_Depth m > 1025" "r = failure (c_Gas m) ErrDepth" "t' = t"
  | (funds) "c_Depth m \<le> 1025" "kind = Call" "r = failure (c_Gas m) ErrInsufficientBalance"
      "t' = t\<lparr>tr_state := TouchAccount E (snd (Snapshot (tr_state t))) (c_Address m)\<rparr>"
  | (run) t1 where "c_Depth m \<le> 1025" "finish_applyCall E H m (length (tx_snapshots (tr_state t))) t1 = Val (r, t')"
      "frame (t\<lparr>tr_state := snd (Snapshot (tr_state t))\<rparr>) t1" "tx_snapshots (tr_state t1) = tx_snapshots (tr_state t) @ [tx_txn (tr_state t)]"
proof (cases "c_Depth m > 1025")
  case True
  then show ?thesis using assms depth by (simp add: applyCall_def)
next
  case False
  let ?t = "t\<lparr>tr_state := TouchAccount E (snd (Snapshot (tr_state t))) (c_Address m)\<rparr>"
  have fr: "frame (t\<lparr>tr_state := snd (Snapshot (tr_state t))\<rparr>) ?t"
    by (simp add: frame_def)
  show ?thesis
  proof (cases "kind = Call")
    case call: True
    show ?thesis
    proof (cases "transfer E ?t (c_Caller m) (c_Address m) (c_Value m)")
      case (Inl e)
      then have "e = ErrInsufficientBalance" by (auto simp: transfer_def split: option.splits)
      then show ?thesis using assms False call Inl funds by (simp add: applyCall_def Snapshot_def Let_def)
    next
      case (Inr t1)
      then show ?thesis using assms False call run [of t1] frame_trans [OF fr] transfer_frame [OF Inr]
        by (simp add: applyCall_def Snapshot_def Let_def)
    qed
  next
    case nocall: False
    then show ?thesis using assms False run [of ?t] fr by (simp add: applyCall_def Snapshot_def Let_def)
  qed
qed

lemma applyCall_failed:
  assumes "laws E" and "empty_storage (tx_snapshot (tr_state t))" and "ctx_ok E t" and "value_ok m"
    and "applyCall E (host E (callx n E)) t m kind = Val (r, t')" and "Failed r"
  shows "same_view E (tr_state t) (tr_state t')"
  using assms(5)
proof (cases rule: applyCall_cases)
  case depth
  then show ?thesis by (simp add: same_view_tree)
next
  case funds
  have "same_view E (tr_state t) (snd (Snapshot (tr_state t)))" by (simp add: same_view_tree Snapshot_def)
  moreover have "same_view E (snd (Snapshot (tr_state t))) (tr_state t')"
    using same_view_touch [OF assms(1)] assms(2) by (simp add: funds Snapshot_def)
  ultimately show ?thesis by (simp add: same_view_def)
next
  case (run t1)
  have "ctx_ok E t1" using run(3) assms(3) by (simp add: ctx_ok_def frame_def)
  from finish_applyCall_failed [OF this assms(4) run(2) assms(6)] run(3,4)
  have "tx_txn (tr_state t') = tx_txn (tr_state t)" "tx_snapshot (tr_state t') = tx_snapshot (tr_state t)"
    by (simp_all add: frame_def Snapshot_def)
  then show ?thesis by (rule same_view_tree)
qed

end
