(* ===== verification/Ledger.thy ===== *)
theory Ledger
  imports World EVM "HOL-Library.DAList"
begin

section \<open>What the world state guarantees\<close>

text \<open>
  The theorems about the world state of a block. Each is stated for every radix tree and every
  cache; the witnesses run on association lists.
\<close>

subsection \<open>A concrete environment\<close>

definition alist_radix :: "((bytes, 'v) alist, 'v) iradix" where
  "alist_radix = \<lparr>Tree_New = DAList.empty, Tree_Get = DAList.lookup, Tree_Insert = (\<lambda>t k v. DAList.update k v t),
     Tree_Delete = (\<lambda>t k. DAList.delete k t), Tree_Walk = DAList.impl_of\<rparr>"

lemma radix_laws_alist: "radix_laws (alist_radix :: ((bytes, 'v) alist, 'v) iradix)"
proof -
  have "map_of (DAList.impl_of t) = DAList.lookup t" for t :: "(bytes, 'v) alist"
    by (simp add: DAList.lookup.rep_eq)
  then show ?thesis by (simp add: radix_laws_def alist_radix_def DAList.lookup_update DAList.lookup_delete)
qed

definition alist_cache :: "(Address \<times> bytes) list lru" where
  "alist_cache = \<lparr>Cache_New = [], Cache_Get = (\<lambda>c a. (map_of c a, c)), Cache_Add = (\<lambda>c a code. (a, code) # c)\<rparr>"

type_synonym plain_storage = "(bytes, bytes option) alist"

definition plain_env ::
    "(plain_storage, (bytes, plain_storage entry) alist, (Address \<times> bytes) list) env" where
  "plain_env = \<lparr>e_store = alist_radix, e_main = alist_radix, e_cache = alist_cache, e_crypto = plain_crypto\<rparr>"

lemma plain_env_simps [simp]: "e_cache plain_env = alist_cache" "e_crypto plain_env = plain_crypto"
  by (simp_all add: plain_env_def)

lemma laws_plain_env: "laws plain_env"
  by (simp add: laws_def plain_env_def radix_laws_alist)

text \<open>A snapshot with one account, 1, whose slot 7 holds 5.\<close>

definition plain_snapshot :: readSnapshot where
  "plain_snapshot = \<lparr>
     snap_GetStorage = (\<lambda>a root k. if a = 1 \<and> k = 7 \<and> root \<noteq> emptyStateHash then 5 else 0),
     snap_GetAccount = (\<lambda>a. Some (if a = 1 then Some \<lparr>ac_Nonce = 1, ac_Balance = 100, ac_Root = 9, ac_CodeHash = [1]\<rparr> else None)),
     snap_GetCode = (\<lambda>h. (if h = 1 then [0x00] else [], True))\<rparr>"

definition plain_txn :: "((bytes, plain_storage entry) alist, (Address \<times> bytes) list) Txn" where
  "plain_txn = newTxn plain_env plain_snapshot"

lemma get_plain_txn:
  "getStateObject plain_env plain_txn a = (if a = 1 then
     Some \<lparr>so_Account = \<lparr>ac_Nonce = 1, ac_Balance = 100, ac_Root = 9, ac_CodeHash = [1]\<rparr>, so_Code = [], so_Suicide = False,
       so_Deleted = False, so_DirtyCode = False, so_Txn = None\<rparr> else None)"
  by (simp add: getStateObject_def plain_txn_def newTxn_def plain_env_def alist_radix_def plain_snapshot_def
      Account_Copy_def SetBytes_Bytes)

lemma plain_txn_simps [simp]:
  "tx_snapshot plain_txn = plain_snapshot" "tx_snapshots plain_txn = []" "tx_codeCache plain_txn = []"
  "tree_get plain_env plain_txn k = None"
  by (simp_all add: plain_txn_def newTxn_def plain_env_def alist_cache_def alist_radix_def)

lemma empty_storage_plain: "empty_storage plain_snapshot"
  by (simp add: empty_storage_def plain_snapshot_def)

lemma plain_txn_state:
  "GetState plain_env plain_txn a k = (if a = 1 \<and> k = 7 then 5 else 0)"
  "GetCommittedState plain_env plain_txn a k = (if a = 1 \<and> k = 7 then 5 else 0)"
  by (simp_all add: GetState_def GetCommittedState_def get_plain_txn plain_snapshot_def emptyStateHash_def)

subsection \<open>The refund counter\<close>

text \<open>
  A step of the executor while it runs one transaction: what happens to a \<open>Txn\<close> between the start of a
  transaction and the clean-up at its end. Reverts go back to snapshots of the transaction itself, of which the
  first has the number \<open>base\<close>, and refunds are given by storage writes and by self-destruction.
\<close>

inductive tx_step :: "('s, 't, 'c, 'z) env_scheme \<Rightarrow> ForksInTime \<Rightarrow> nat \<Rightarrow> ('t, 'c) Txn \<Rightarrow> ('t, 'c) Txn \<Rightarrow> bool" for E cfg base where
  tx_step_snapshot: "tx_step E cfg base t (snd (Snapshot t))"
| tx_step_revert: "RevertToSnapshot t i = Some t' \<Longrightarrow> base \<le> i \<Longrightarrow> tx_step E cfg base t t'"
| tx_step_add: "tx_step E cfg base t (AddBalance E t a b)"
| tx_step_sub: "SubBalance E t a b = Some t' \<Longrightarrow> tx_step E cfg base t t'"
| tx_step_emit: "tx_step E cfg base t (Txn_EmitLog E t a ts bs)"
| tx_step_logs: "tx_step E cfg base t (snd (Logs E t))"
| tx_step_refund: "tx_step E cfg base t (AddRefund E t 24000)"
| tx_step_storage: "tx_step E cfg base t (snd (Txn_SetStorage E t a k v cfg))"
| tx_step_incr: "tx_step E cfg base t (IncrNonce E t a)"
| tx_step_nonce: "tx_step E cfg base t (SetNonce E t a n)"
| tx_step_setcode: "tx_step E cfg base t (SetCode E t a code)"
| tx_step_getcode: "tx_step E cfg base t (snd (Txn_GetCode E t a))"
| tx_step_suicide: "tx_step E cfg base t (snd (Suicide E t a))"
| tx_step_touch: "tx_step E cfg base t (TouchAccount E t a)"
| tx_step_create: "tx_step E cfg base t (CreateAccount E t a)"

definition refund_within :: "('s, 't, 'c, 'z) env_scheme \<Rightarrow> nat \<Rightarrow> ('t, 'c) Txn \<Rightarrow> bool" where
  "refund_within E n t \<longleftrightarrow> refund_ok E t \<and> unat (Txn_GetRefund E t) \<le> 24000 * n"

text \<open>The invariant of a transaction, for the current tree and for every tree it may go back to.\<close>

definition refund_inv :: "('s, 't, 'c, 'z) env_scheme \<Rightarrow> nat \<Rightarrow> nat \<Rightarrow> ('t, 'c) Txn \<Rightarrow> bool" where
  "refund_inv E base n t \<longleftrightarrow> empty_storage (tx_snapshot t) \<and> base \<le> length (tx_snapshots t) \<and>
     refund_within E n t \<and> (\<forall>i < length (tx_snapshots t). base \<le> i \<longrightarrow> refund_within E n (t\<lparr>tx_txn := tx_snapshots t ! i\<rparr>))"

lemma refund_within_tree:
  assumes "tx_txn t' = tx_txn t" and "tx_snapshot t' = tx_snapshot t"
  shows "refund_within E n t' \<longleftrightarrow> refund_within E n t"
proof -
  have "getStateObject E t' = getStateObject E t" by (rule getStateObject_cong [OF assms])
  then have "cleared E t' = cleared E t" by (intro cleared_cong) (simp_all add: assms)
  then show ?thesis by (simp add: refund_within_def refund_ok_def Txn_GetRefund_def assms(1))
qed

lemma refund_within_mono: "refund_within E n t \<Longrightarrow> n \<le> n' \<Longrightarrow> refund_within E n' t"
  by (auto simp: refund_within_def)

text \<open>A step that keeps the saved trees.\<close>

lemma refund_inv_step:
  assumes "refund_inv E base n t" and "tx_snapshots t' = tx_snapshots t" and "tx_snapshot t' = tx_snapshot t"
    and "refund_within E (Suc n) t'"
  shows "refund_inv E base (Suc n) t'"
proof -
  have "refund_within E (Suc n) (t'\<lparr>tx_txn := tr\<rparr>)" if "refund_within E n (t\<lparr>tx_txn := tr\<rparr>)" for tr
    using refund_within_mono [OF that, of "Suc n"] refund_within_tree [of "t'\<lparr>tx_txn := tr\<rparr>" "t\<lparr>tx_txn := tr\<rparr>" E "Suc n"] assms(3) by simp
  then show ?thesis using assms by (simp add: refund_inv_def)
qed

lemma refund_within_same:
  assumes "refund_within E n t" and "cleared E t' \<subseteq> cleared E t" and "Txn_GetRefund E t' = Txn_GetRefund E t"
  shows "refund_within E (Suc n) t'"
  using assms card_mono [OF finite assms(2)] by (auto simp: refund_within_def refund_ok_def)

lemma cleared_tx_ops:
  assumes "laws E" and "empty_storage (tx_snapshot t)"
  shows "cleared E (AddBalance E t a b) = cleared E t" and "SubBalance E t a b = Some t' \<Longrightarrow> cleared E t' = cleared E t"
    and "cleared E (Txn_EmitLog E t a ts bs) = cleared E t" and "cleared E (snd (Logs E t)) = cleared E t"
    and "cleared E (AddRefund E t g) = cleared E t" and "cleared E (IncrNonce E t a) = cleared E t"
    and "cleared E (SetNonce E t a n) = cleared E t" and "cleared E (SetCode E t a code) = cleared E t"
    and "cleared E (snd (Txn_GetCode E t a)) = cleared E t" and "cleared E (snd (Suicide E t a)) = cleared E t"
    and "cleared E (TouchAccount E t a) = cleared E t" and "cleared E (CreateAccount E t a) \<subseteq> cleared E t"
proof -
  note upsert = storage_upsert [OF assms]
  show "cleared E (AddBalance E t a b) = cleared E t" "cleared E (IncrNonce E t a) = cleared E t"
    "cleared E (SetNonce E t a n) = cleared E t" "cleared E (SetCode E t a code) = cleared E t"
    "cleared E (snd (Suicide E t a)) = cleared E t"
    unfolding AddBalance_def IncrNonce_def SetNonce_def SetCode_def Suicide_def snd_conv
    by (rule upsert, simp add: on_balance_def Let_def)+
  show "SubBalance E t a b = Some t' \<Longrightarrow> cleared E t' = cleared E t"
    by (auto simp: SubBalance_def on_balance_def intro!: upsert split: if_splits)
  have "TouchAccount E t a = upsertAccount E t a True (map_option (\<lambda>obj. obj))"
    by (simp add: TouchAccount_def upsertAccount_def option.map_ident)
  then show "cleared E (TouchAccount E t a) = cleared E t" by (simp add: upsert)
  show "cleared E (Txn_EmitLog E t a ts bs) = cleared E t" "cleared E (snd (Logs E t)) = cleared E t" "cleared E (AddRefund E t g) = cleared E t"
    by (rule cleared_cong; simp add: Txn_EmitLog_def AddLog_def Logs_def Let_def view_simps assms(1) split: option.split)+
  show "cleared E (snd (Txn_GetCode E t a)) = cleared E t"
    using getStateObject_cong [of "snd (Txn_GetCode E t a)" t E] by (intro cleared_cong) simp_all
  have "GetCommittedState E (CreateAccount E t a) a k = 0" for k
    using assms(2) by (cases "getStateObject E t a") (simp_all add: GetCommittedState_def CreateAccount_def Let_def view_simps assms(1)
        on_balance_def newStateObject_def StateObject_Copy_def Account_Copy_def empty_storage_def)
  moreover have "getStateObject E (CreateAccount E t a) a' = getStateObject E t a'" if "a' \<noteq> a" for a'
    using that by (simp add: CreateAccount_def Let_def view_simps assms(1))
  then have "GetState E (CreateAccount E t a) a' k = GetState E t a' k" "GetCommittedState E (CreateAccount E t a) a' k = GetCommittedState E t a' k"
    if "a' \<noteq> a" for a' k using that GetState_cong(1,2) [of E "CreateAccount E t a" a' t] by (simp_all add: CreateAccount_def Let_def)
  ultimately show "cleared E (CreateAccount E t a) \<subseteq> cleared E t" unfolding cleared_def by (auto, metis+)
qed

lemma tx_ops_refund:
  assumes "laws E"
  shows "Txn_GetRefund E (AddBalance E t a b) = Txn_GetRefund E t" and "Txn_GetRefund E (Txn_EmitLog E t a ts bs) = Txn_GetRefund E t"
    and "Txn_GetRefund E (snd (Logs E t)) = Txn_GetRefund E t" and "Txn_GetRefund E (IncrNonce E t a) = Txn_GetRefund E t"
    and "Txn_GetRefund E (SetNonce E t a n) = Txn_GetRefund E t" and "Txn_GetRefund E (SetCode E t a code) = Txn_GetRefund E t"
    and "Txn_GetRefund E (snd (Txn_GetCode E t a)) = Txn_GetRefund E t" and "Txn_GetRefund E (snd (Suicide E t a)) = Txn_GetRefund E t"
    and "Txn_GetRefund E (TouchAccount E t a) = Txn_GetRefund E t" and "Txn_GetRefund E (CreateAccount E t a) = Txn_GetRefund E t"
  by (simp_all add: AddBalance_def Txn_EmitLog_def AddLog_def Logs_def IncrNonce_def SetNonce_def SetCode_def Suicide_def TouchAccount_def
      CreateAccount_def Let_def view_simps assms split: option.split) (simp add: Txn_GetRefund_def)

lemma tx_ops_same:
  "tx_snapshots (AddBalance E t a b) = tx_snapshots t" "tx_snapshots (Txn_EmitLog E t a ts bs) = tx_snapshots t"
  "tx_snapshots (snd (Logs E t)) = tx_snapshots t" "tx_snapshots (IncrNonce E t a) = tx_snapshots t"
  "tx_snapshots (SetNonce E t a n) = tx_snapshots t" "tx_snapshots (SetCode E t a code) = tx_snapshots t"
  "tx_snapshots (snd (Suicide E t a)) = tx_snapshots t" "tx_snapshots (TouchAccount E t a) = tx_snapshots t"
  "tx_snapshots (CreateAccount E t a) = tx_snapshots t"
  "tx_snapshot (AddBalance E t a b) = tx_snapshot t" "tx_snapshot (Txn_EmitLog E t a ts bs) = tx_snapshot t"
  "tx_snapshot (snd (Logs E t)) = tx_snapshot t" "tx_snapshot (IncrNonce E t a) = tx_snapshot t"
  "tx_snapshot (SetNonce E t a n) = tx_snapshot t" "tx_snapshot (SetCode E t a code) = tx_snapshot t"
  "tx_snapshot (snd (Suicide E t a)) = tx_snapshot t" "tx_snapshot (TouchAccount E t a) = tx_snapshot t"
  "tx_snapshot (CreateAccount E t a) = tx_snapshot t"
  by (simp_all add: AddBalance_def Txn_EmitLog_def AddLog_def Logs_def IncrNonce_def SetNonce_def SetCode_def Suicide_def TouchAccount_def
      CreateAccount_def Let_def split: option.split)

lemma tx_step_refund_inv:
  assumes "laws E" and "tx_step E cfg base t t'" and inv: "refund_inv E base n t" and "24000 * Suc n < 2 ^ 64"
  shows "refund_inv E base (Suc n) t'"
proof -
  have empty: "empty_storage (tx_snapshot t)" and ok: "refund_within E n t" using inv by (simp_all add: refund_inv_def)
  note same = refund_within_same [OF ok]
  note ops = cleared_tx_ops [OF assms(1) empty]
  show ?thesis using assms(2)
  proof cases
    case tx_step_snapshot
    have "refund_within E (Suc n) (t\<lparr>tx_snapshots := xs, tx_txn := tr\<rparr>)" if "refund_within E n (t\<lparr>tx_txn := tr\<rparr>)" for xs tr
      using refund_within_mono [OF that, of "Suc n"]
        refund_within_tree [of "t\<lparr>tx_snapshots := xs, tx_txn := tr\<rparr>" "t\<lparr>tx_txn := tr\<rparr>" E "Suc n"] by simp
    note this [of _ "tx_snapshots t @ [tx_txn t]"]
    from this this [of "tx_txn t"] show ?thesis using inv unfolding tx_step_snapshot
      by (auto simp: refund_inv_def Snapshot_def nth_append less_Suc_eq)
  next
    case (tx_step_revert i)
    then show ?thesis using inv refund_within_mono [of E n _ "Suc n"]
      by (auto simp: refund_inv_def RevertToSnapshot_def split: if_splits)
  next
    case (tx_step_sub a b)
    then show ?thesis using ops(2) [OF tx_step_sub]
      by (intro refund_inv_step [OF inv] same) (auto simp: SubBalance_def view_simps assms(1) split: if_splits)
  next
    case (tx_step_storage a k v)
    have "unat (Txn_GetRefund E t) + 19800 < 2 ^ 64" using ok assms(4) by (simp add: refund_within_def)
    note st = refund_ok_SetStorage [OF assms(1) empty _ this, of a k v cfg]
    then show ?thesis using ok unfolding tx_step_storage
      by (intro refund_inv_step [OF inv]) (auto simp: refund_within_def)
  next
    case tx_step_refund
    have "unat (Txn_GetRefund E t) + 24000 < 2 ^ 64" using ok assms(4) by (simp add: refund_within_def)
    then have "unat (Txn_GetRefund E t + 24000) = unat (Txn_GetRefund E t) + 24000"
      by (simp add: unat_add_lem [THEN iffD1])
    then show ?thesis using ok unfolding tx_step_refund
      by (intro refund_inv_step [OF inv]) (simp_all add: refund_within_def refund_ok_def ops view_simps assms(1))
  qed (simp_all only:, (rule refund_inv_step [OF inv _ _ same]; simp add: ops tx_ops_refund tx_ops_same assms(1))+)
qed

inductive tx_run :: "('s, 't, 'c, 'z) env_scheme \<Rightarrow> ForksInTime \<Rightarrow> ('t, 'c) Txn \<Rightarrow> nat \<Rightarrow> ('t, 'c) Txn \<Rightarrow> bool" for E cfg t0 where
  tx_run_start: "tx_run E cfg t0 0 t0"
| tx_run_step: "tx_run E cfg t0 n t \<Longrightarrow> tx_step E cfg (length (tx_snapshots t0)) t t' \<Longrightarrow> tx_run E cfg t0 (Suc n) t'"

lemma tx_run_refund_inv:
  assumes "laws E" and "empty_storage (tx_snapshot t0)" and "cleared E t0 = {}" and "Txn_GetRefund E t0 = 0"
    and "tx_run E cfg t0 n t" and "24000 * n < 2 ^ 64"
  shows "refund_inv E (length (tx_snapshots t0)) n t"
  using assms(5,6)
proof induction
  case tx_run_start
  then show ?case using assms(2-4) by (simp add: refund_inv_def refund_within_def refund_ok_def)
next
  case (tx_run_step n t t')
  then show ?case using tx_step_refund_inv [OF assms(1)] by simp
qed

text \<open>
  C27. In a transaction that starts with no slot left cleared by an earlier transaction of its block, the refund
  counter never wraps. Whatever the transaction does, nested calls that are reverted included, the counter covers
  15000 gas for every slot that was non-zero before the block and is zero now, and a storage write changes the counter
  by exactly what the metering rules say, as an integer: what is taken back was given before. The bound on the
  number of steps keeps the counter below 2 to the 64. Without the first condition the counter does wrap, as the next property shows.
\<close>

theorem refund_exact:
  assumes "laws E" and "empty_storage (tx_snapshot t0)" and "Txn_GetRefund E t0 = 0"
    and "\<forall>a k. GetCommittedState E t0 a k \<noteq> 0 \<longrightarrow> GetState E t0 a k \<noteq> 0"
    and "tx_run E cfg t0 n t" and "24000 * Suc n < 2 ^ 64"
  shows "15000 * card {(a, k). GetCommittedState E t a k \<noteq> 0 \<and> GetState E t a k = 0} \<le> unat (Txn_GetRefund E t) \<and>
    uint (Txn_GetRefund E (snd (Txn_SetStorage E t a k v cfg))) =
      uint (Txn_GetRefund E t) + refund_change cfg (GetCommittedState E t a k) (GetState E t a k) v"
proof -
  have "cleared E t0 = {}" using assms(4) by (auto simp: cleared_def)
  then have "refund_inv E (length (tx_snapshots t0)) n t"
    using tx_run_refund_inv [OF assms(1,2) _ assms(3,5)] assms(6) by simp
  then have inv: "empty_storage (tx_snapshot t)" "refund_ok E t" "unat (Txn_GetRefund E t) \<le> 24000 * n"
    by (simp_all add: refund_inv_def refund_within_def)
  have "unat (Txn_GetRefund E t) + 19800 < 2 ^ 64" using inv(3) assms(6) by simp
  from refund_ok_SetStorage(3) [OF assms(1) inv(1,2) this] inv(2) show ?thesis
    by (simp add: refund_ok_def cleared_def)
qed

lemma plain_run: "tx_run plain_env all_forks plain_txn 2
    (snd (Txn_SetStorage plain_env (snd (Snapshot plain_txn)) 1 7 0 all_forks))"
proof -
  have "tx_run plain_env all_forks plain_txn (Suc (Suc 0)) (snd (Txn_SetStorage plain_env (snd (Snapshot plain_txn)) 1 7 0 all_forks))"
    by (blast intro: tx_run.intros tx_step.intros)
  then show ?thesis by (simp add: numeral_2_eq_2)
qed

text \<open>Clearing slot 7 gives 15000, writing to it again takes them back.\<close>

theorem refund_exact_witness:
  "let t = snd (Txn_SetStorage plain_env (snd (Snapshot plain_txn)) 1 7 0 all_forks) in
     uint (Txn_GetRefund plain_env (snd (Txn_SetStorage plain_env t 1 7 3 all_forks))) = uint (Txn_GetRefund plain_env t) - 15000"
proof -
  let ?s = "snd (Snapshot plain_txn)"
  have v: "GetState plain_env ?s a k = (if a = 1 \<and> k = 7 then 5 else 0)" "GetCommittedState plain_env ?s a k = (if a = 1 \<and> k = 7 then 5 else 0)" for a k
    using GetState_cong(1,2) [of plain_env ?s a plain_txn k] getStateObject_cong [of ?s plain_txn plain_env]
    by (simp_all add: Snapshot_def plain_txn_state)
  have e: "empty_storage (tx_snapshot ?s)" by (simp add: Snapshot_def empty_storage_plain)
  have ist: "Istanbul all_forks" by (simp add: all_forks_def Forks_At_def AllForksEnabled_def Forks_active_def Fork_Active_def)
  have "refund_change all_forks 5 0 3 = - 15000" by (simp add: refund_change_def ist)
  with refund_exact [OF laws_plain_env, of plain_txn all_forks 2 _ 1 7 3, OF _ _ _ plain_run]
  show ?thesis
    by (simp add: Let_def empty_storage_plain plain_txn_state Txn_GetRefund_def GetState_SetStorage [OF laws_plain_env e] v)
qed

text \<open>
  C35. Across two transactions of a block the counter does wrap. \<^verbatim>\<open>GetCommittedState\<close> reads the
  state of the last block, not the state before the transaction, while the counter restarts at
  zero with every transaction. If a transaction clears a slot and a later one of the same block
  fills it with a new value, 15000 is taken from zero and the counter is 2 to the 64 minus 15000;
  the refund of that transaction is then capped only by half of the gas it used.
\<close>

theorem refund_wraps:
  assumes "laws E" and "empty_storage (tx_snapshot t)" and "Istanbul cfg"
    and "getStateObject E t a = Some obj" and "ac_Nonce (so_Account obj) \<noteq> 0" and "\<not> so_Suicide obj"
    and "GetState E t a k = GetCommittedState E t a k" and "GetCommittedState E t a k \<noteq> 0"
    and "v \<noteq> 0" and "v \<noteq> GetCommittedState E t a k"
    and "CleanDeleteObjects E (snd (Txn_SetStorage E t a k 0 cfg)) True = Some t'"
  shows "Txn_GetRefund E (snd (Txn_SetStorage E t' a k v cfg)) = - 15000"
proof -
  let ?t1 = "snd (Txn_SetStorage E t a k 0 cfg)"
  have get1: "getStateObject E ?t1 a = getStateObject E (SetState E t a k 0) a"
    using assms(7,8) by (simp add: Txn_SetStorage_def Let_def view_simps assms(1))
  obtain obj1 where tree: "tree_get E ?t1 (Address_Bytes a) = Some (Obj obj1)" and "ac_Nonce (so_Account obj1) = ac_Nonce (so_Account obj)"
      and "so_Suicide obj1 = so_Suicide obj"
  proof -
    let ?o = "let tree = (case so_Txn obj of None \<Rightarrow> Tree_New (e_store E) | Some tree \<Rightarrow> tree)
      in obj\<lparr>so_Txn := Some (Tree_Insert (e_store E) tree (Hash_Bytes k) None)\<rparr>"
    have "tree_get E (SetState E t a k 0) (Address_Bytes a) = Some (Obj ?o)"
      by (simp add: SetState_def upsertAccount_def assms(4) view_simps assms(1) Let_def)
    moreover have "tree_get E (snd (storage_metering E t2 x y 0 cfg)) (Address_Bytes a) = tree_get E t2 (Address_Bytes a)" for t2 x y
      by (rule storage_metering_induct [where t = t2]) (simp_all add: AddRefund_def SubRefund_def view_simps assms(1))
    ultimately have "tree_get E ?t1 (Address_Bytes a) = Some (Obj ?o)"
      using assms(7,8) by (simp add: Txn_SetStorage_def Let_def)
    then show ?thesis using that by (simp add: Let_def)
  qed
  then have keep: "getStateObject E t' a = getStateObject E ?t1 a"
    using assms(5,6) by (simp add: CleanDeleteObjects_view(1) [OF assms(1,11)] to_remove_def StateObject_Empty_def)
  have snap: "tx_snapshot t' = tx_snapshot ?t1" by (rule CleanDeleteObjects_view(4) [OF assms(1,11)])
  have "GetState E t' a k = 0" "GetCommittedState E t' a k = GetCommittedState E t a k"
    using GetState_cong [OF keep snap] GetState_SetStorage [OF assms(1,2)] by simp_all
  then show ?thesis
    using assms(3,8,9,10) by (simp add: GetRefund_SetStorage assms(1) CleanDeleteObjects_view(2) [OF assms(1,11)] refund_change_def)
qed

theorem refund_wraps_witness:
  "\<exists>t'. CleanDeleteObjects plain_env (snd (Txn_SetStorage plain_env plain_txn 1 7 0 all_forks)) True = Some t' \<and>
     Txn_GetRefund plain_env (snd (Txn_SetStorage plain_env t' 1 7 3 all_forks)) = - 15000"
proof -
  obtain t' where t': "CleanDeleteObjects plain_env (snd (Txn_SetStorage plain_env plain_txn 1 7 0 all_forks)) True = Some t'"
    using CleanDeleteObjects_Some [OF laws_plain_env] by blast
  show ?thesis
    using t' refund_wraps [where k = 7, OF laws_plain_env _ _ get_plain_txn [of 1, simplified] _ _ _ _ _ _ t', of 3]
    by (simp add: empty_storage_plain plain_txn_state)
qed

subsection \<open>Reachable states\<close>

lemma txn_steps_prefix:
  assumes "laws E" and "(txn_step E)\<^sup>*\<^sup>* t t'"
  shows "\<exists>trs. tx_snapshots t' = tx_snapshots t @ trs" and "tx_snapshot t' = tx_snapshot t"
proof -
  have "(\<exists>trs. tx_snapshots t' = tx_snapshots t @ trs) \<and> tx_snapshot t' = tx_snapshot t"
    using assms(2)
  proof induction
    case (step t1 t2)
    from step.hyps(2) have "(\<exists>trs. tx_snapshots t2 = tx_snapshots t1 @ trs) \<and> tx_snapshot t2 = tx_snapshot t1"
    proof cases
      case (step_clean d)
      then show ?thesis using CleanDeleteObjects_view [OF assms(1)] by auto
    next
      case (step_sub a b)
      then show ?thesis by (auto simp: SubBalance_def split: if_splits)
    next
      case (step_revert i)
      then show ?thesis by (auto simp: RevertToSnapshot_def split: if_splits)
    qed (simp_all add: Snapshot_def AddSealingReward_def AddBalance_def SetBalance_def AddLog_def Txn_EmitLog_def Logs_def
        SetState_def IncrNonce_def SetNonce_def SetCode_def Suicide_def TouchAccount_def CreateAccount_def Let_def split: option.split)
    with step.IH show ?case by auto
  qed simp
  then show "\<exists>trs. tx_snapshots t' = tx_snapshots t @ trs" and "tx_snapshot t' = tx_snapshot t" by auto
qed

text \<open>
  C26. The type assertions of the package never fail. In every state reachable from a new \<open>Txn\<close> by
  its operations, reverts included, an account key holds a state object, the log key a list of
  logs, the refund key a number, and nothing else is stored; the same holds of every saved tree.
\<close>

theorem reachable_typed:
  assumes "laws E" and "(txn_step E)\<^sup>*\<^sup>* (newTxn E s) t"
  shows "txn_typed E t"
  using assms(2) by induction (simp_all add: newTxn_typed txn_step_typed assms(1) | blast intro: txn_step_typed [OF assms(1)])+

theorem reachable_typed_witness:
  "txn_typed plain_env (snd (Logs plain_env (AddRefund plain_env plain_txn 1)))"
  unfolding plain_txn_def
  by (rule reachable_typed [OF laws_plain_env, of plain_snapshot])
    (blast intro: rtranclp.rtrancl_into_rtrancl txn_step.intros)

text \<open>
  C15. A revert undoes everything. After any sequence of operations, further snapshots and reverts
  included, going back to a snapshot succeeds, and every account, its storage, the logs and the
  refund read as they did when the snapshot was taken.
\<close>

theorem revert_restores:
  assumes "laws E" and "(txn_step E)\<^sup>*\<^sup>* (snd (Snapshot t)) t1"
  shows "\<exists>t2. RevertToSnapshot t1 (fst (Snapshot t)) = Some t2 \<and>
    (\<forall>a. getStateObject E t2 a = getStateObject E t a) \<and> (\<forall>a k. GetState E t2 a k = GetState E t a k) \<and>
    tree_logs E t2 = tree_logs E t \<and> Txn_GetRefund E t2 = Txn_GetRefund E t"
proof -
  let ?t2 = "t1\<lparr>tx_txn := tx_txn t\<rparr>"
  obtain trs where "tx_snapshots t1 = tx_snapshots t @ tx_txn t # trs"
    using txn_steps_prefix(1) [OF assms] by (auto simp: Snapshot_def)
  then have "RevertToSnapshot t1 (fst (Snapshot t)) = Some ?t2" by (simp add: RevertToSnapshot_def Snapshot_def)
  moreover have snap: "tx_snapshot ?t2 = tx_snapshot t" using txn_steps_prefix(2) [OF assms] by (simp add: Snapshot_def)
  moreover from this have get: "getStateObject E ?t2 = getStateObject E t" by (intro getStateObject_cong) simp_all
  moreover have "GetState E ?t2 a k = GetState E t a k" for a k by (rule GetState_cong(1)) (simp_all only: get snap)
  ultimately show ?thesis
    by (intro exI [of _ ?t2]) (simp add: tree_logs_def Txn_GetRefund_def)
qed

theorem revert_restores_witness:
  "\<exists>t2. RevertToSnapshot (AddBalance plain_env (snd (Snapshot plain_txn)) 1 5) (fst (Snapshot plain_txn)) = Some t2 \<and>
    (\<forall>a. getStateObject plain_env t2 a = getStateObject plain_env plain_txn a) \<and>
    (\<forall>a k. GetState plain_env t2 a k = GetState plain_env plain_txn a k) \<and>
    tree_logs plain_env t2 = tree_logs plain_env plain_txn \<and> Txn_GetRefund plain_env t2 = Txn_GetRefund plain_env plain_txn"
  by (rule revert_restores [OF laws_plain_env]) (blast intro: txn_step.intros)

subsection \<open>Committing a block\<close>

lemma typed_address: "txn_typed E t \<Longrightarrow> tree_get E t (Address_Bytes a) = Some v \<Longrightarrow> \<exists>s. v = Obj s"
  by (cases v) (auto simp: txn_typed_def tree_typed_def dest!: spec [of _ "Address_Bytes a"])

lemma find_storage:
  "find (\<lambda>s. sto_Key s = k) (map storage_object w) = map_option (\<lambda>v. storage_object (k, v)) (map_of w k)"
  by (induction w) (auto simp: storage_object_def split: option.splits)

lemma commit_list: "[commit_object E k a. (k, Obj a) \<leftarrow> w] =
    map (\<lambda>(k, v). commit_object E k (the_obj v)) (filter (\<lambda>(k, v). is_Obj v) w)"
proof (induction w)
  case (Cons p w)
  then show ?case by (cases p; cases "snd p") auto
qed simp

lemma Txn_Commit_Some:
  assumes "laws E" and "txn_typed E t" and "Txn_Commit E t d = Some (objs, t')"
  shows "CleanDeleteObjects E t d = Some t'"
    and "distinct (map o_Address objs)"
    and "obj \<in> set objs \<longleftrightarrow> (\<exists>s. tree_get E t' (Address_Bytes (o_Address obj)) = Some (Obj s) \<and>
      obj = commit_object E (Address_Bytes (o_Address obj)) s)"
proof -
  let ?w = "filter (\<lambda>(k, v). is_Obj v) (Tree_Walk (e_main E) (tx_txn t'))"
  show clean: "CleanDeleteObjects E t d = Some t'" using assms(3) by (auto simp: Txn_Commit_def)
  have objs: "objs = map (\<lambda>(k, v). commit_object E k (the_obj v)) ?w"
    using assms(3) clean by (simp add: Txn_Commit_def commit_list)
  have typed: "\<exists>a. k = Address_Bytes a" if "tree_get E t' k = Some (Obj s)" for k s
    using CleanDeleteObjects_typed [OF assms(1,2) clean] that by (force simp: txn_typed_def tree_typed_def)
  have walk: "distinct (map fst (Tree_Walk (e_main E) (tx_txn t')))"
      "map_of (Tree_Walk (e_main E) (tx_txn t')) = Tree_Get (e_main E) (tx_txn t')"
    by (simp_all add: laws_simps [OF assms(1)])
  have mem: "(k, v) \<in> set ?w \<longleftrightarrow> tree_get E t' k = Some v \<and> is_Obj v" for k v
    using walk by (simp add: map_of_eq_Some_iff flip: walk(2))
  have "map o_Address objs = map (BytesToAddress \<circ> fst) ?w"
    by (simp add: objs commit_object_def case_prod_beta)
  moreover have "inj_on (BytesToAddress \<circ> fst) (set ?w)"
  proof (rule inj_onI)
    fix p q
    assume "p \<in> set ?w" "q \<in> set ?w" and eq: "(BytesToAddress \<circ> fst) p = (BytesToAddress \<circ> fst) q"
    then have p: "tree_get E t' (fst p) = Some (snd p)" "is_Obj (snd p)" "tree_get E t' (fst q) = Some (snd q)" "is_Obj (snd q)"
      using mem by (metis prod.collapse)+
    then obtain a b where "fst p = Address_Bytes a" "fst q = Address_Bytes b" using typed by (metis entry.collapse(1))
    with eq have "fst p = fst q" by simp
    with p show "p = q" by (simp add: prod_eq_iff)
  qed
  moreover have "distinct ?w" using walk(1) by (simp add: distinct_map)
  ultimately show "distinct (map o_Address objs)" by (simp add: distinct_map)
  show "obj \<in> set objs \<longleftrightarrow> (\<exists>s. tree_get E t' (Address_Bytes (o_Address obj)) = Some (Obj s) \<and>
      obj = commit_object E (Address_Bytes (o_Address obj)) s)" (is "?l \<longleftrightarrow> ?r")
  proof
    assume ?l
    then obtain k v where kv: "tree_get E t' k = Some v" "is_Obj v" and obj: "obj = commit_object E k (the_obj v)"
      using mem by (auto simp: objs)
    then obtain a s where "k = Address_Bytes a" "v = Obj s" using typed by (metis entry.collapse(1))
    moreover from this obj have "o_Address obj = a" by (simp add: commit_object_def)
    ultimately show ?r using kv obj by simp
  next
    assume ?r
    then obtain s where "tree_get E t' (Address_Bytes (o_Address obj)) = Some (Obj s)"
      and obj: "obj = commit_object E (Address_Bytes (o_Address obj)) s" by blast
    then have "(Address_Bytes (o_Address obj), Obj s) \<in> set ?w" using mem by (metis entry.disc(1))
    then show ?l unfolding objs using obj by force
  qed
qed

text \<open>What a committed object says about the storage of its account.\<close>

definition committed_slot :: "readSnapshot \<Rightarrow> Object \<Rightarrow> Hash \<Rightarrow> Hash" where
  "committed_slot snap obj k = (case find (\<lambda>s. sto_Key s = Hash_Bytes k) (o_Storage obj) of
     Some s \<Rightarrow> if sto_Deleted s then 0 else BytesToHash (sto_Val s)
   | None \<Rightarrow> snap_GetStorage snap (o_Address obj) (o_Root obj) k)"

text \<open>
  C14. A commit hands the trie exactly what a reader sees. There is one object for every account
  the block touched and none for another; it is marked deleted just when the account is gone, and
  otherwise carries the nonce, the balance and the code hash a reader sees, and storage entries
  from which, over the storage of the last block, every slot reads as \<^verbatim>\<open>GetState\<close> does.
\<close>

theorem Commit_correct:
  assumes "laws E" and "txn_typed E t" and "Txn_Commit E t d = Some (objs, t')"
  shows "distinct (map o_Address objs) \<and>
    (\<forall>a. a \<in> o_Address ` set objs \<longleftrightarrow> tree_get E t (Address_Bytes a) \<noteq> None) \<and>
    (\<forall>obj \<in> set objs. (o_Deleted obj \<longleftrightarrow> \<not> Exist E t' (o_Address obj)) \<and>
      (\<not> o_Deleted obj \<longrightarrow> o_Nonce obj = Txn_GetNonce E t' (o_Address obj) \<and>
         \<bar>o_Balance obj\<bar> = Txn_GetBalance E t' (o_Address obj) \<and> o_CodeHash obj = Txn_GetCodeHash E t' (o_Address obj) \<and>
         (\<forall>k. committed_slot (tx_snapshot t) obj k = GetState E t' (o_Address obj) k)))"
proof (intro conjI allI ballI)
  note commit = Txn_Commit_Some [OF assms]
  show "distinct (map o_Address objs)" by (rule commit(2))
  have get: "tree_get E t' k = (if k = refundIndex then None else map_option (clean_entry (e_crypto E) d) (tree_get E t k))"
    and snap: "tx_snapshot t' = tx_snapshot t" for k
    using CleanDeleteObjects_Some [OF assms(1), of t d] commit(1) by auto
  {
    fix a
    have "a \<in> o_Address ` set objs \<longleftrightarrow> (\<exists>s. tree_get E t' (Address_Bytes a) = Some (Obj s))"
      unfolding image_iff Bex_def using commit(3) by (auto simp: commit_object_def) (metis BytesToAddress_Bytes Object.select_convs(1) commit_object_def)
    also have "\<dots> \<longleftrightarrow> tree_get E t' (Address_Bytes a) \<noteq> None"
      using typed_address [OF CleanDeleteObjects_typed [OF assms(1,2) commit(1)]] by blast
    finally show "a \<in> o_Address ` set objs \<longleftrightarrow> tree_get E t (Address_Bytes a) \<noteq> None" by (simp add: get)
  }
  fix obj assume "obj \<in> set objs"
  then obtain s where s: "tree_get E t' (Address_Bytes (o_Address obj)) = Some (Obj s)"
    and obj: "obj = commit_object E (Address_Bytes (o_Address obj)) s" using commit(3) by blast
  have view: "getStateObject E t' (o_Address obj) = (if so_Deleted s then None else Some (StateObject_Copy s))"
    by (simp add: getStateObject_def s)
  have o: "o_Deleted obj = so_Deleted s" "o_Nonce obj = ac_Nonce (so_Account s)" "o_Balance obj = ac_Balance (so_Account s)"
    "o_CodeHash obj = BytesToHash (ac_CodeHash (so_Account s))" "o_Root obj = ac_Root (so_Account s)"
    "o_Storage obj = (if so_Deleted s then [] else case so_Txn s of None \<Rightarrow> [] | Some tree \<Rightarrow> map storage_object (Tree_Walk (e_store E) tree))"
    using arg_cong [OF obj, of o_Deleted] arg_cong [OF obj, of o_Nonce] arg_cong [OF obj, of o_Balance]
      arg_cong [OF obj, of o_CodeHash] arg_cong [OF obj, of o_Root] arg_cong [OF obj, of o_Storage]
    by (simp_all add: commit_object_def)
  show "o_Deleted obj \<longleftrightarrow> \<not> Exist E t' (o_Address obj)" by (simp add: o Exist_def view)
  show "\<not> o_Deleted obj \<longrightarrow> o_Nonce obj = Txn_GetNonce E t' (o_Address obj) \<and>
      \<bar>o_Balance obj\<bar> = Txn_GetBalance E t' (o_Address obj) \<and> o_CodeHash obj = Txn_GetCodeHash E t' (o_Address obj) \<and>
      (\<forall>k. committed_slot (tx_snapshot t) obj k = GetState E t' (o_Address obj) k)"
    by (simp add: o view Txn_GetNonce_def Txn_GetBalance_def Txn_GetCodeHash_def committed_slot_def GetState_def snap find_storage
        laws_simps [OF assms(1)] storage_object_def split: option.split)
qed

theorem Commit_correct_witness:
  "\<exists>objs t'. Txn_Commit plain_env (SetState plain_env plain_txn 1 7 3) True = Some (objs, t') \<and>
     1 \<in> o_Address ` set objs \<and> 2 \<notin> o_Address ` set objs"
proof -
  let ?t = "SetState plain_env plain_txn 1 7 3"
  obtain objs t' where c: "Txn_Commit plain_env ?t True = Some (objs, t')"
    using CleanDeleteObjects_Some [OF laws_plain_env, of ?t True] by (auto simp: Txn_Commit_def)
  have typed: "txn_typed plain_env ?t"
    using newTxn_typed [OF laws_plain_env, of plain_snapshot] unfolding plain_txn_def
    by (simp add: SetState_def upsertAccount_typed laws_plain_env)
  have "tree_get plain_env ?t (Address_Bytes 1) \<noteq> None" "tree_get plain_env ?t (Address_Bytes 2) = None"
    by (simp_all add: SetState_def upsertAccount_def Let_def get_plain_txn view_simps laws_plain_env)
  then show ?thesis using c Commit_correct [OF laws_plain_env typed c] by blast
qed

subsection \<open>The code cache\<close>

text \<open>
  C36. Deleted code can come back. The code cache of a block is indexed by address and nothing
  removes an entry. When a contract whose code was read destroys itself, and a later transaction
  of the block sends a coin to its address, the account is a new one with the hash of the empty
  code, but \<^verbatim>\<open>GetCode\<close> returns the code of the destroyed contract.
\<close>

theorem GetCode_stale:
  assumes "laws E" and "getStateObject E t a = Some obj"
    and "fst (Cache_Get (e_cache E) (tx_codeCache t) a) = Some code"
    and "CleanDeleteObjects E (snd (Suicide E t a)) True = Some t'"
  shows "fst (Txn_GetCode E (AddBalance E t' a v) a) = code \<and>
    Txn_GetCodeHash E (AddBalance E t' a v) a = BytesToHash (emptyCodeHash (e_crypto E))"
proof -
  let ?t1 = "snd (Suicide E t a)" and ?t3 = "AddBalance E t' a v"
  have "tree_get E ?t1 (Address_Bytes a) = Some (Obj (on_balance (\<lambda>_. 0) (obj\<lparr>so_Suicide := True\<rparr>)))"
    by (simp add: Suicide_def upsertAccount_def assms(2) view_simps assms(1))
  then have gone: "getStateObject E t' a = None"
    by (simp add: CleanDeleteObjects_view(1) [OF assms(1,4)] to_remove_def)
  then have new: "getStateObject E ?t3 a = Some (StateObject_Copy (on_balance (\<lambda>b. b + v) (newStateObject E)))"
    by (simp add: AddBalance_def view_simps assms(1))
  have "tx_codeCache ?t3 = tx_codeCache t"
    using CleanDeleteObjects_Some [OF assms(1), of ?t1 True] assms(4) by (auto simp: AddBalance_def Suicide_def)
  then show ?thesis using new assms(3)
    by (auto simp: Txn_GetCode_def Txn_GetCodeHash_def Let_def split: prod.split)
qed

theorem GetCode_stale_witness:
  "\<exists>t'. CleanDeleteObjects plain_env (snd (Suicide plain_env (snd (Txn_GetCode plain_env plain_txn 1)) 1)) True = Some t' \<and>
     fst (Txn_GetCode plain_env (AddBalance plain_env t' 1 5) 1) = [0x00] \<and>
     Txn_GetCodeHash plain_env (AddBalance plain_env t' 1 5) 1 = BytesToHash (emptyCodeHash plain_crypto)"
proof -
  let ?t = "snd (Txn_GetCode plain_env plain_txn 1)"
  obtain t' where t': "CleanDeleteObjects plain_env (snd (Suicide plain_env ?t 1)) True = Some t'"
    using CleanDeleteObjects_Some [OF laws_plain_env] by blast
  have obj: "\<exists>obj. getStateObject plain_env ?t 1 = Some obj"
    using getStateObject_cong [of ?t plain_txn plain_env] by (simp add: get_plain_txn)
  have "BytesToHash [1] = 1" by (simp add: BytesToHash_def nat_SetBytes_def)
  then have "fst (Cache_Get (e_cache plain_env) (tx_codeCache ?t) 1) = Some [0x00]"
    by (simp add: Txn_GetCode_def get_plain_txn alist_cache_def plain_snapshot_def Let_def)
  then show ?thesis using obj t' GetCode_stale [OF laws_plain_env _ _ t'] by auto
qed

end
