(* ===== verification/Accounting.thy ===== *)
theory Accounting
  imports Execution Ledger
begin

section \<open>Gas and money of transactions and blocks\<close>

text \<open>
  What applying a transaction (\<open>Apply\<close>), writing it into a block (\<open>Write\<close>, \<open>WriteFailedReceipt\<close>) and
  processing a block (\<open>ProcessBlock\<close>) do to the gas pool, the receipts and the supply. The theorems
  are for a transition without a \<open>PostHook\<close>, which the node never sets, and with the \<open>EIP150\<close> fork.
\<close>

subsection \<open>Intrinsic gas\<close>

definition intrinsic_gas :: "Transaction \<Rightarrow> bool \<Rightarrow> bool \<Rightarrow> nat" where
  "intrinsic_gas msg homestead istanbul =
     (if IsContractCreation msg \<and> homestead then 53000 else 21000) +
     4 * length (filter (\<lambda>b. b = 0) (t_Input msg)) +
     (if istanbul then 16 else 68) * length (filter (\<lambda>b. b \<noteq> 0) (t_Input msg))"

lemma count_zeros:
  fixes z :: uint64
  shows "foldl (\<lambda>z b. if b = 0 then z + 1 else z) z bs = z + word_of_nat (length (filter (\<lambda>b. b = (0 :: byte)) bs))"
  by (induction bs arbitrary: z) (auto simp: add.assoc)

lemma div_less_iff:
  fixes a c n :: uint64
  assumes "0 < c"
  shows "a div c < n \<longleftrightarrow> unat a < unat n * unat c"
proof -
  have "0 < unat c" using assms by (simp add: word_less_nat_alt)
  then show ?thesis by (simp add: word_less_nat_alt unat_div div_less_iff_less_mult)
qed

lemma unat_max_sub: "unat (0xFFFFFFFFFFFFFFFF - x :: uint64) = 2 ^ 64 - 1 - unat x"
proof -
  have "unat x \<le> 2 ^ 64 - 1" using unat_uint64_less [of x] by simp
  then show ?thesis by (subst unat_sub) (simp_all add: word_le_nat_alt)
qed

lemma add_mul_exact:
  fixes cost n c :: uint64
  assumes "unat cost + unat n * unat c < 2 ^ 64"
  shows "unat (cost + n * c) = unat cost + unat n * unat c"
  using assms by (simp add: unat_word_ariths)

text \<open>One overflow check of the source: it passes exactly when the sum fits.\<close>

lemma add_mul_checked:
  fixes cost n c :: uint64
  assumes "0 < c"
  shows "(0xFFFFFFFFFFFFFFFF - cost) div c < n \<longleftrightarrow> 2 ^ 64 \<le> unat cost + unat n * unat c"
proof -
  have "unat cost < 2 ^ 64" by (rule unat_uint64_less)
  then show ?thesis by (auto simp: div_less_iff [OF assms] unat_max_sub)
qed

text \<open>
  C17. The intrinsic gas of a transaction is the base cost plus 4 for each zero byte and 16 or 68 for
  each other byte of the input, computed without wrapping: the two divisions of the code refuse
  exactly the inputs whose cost does not fit 64 bits.
\<close>

theorem TransactionGasCost_exact:
  assumes "length (t_Input msg) < 2 ^ 64"
  shows "TransactionGasCost msg homestead istanbul =
    (let g = intrinsic_gas msg homestead istanbul in if g < 2 ^ 64 then Some (word_of_nat g) else None)"
proof -
  define z where "z = length (filter (\<lambda>b. b = 0) (t_Input msg))"
  define nz where "nz = length (filter (\<lambda>b. b \<noteq> 0) (t_Input msg))"
  define base :: uint64 where "base = (if IsContractCreation msg \<and> homestead then 53000 else 21000)"
  define c :: uint64 where "c = (if istanbul then 16 else 68)"
  have len: "length (t_Input msg) = z + nz" unfolding z_def nz_def by (rule sum_length_filter_compl [symmetric])
  have uz: "unat (word_of_nat z :: uint64) = z" and unz: "unat (word_of_nat nz :: uint64) = nz"
    using assms len by (simp_all add: unat_of_nat)
  have nonzeros: "word_of_nat (length (t_Input msg)) - word_of_nat z = (word_of_nat nz :: uint64)"
    by (simp add: len)
  have c: "0 < c" "unat c = (if istanbul then 16 else 68)" by (simp_all add: c_def word_less_nat_alt)
  have g: "intrinsic_gas msg homestead istanbul = unat base + nz * unat c + z * 4"
    by (simp add: intrinsic_gas_def base_def c(2) z_def nz_def)
  have cost: "TransactionGasCost msg homestead istanbul =
     (if t_Input msg = [] then Some base
      else if (0xFFFFFFFFFFFFFFFF - base) div c < word_of_nat nz then None
      else if (0xFFFFFFFFFFFFFFFF - (base + word_of_nat nz * c)) div 4 < word_of_nat z then None
      else Some (base + word_of_nat nz * c + word_of_nat z * 4))"
    by (simp add: TransactionGasCost_def Let_def count_zeros TxGas_def TxGasContractCreation_def base_def c_def
        nonzeros flip: z_def)
  show ?thesis
  proof (cases "t_Input msg = []")
    case True
    then have "z = 0" "nz = 0" by (simp_all add: z_def nz_def)
    then show ?thesis using True unat_uint64_less [of base] by (simp add: cost g Let_def)
  next
    case False
    note chk1 = add_mul_checked [OF c(1), of base "word_of_nat nz", unfolded unz]
    show ?thesis
    proof (cases "unat base + nz * unat c < 2 ^ 64")
      case fits: True
      note chk2 = add_mul_checked [of 4 "base + word_of_nat nz * c" "word_of_nat z",
        unfolded add_mul_exact [of base "word_of_nat nz" c, unfolded unz, OF fits] uz]
      show ?thesis using False fits by (simp add: cost g chk1 chk2 Let_def)
    qed (use False in \<open>simp add: cost g chk1 Let_def\<close>)
  qed
qed

theorem TransactionGasCost_exact_witness:
  "TransactionGasCost ((plain_tx 0 0 0)\<lparr>t_Input := [0, 7, 0]\<rparr>) True True = Some 21024"
  using TransactionGasCost_exact [of "(plain_tx 0 0 0)\<lparr>t_Input := [0, 7, 0]\<rparr>" True True]
  by (simp add: intrinsic_gas_def plain_tx_def IsContractCreation_def Let_def)

lemma TransactionGasCost_min: "TransactionGasCost msg homestead istanbul = Some g \<Longrightarrow> 21000 \<le> unat g"
proof -
  assume g: "TransactionGasCost msg homestead istanbul = Some g"
  define base :: uint64 where "base = (if IsContractCreation msg \<and> homestead then 53000 else 21000)"
  define c :: uint64 where "c = (if istanbul then 16 else 68)"
  define z :: uint64 where "z = foldl (\<lambda>zeros b. if b = 0 then zeros + 1 else zeros) 0 (t_Input msg)"
  define n where "n = word_of_nat (length (t_Input msg)) - z"
  have base: "21000 \<le> unat base" by (simp add: base_def)
  have "TransactionGasCost msg homestead istanbul =
     (if t_Input msg = [] then Some base
      else if (0xFFFFFFFFFFFFFFFF - base) div c < n then None
      else if (0xFFFFFFFFFFFFFFFF - (base + n * c)) div 4 < z then None else Some (base + n * c + z * 4))"
    unfolding TransactionGasCost_def Let_def TxGas_def TxGasContractCreation_def base_def c_def n_def z_def ..
  then consider "g = base" | "\<not> (0xFFFFFFFFFFFFFFFF - base) div c < n"
      "\<not> (0xFFFFFFFFFFFFFFFF - (base + n * c)) div 4 < z" "g = base + n * c + z * 4"
    using g by (auto simp only: option.inject option.distinct split: if_split_asm)
  then show ?thesis
  proof cases
    case 2
    have "0 < c" by (simp add: c_def)
    with 2(1) have "unat (base + n * c) = unat base + unat n * unat c"
      by (simp add: add_mul_checked add_mul_exact)
    moreover have "unat (base + n * c + z * 4) = unat (base + n * c) + unat z * 4"
      using 2(2) add_mul_exact [of "base + n * c" z 4] add_mul_checked [of 4 "base + n * c" z] by simp
    ultimately show ?thesis using base by (simp add: 2(3))
  qed (use base in simp)
qed

subsection \<open>Executing the message\<close>

lemma execute_msg_ok:
  assumes "ctx_ok E t" and "0 \<le> t_Value msg" and "execute_msg E t msg g = Val (r, t')"
  shows "frame t t'" and "r_GasLeft r \<le> g" and "laws E \<Longrightarrow> total_supply E (tr_state t') \<le> total_supply E (tr_state t)"
proof -
  have "keeps E (supply_rel E) t t' \<and> r_GasLeft r \<le> g"
  proof (cases "t_To msg")
    case None
    let ?m = "NewContractCreation 1 (t_From msg) (t_From msg)
      (CreateAddress (e_crypto E) (t_From msg) (Txn_GetNonce E (tr_state t) (t_From msg))) (Some (t_Value msg)) g (t_Input msg)"
    have call: "applyCreate E (top_host E) t ?m = Val (r, t')"
      using assms(3) None by (simp add: execute_msg_def Transition_Create2_def Let_def)
    have "keeps E (supply_rel E) t t'"
      by (rule supply_world.applyCreate_all [OF _ call]) (use assms(2) in \<open>simp_all add: value_ok_def NewContract_defs\<close>)
    then show ?thesis using supply_world.apply_gas_all(2) [OF call] assms(1) by (simp add: ctx_ok_def NewContract_defs)
  next
    case (Some to')
    let ?t1 = "on_state (\<lambda>s. IncrNonce E s (t_From msg)) t"
    let ?t2 = "?t1\<lparr>tr_state := snd (Txn_GetCode E (tr_state ?t1) to')\<rparr>"
    let ?m = "NewContractCall 1 (t_From msg) (t_From msg) to' (Some (t_Value msg)) g (fst (Txn_GetCode E (tr_state ?t1) to')) (t_Input msg)"
    have call: "applyCall E (top_host E) ?t2 ?m Call = Val (r, t')"
      using assms(3) Some by (simp add: execute_msg_def Transition_Call2_def Let_def case_prod_beta)
    have "keeps E (supply_rel E) t ?t1"
      by (rule supply_world.keeps_state) (simp_all add: supply_world.Q_nonce)
    also have "keeps E (supply_rel E) ?t1 ?t2" by (rule supply_world.keeps_code)
    also have "keeps E (supply_rel E) ?t2 t'"
      by (rule supply_world.applyCall_all [OF call]) (use assms(2) in \<open>simp_all add: value_ok_def NewContract_defs\<close>)
    finally show ?thesis
      using supply_world.apply_gas_all(1) [OF call] assms(1) by (simp add: ctx_ok_def NewContract_defs)
  qed
  then show "frame t t'" and "r_GasLeft r \<le> g" and "laws E \<Longrightarrow> total_supply E (tr_state t') \<le> total_supply E (tr_state t)"
    using assms(1) by (simp_all add: keeps_def supply_rel_def)
qed

lemma execute_msg_fuel:
  assumes "EIP150 (e_config E)"
  shows "execute_msg E t msg g \<noteq> NoFuel"
proof -
  have "Transition_run E (top_host E) t m \<noteq> NoFuel" if "c_Depth m = 1" for t m
    using that by (intro Transition_run_fuel [OF assms] callx_fuel [OF assms]) (simp_all add: maxCallLevels_def)
  then show ?thesis
    by (auto simp: execute_msg_def Transition_Create2_def Transition_Call2_def Let_def case_prod_beta NewContract_defs
        intro!: apply_fuel split: option.split)
qed

text \<open>Paying for the gas, executing and settling moves no money but to the coinbase.\<close>

lemma supply_settle:
  assumes "laws E" and "0 \<le> t_GasPrice msg" and "r_GasLeft r \<le> t_Gas msg"
  shows "total_supply E (tr_state (snd (settle E msg r t))) = total_supply E (tr_state t) + t_GasPrice msg * uint (t_Gas msg)"
proof -
  define r' where "r' = UpdateGasUsed r (t_Gas msg) (Txn_GetRefund E (tr_state t))"
  have "uint (r_GasUsed r') + uint (r_GasLeft r') = uint (t_Gas msg)"
    using UpdateGasUsed_balance [OF assms(3), of "Txn_GetRefund E (tr_state t)"] unfolding r'_def [symmetric]
    by (metis (mono_tags, lifting) of_nat_add of_nat_unat)
  then have "uint (t_Gas msg) * t_GasPrice msg = uint (r_GasLeft r') * t_GasPrice msg + uint (r_GasUsed r') * t_GasPrice msg"
    by (metis add.commute distrib_right)
  then show ?thesis
    using assms(1,2) by (simp add: settle_def Let_def addGasPool_def supply_AddBalance mult.commute flip: r'_def)
qed

subsection \<open>Applying a transaction\<close>

lemma subGasLimitPrice_Some:
  assumes "subGasLimitPrice E t msg = Some t1"
  shows "frame t t1" and "tx_snapshots (tr_state t1) = tx_snapshots (tr_state t)"
    and "laws E \<Longrightarrow> 0 \<le> t_GasPrice msg \<Longrightarrow>
      total_supply E (tr_state t1) = total_supply E (tr_state t) - t_GasPrice msg * uint (t_Gas msg)"
  using assms SubBalance_same supply_SubBalance
  by (fastforce simp: subGasLimitPrice_def Let_def frame_def)+

lemma subGasPool_eq:
  "subGasPool t g = Some t1 \<longleftrightarrow> g \<le> tr_gasPool t \<and> t1 = t\<lparr>tr_gasPool := tr_gasPool t - g\<rparr>"
  by (auto simp: subGasPool_def not_less)

text \<open>The run of a message that passes the checks.\<close>

lemma Transition_apply_Inr:
  assumes "Transition_apply E t msg = Val (Inr r, t')"
  obtains t1 g t2 r2 t3 where "nonceCheck E t msg" "subGasLimitPrice E t msg = Some t1" "t_Gas msg \<le> tr_gasPool t"
    "TransactionGasCost msg (Homestead (e_config E)) (Istanbul (e_config E)) = Some g" "g \<le> t_Gas msg"
    "t2 = t1\<lparr>tr_gasPool := tr_gasPool t - t_Gas msg,
       tr_ctx := (tr_ctx t)\<lparr>x_GasPrice := BytesToHash (Bytes (t_GasPrice msg)), x_Origin := t_From msg\<rparr>\<rparr>"
    "execute_msg E t2 msg (t_Gas msg - g) = Val (r2, t3)" "settle E msg r2 t3 = (r, t')"
proof -
  obtain t1 where 1: "nonceCheck E t msg" "subGasLimitPrice E t msg = Some t1"
    using assms by (auto simp: Transition_apply_def split: if_split_asm option.split_asm)
  have fr: "tr_gasPool t1 = tr_gasPool t" "tr_ctx t1 = tr_ctx t"
    using subGasLimitPrice_Some(1) [OF 1(2)] by (simp_all add: frame_def)
  obtain t2 where 2: "t_Gas msg \<le> tr_gasPool t" "subGasPool t1 (t_Gas msg) = Some t2"
      "t2 = t1\<lparr>tr_gasPool := tr_gasPool t - t_Gas msg\<rparr>"
    using assms 1 fr by (auto simp: Transition_apply_def subGasPool_eq split: option.split_asm)
  obtain g where 3: "TransactionGasCost msg (Homestead (e_config E)) (Istanbul (e_config E)) = Some g"
    using assms 1 2 by (auto simp: Transition_apply_def split: option.split_asm)
  obtain r2 t3 where run: "\<not> t_Gas msg < t_Gas msg - g"
      "execute_msg E (t2\<lparr>tr_ctx := (tr_ctx t2)\<lparr>x_GasPrice := BytesToHash (Bytes (t_GasPrice msg)), x_Origin := t_From msg\<rparr>\<rparr>)
         msg (t_Gas msg - g) = Val (r2, t3)" "settle E msg r2 t3 = (r, t')"
    using assms 1 2(2) 3 by (auto simp: Transition_apply_def Let_def obind_eq_Val case_prod_beta prod_eq_iff split: if_split_asm)
  have "g \<le> t_Gas msg" using run(1) by (simp add: not_less word_sub_le_iff)
  then show ?thesis using that 1 2 3 run(2,3) fr by simp
qed

lemma Apply_Inr:
  assumes "Apply E t msg = Val (Inr r, t')" and "e_PostHook E = None"
  shows "Transition_apply E (t\<lparr>tr_state := snd (Snapshot (tr_state t))\<rparr>) msg = Val (Inr r, t')"
proof -
  obtain x t1 where x: "Transition_apply E (t\<lparr>tr_state := snd (Snapshot (tr_state t))\<rparr>) msg = Val (x, t1)"
    using assms(1) by (auto simp: Apply_def Snapshot_def obind_eq_Val)
  then show ?thesis
    using assms by (cases x) (auto simp: Apply_def Snapshot_def obind_eq_Val run_PostHook_def)
qed

lemma frame_ctx_ok: "frame t t' \<Longrightarrow> ctx_ok E t \<Longrightarrow> ctx_ok E t'"
  by (simp add: frame_def ctx_ok_def)

lemma settle_simps:
  "fst (settle E msg r t) = UpdateGasUsed r (t_Gas msg) (Txn_GetRefund E (tr_state t))"
  "tr_ctx (snd (settle E msg r t)) = tr_ctx t" "tr_receipts (snd (settle E msg r t)) = tr_receipts t"
  "tr_totalGas (snd (settle E msg r t)) = tr_totalGas t"
  "tr_gasPool (snd (settle E msg r t)) = tr_gasPool t + r_GasLeft (fst (settle E msg r t))"
  "tx_snapshot (tr_state (snd (settle E msg r t))) = tx_snapshot (tr_state t)"
  "tx_snapshots (tr_state (snd (settle E msg r t))) = tx_snapshots (tr_state t)"
  by (simp_all add: settle_def Let_def addGasPool_def)

text \<open>What a transaction that is applied does to the transition.\<close>

lemma Apply_effect:
  assumes "Apply E t msg = Val (Inr r, t')" and "e_PostHook E = None" and "ctx_ok E t"
    and "0 \<le> t_GasPrice msg" and "0 \<le> t_Value msg"
  shows "unat (r_GasUsed r) + unat (r_GasLeft r) = unat (t_Gas msg)"
    and "10500 \<le> unat (r_GasUsed r)" and "t_Gas msg \<le> tr_gasPool t"
    and "unat (tr_gasPool t') + unat (r_GasUsed r) = unat (tr_gasPool t)"
    and "tr_receipts t' = tr_receipts t" and "tr_totalGas t' = tr_totalGas t" and "ctx_ok E t'"
    and "x_Coinbase (tr_ctx t') = x_Coinbase (tr_ctx t)" and "x_ChainID (tr_ctx t') = x_ChainID (tr_ctx t)"
    and "tx_snapshot (tr_state t') = tx_snapshot (tr_state t)"
    and "laws E \<Longrightarrow> total_supply E (tr_state t') \<le> total_supply E (tr_state t)"
proof -
  let ?t = "t\<lparr>tr_state := snd (Snapshot (tr_state t))\<rparr>"
  obtain t1 g t2 r2 t3 where sub: "subGasLimitPrice E ?t msg = Some t1" and pool: "t_Gas msg \<le> tr_gasPool t"
    and cost: "TransactionGasCost msg (Homestead (e_config E)) (Istanbul (e_config E)) = Some g" and "g \<le> t_Gas msg"
    and t2: "t2 = t1\<lparr>tr_gasPool := tr_gasPool t - t_Gas msg,
       tr_ctx := (tr_ctx t)\<lparr>x_GasPrice := BytesToHash (Bytes (t_GasPrice msg)), x_Origin := t_From msg\<rparr>\<rparr>"
    and run: "execute_msg E t2 msg (t_Gas msg - g) = Val (r2, t3)" and set: "settle E msg r2 t3 = (r, t')"
    by (rule Transition_apply_Inr [OF Apply_Inr [OF assms(1,2)]]) (use that in simp)
  note s1 = subGasLimitPrice_Some [OF sub]
  have "ctx_ok E t2" using assms(3) by (simp add: t2 ctx_ok_def)
  note ex = execute_msg_ok [OF this assms(5) run]
  have g: "unat (r_GasLeft r2) \<le> unat (t_Gas msg) - unat g"
    using ex(2) \<open>g \<le> t_Gas msg\<close> by (simp add: word_le_nat_alt unat_sub)
  have left: "r_GasLeft r2 \<le> t_Gas msg" using g by (simp add: word_le_nat_alt)
  have r: "r = UpdateGasUsed r2 (t_Gas msg) (Txn_GetRefund E (tr_state t3))" using settle_simps(1) [of E msg r2 t3] set by simp
  note bal = UpdateGasUsed_balance [OF left, of "Txn_GetRefund E (tr_state t3)", folded r]
  show sum: "unat (r_GasUsed r) + unat (r_GasLeft r) = unat (t_Gas msg)" using bal by simp
  show "10500 \<le> unat (r_GasUsed r)"
    using bal g TransactionGasCost_min [OF cost] \<open>g \<le> t_Gas msg\<close> unfolding word_le_nat_alt by linarith
  show "t_Gas msg \<le> tr_gasPool t" by (rule pool)
  have "tr_gasPool t3 = tr_gasPool t - t_Gas msg" using ex(1) by (simp add: frame_def t2)
  then have "tr_gasPool t' = tr_gasPool t - t_Gas msg + r_GasLeft r" using settle_simps(5) [of E msg r2 t3] set by simp
  moreover have "unat (tr_gasPool t - t_Gas msg) = unat (tr_gasPool t) - unat (t_Gas msg)"
    using pool by (simp add: unat_sub)
  ultimately have "unat (tr_gasPool t') = unat (tr_gasPool t) - unat (t_Gas msg) + unat (r_GasLeft r)"
    using pool sum unat_uint64_less [of "tr_gasPool t"] by (simp add: word_le_nat_alt unat_add_lem [THEN iffD1])
  then show "unat (tr_gasPool t') + unat (r_GasUsed r) = unat (tr_gasPool t)"
    using sum pool by (simp add: word_le_nat_alt)
  show "tr_receipts t' = tr_receipts t" "tr_totalGas t' = tr_totalGas t"
    "x_Coinbase (tr_ctx t') = x_Coinbase (tr_ctx t)" "x_ChainID (tr_ctx t') = x_ChainID (tr_ctx t)"
    "tx_snapshot (tr_state t') = tx_snapshot (tr_state t)" "ctx_ok E t'"
    using settle_simps [of E msg r2 t3] set ex(1) s1(1) assms(3) by (auto simp: frame_def t2 Snapshot_def ctx_ok_def)
  show "total_supply E (tr_state t') \<le> total_supply E (tr_state t)" if "laws E"
    using supply_settle [OF that assms(4) left, of t3] set ex(3) [OF that] s1(3) [OF that assms(4)]
      supply_same [of E "snd (Snapshot (tr_state t))" "tr_state t"] GetBalance_same_tree [of "snd (Snapshot (tr_state t))" "tr_state t" E]
    by (simp add: t2 Snapshot_def)
qed

text \<open>A transaction that is refused, and the check that refused it.\<close>

abbreviation after_pool :: "apply_cause set" where
  "after_pool \<equiv> {ErrIntrinsicGasOverflow, ErrNotEnoughIntrinsicGas, ErrNotEnoughFundsForValue}"

lemma Transition_apply_Inl:
  assumes "Transition_apply E t msg = Val (Inl e, t')"
  shows "tx_snapshot (tr_state t') = tx_snapshot (tr_state t)" and "tx_snapshots (tr_state t') = tx_snapshots (tr_state t)"
    and "tr_ctx t' = tr_ctx t" and "tr_receipts t' = tr_receipts t" and "tr_totalGas t' = tr_totalGas t"
    and "tr_gasPool t' = (if cause e \<in> after_pool then tr_gasPool t - t_Gas msg else tr_gasPool t)"
proof -
  have "(e = TransitionApplicationError ErrNonceIncorrect True \<or> e = TransitionApplicationError ErrNotEnoughFundsForGas True) \<and> t' = t \<or>
    (\<exists>t1. subGasLimitPrice E t msg = Some t1 \<and>
      (e = GasLimitReachedTransitionApplicationError ErrBlockLimitReached \<and> t' = t1 \<or>
       cause e \<in> after_pool \<and> subGasPool t1 (t_Gas msg) = Some t'))"
    using assms unfolding Transition_apply_def
    by (auto simp: Let_def obind_eq_Val split: if_split_asm option.split_asm prod.split_asm)
  then show "tx_snapshot (tr_state t') = tx_snapshot (tr_state t)" and "tx_snapshots (tr_state t') = tx_snapshots (tr_state t)"
    and "tr_ctx t' = tr_ctx t" and "tr_receipts t' = tr_receipts t" and "tr_totalGas t' = tr_totalGas t"
    and "tr_gasPool t' = (if cause e \<in> after_pool then tr_gasPool t - t_Gas msg else tr_gasPool t)"
    using subGasLimitPrice_Some(1,2) [of E t msg] by (auto simp: subGasPool_eq frame_def)
qed

lemma Apply_Inl:
  assumes "Apply E t msg = Val (Inl e, t')" and "e_PostHook E = None"
  obtains t1 where "Transition_apply E (t\<lparr>tr_state := snd (Snapshot (tr_state t))\<rparr>) msg = Val (Inl e, t1)"
    and "t' = t1\<lparr>tr_state := (tr_state t1)\<lparr>tx_txn := tx_txn (tr_state t)\<rparr>\<rparr>"
proof -
  obtain x t1 where x: "Transition_apply E (t\<lparr>tr_state := snd (Snapshot (tr_state t))\<rparr>) msg = Val (x, t1)"
    using assms(1) by (auto simp: Apply_def Snapshot_def obind_eq_Val)
  then have "x = Inl e" and rev: "revert_state t1 (length (tx_snapshots (tr_state t))) = Val t'"
    using assms by (auto simp: Apply_def Snapshot_def obind_eq_Val run_PostHook_def split: sum.splits)
  moreover have "tx_snapshots (tr_state t1) = tx_snapshots (tr_state t) @ [tx_txn (tr_state t)]"
    using Transition_apply_Inl(2) [OF x [unfolded \<open>x = Inl e\<close>]] by (simp add: Snapshot_def)
  ultimately show ?thesis using that x
    by (auto simp: revert_state_def RevertToSnapshot_def obind_eq_Val)
qed

text \<open>
  C16. A transaction that is refused leaves no trace in the world state: whatever the checks had
  already taken is given back, and context, receipts and gas total are as before.
\<close>

theorem Apply_error_restores:
  assumes "Apply E t msg = Val (Inl e, t')" and "e_PostHook E = None"
  shows "(\<forall>a. getStateObject E (tr_state t') a = getStateObject E (tr_state t) a) \<and>
    tree_logs E (tr_state t') = tree_logs E (tr_state t) \<and> Txn_GetRefund E (tr_state t') = Txn_GetRefund E (tr_state t) \<and>
    tr_ctx t' = tr_ctx t \<and> tr_receipts t' = tr_receipts t \<and> tr_totalGas t' = tr_totalGas t"
proof -
  obtain t1 where t1: "Transition_apply E (t\<lparr>tr_state := snd (Snapshot (tr_state t))\<rparr>) msg = Val (Inl e, t1)"
    and t': "t' = t1\<lparr>tr_state := (tr_state t1)\<lparr>tx_txn := tx_txn (tr_state t)\<rparr>\<rparr>"
    by (rule Apply_Inl [OF assms])
  have "getStateObject E (tr_state t') = getStateObject E (tr_state t)"
    by (rule getStateObject_cong) (simp_all add: t' Transition_apply_Inl(1) [OF t1] Snapshot_def)
  then show ?thesis using Transition_apply_Inl(3-5) [OF t1]
    by (simp add: t' tree_logs_def Txn_GetRefund_def)
qed

text \<open>
  C33. The gas pool is not given back: a transaction refused for its intrinsic gas or its value, after
  the pool was charged, takes its whole gas limit out of the block.
\<close>

theorem Apply_error_keeps_gas:
  assumes "Apply E t msg = Val (Inl e, t')" and "e_PostHook E = None"
  shows "tr_gasPool t' = (if cause e \<in> {ErrIntrinsicGasOverflow, ErrNotEnoughIntrinsicGas, ErrNotEnoughFundsForValue}
    then tr_gasPool t - t_Gas msg else tr_gasPool t)"
proof -
  obtain t1 where t1: "Transition_apply E (t\<lparr>tr_state := snd (Snapshot (tr_state t))\<rparr>) msg = Val (Inl e, t1)"
    and t': "t' = t1\<lparr>tr_state := (tr_state t1)\<lparr>tx_txn := tx_txn (tr_state t)\<rparr>\<rparr>"
    by (rule Apply_Inl [OF assms])
  show ?thesis using Transition_apply_Inl(6) [OF t1] by (simp add: t')
qed

subsection \<open>A plain transfer\<close>

lemma Run_loop_stop: "s_stop c \<Longrightarrow> Run_loop n H L c = Val c"
  by (cases n) simp_all

lemma EVM_Run_empty:
  assumes "c_Code m = []"
  shows "EVM_Run H L m h cfg = Val (\<lparr>r_ReturnValue = [], r_GasLeft = c_Gas m, r_GasUsed = 0, r_Err = None\<rparr>, h)"
proof -
  define c where "c = setup_state (new_state m h cfg) (extendByteSlice [] (Suc 0)) m h cfg"
  have c: "\<not> s_stop c" "s_ip c = 0" "s_code c = []" "s_ret c = []" "s_gas c = c_Gas m" "s_err c = None" "s_host c = h"
    using assms by (simp_all add: c_def setup_state_def new_state_def resetReturnData_def)
  have "Run_loop (run_fuel m) H L c = Val (Halt c)"
    by (simp add: run_fuel_def run_step_def CurrentOpCode_def c Run_loop_stop Halt_def)
  moreover have "setCode [] [] = Some (extendByteSlice [] (Suc 0))" by (simp add: setCode_def setCode_loop.simps)
  ultimately show ?thesis
    using assms by (simp add: EVM_Run_def c EVM_result_def Halt_def flip: c_def)
qed

lemma GetCode_cong:
  assumes "getStateObject E s' a = getStateObject E s a" and "tx_snapshot s' = tx_snapshot s" and "tx_codeCache s' = tx_codeCache s"
  shows "fst (Txn_GetCode E s' a) = fst (Txn_GetCode E s a)"
  using assms by (simp add: Txn_GetCode_def Let_def split: option.split prod.split)

lemma SubBalance_other:
  assumes "laws E" and "SubBalance E s a v = Some s'" and "a' \<noteq> a"
  shows "getStateObject E s' a' = getStateObject E s a'"
  using assms(2,3) by (auto simp: SubBalance_def view_simps assms(1) split: if_splits)

lemma SubBalance_views:
  assumes "laws E" and "SubBalance E s a v = Some s'"
  shows "Txn_GetNonce E s' a' = Txn_GetNonce E s a'" and "Txn_GetRefund E s' = Txn_GetRefund E s" and "tx_codeCache s' = tx_codeCache s"
  using assms(2) by (auto simp: SubBalance_def Txn_GetNonce_def view_simps assms(1) dest: getStateObject_SomeD(2) split: if_splits option.splits)

lemma Nonce_views:
  assumes "laws E"
  shows "Txn_GetNonce E (AddBalance E s a v) a' = Txn_GetNonce E s a'" and "Txn_GetNonce E (TouchAccount E s a) a' = Txn_GetNonce E s a'"
    and "Txn_GetNonce E (IncrNonce E s a) a' = (if a' = a then Txn_GetNonce E s a + 1 else Txn_GetNonce E s a')"
    and "Txn_GetRefund E (AddBalance E s a v) = Txn_GetRefund E s" and "Txn_GetRefund E (TouchAccount E s a) = Txn_GetRefund E s"
    and "Txn_GetRefund E (IncrNonce E s a) = Txn_GetRefund E s"
  by (auto simp: AddBalance_def IncrNonce_def Txn_GetNonce_def view_simps assms dest: getStateObject_SomeD(2) split: option.split)
     (simp_all add: TouchAccount_def view_simps assms)

lemma tree_views:
  assumes "tx_txn s' = tx_txn s" and "tx_snapshot s' = tx_snapshot s"
  shows "getStateObject E s' = getStateObject E s" and "Txn_GetBalance E s' a = Txn_GetBalance E s a"
    and "Txn_GetNonce E s' a = Txn_GetNonce E s a" and "Txn_GetRefund E s' = Txn_GetRefund E s"
  using getStateObject_cong [OF assms, of E] by (simp_all add: Txn_GetBalance_def Txn_GetNonce_def Txn_GetRefund_def assms(1))

lemma Snapshot_views [simp]:
  "getStateObject E (snd (Snapshot s)) = getStateObject E s" "Txn_GetBalance E (snd (Snapshot s)) a = Txn_GetBalance E s a"
  "Txn_GetNonce E (snd (Snapshot s)) a = Txn_GetNonce E s a" "Txn_GetRefund E (snd (Snapshot s)) = Txn_GetRefund E s"
  "tx_snapshot (snd (Snapshot s)) = tx_snapshot s" "tx_codeCache (snd (Snapshot s)) = tx_codeCache s"
  using tree_views [of "snd (Snapshot s)" s] by (simp_all add: Snapshot_def)

lemma GetCode_views [simp]:
  "Txn_GetBalance E (snd (Txn_GetCode E s b)) a = Txn_GetBalance E s a"
  "Txn_GetNonce E (snd (Txn_GetCode E s b)) a = Txn_GetNonce E s a" "Txn_GetRefund E (snd (Txn_GetCode E s b)) = Txn_GetRefund E s"
  using tree_views [of "snd (Txn_GetCode E s b)" s] by simp_all

text \<open>Executing a message to an account without code moves the value.\<close>

lemma execute_transfer:
  assumes "laws E" and "t_To msg = Some a" and "a \<noteq> t_From msg" and "map_of contracts a = None"
    and "fst (Txn_GetCode E (tr_state t) a) = []" and "0 \<le> t_Value msg" and "t_Value msg \<le> Txn_GetBalance E (tr_state t) (t_From msg)"
  obtains s where "execute_msg E t msg g = Val (\<lparr>r_ReturnValue = [], r_GasLeft = g, r_GasUsed = 0, r_Err = None\<rparr>, t\<lparr>tr_state := s\<rparr>)"
    and "\<And>x. Txn_GetBalance E s x = Txn_GetBalance E (tr_state t) x -
      (if x = t_From msg then t_Value msg else 0) + (if x = a then t_Value msg else 0)"
    and "\<And>x. Txn_GetNonce E s x = Txn_GetNonce E (tr_state t) x + (if x = t_From msg then 1 else 0)"
    and "Txn_GetRefund E s = Txn_GetRefund E (tr_state t)"
proof -
  define s1 where "s1 = IncrNonce E (tr_state t) (t_From msg)"
  define s2 where "s2 = snd (Txn_GetCode E s1 a)"
  define s3 where "s3 = TouchAccount E (snd (Snapshot s2)) a"
  define m where "m = NewContractCall 1 (t_From msg) (t_From msg) a (Some (t_Value msg)) g [] (t_Input msg)"
  have bal3: "Txn_GetBalance E s3 x = Txn_GetBalance E (tr_state t) x" for x
    by (simp add: s3_def s2_def s1_def view_simps assms(1))
  obtain s4 where s4: "SubBalance E s3 (t_From msg) (t_Value msg) = Some s4"
    using assms(7) SubBalance_iff [of E s3 "t_From msg" "t_Value msg"] bal3 by (cases "SubBalance E s3 (t_From msg) (t_Value msg)") auto
  define s5 where "s5 = AddBalance E s4 a (t_Value msg)"
  have code: "fst (Txn_GetCode E s1 a) = []"
    using assms(3,5) GetCode_cong [of E s1 a "tr_state t"] by (simp add: s1_def IncrNonce_def view_simps assms(1))
  have run: "finish_applyCall E (top_host E) m n (t\<lparr>tr_state := s5\<rparr>) =
      Val (\<lparr>r_ReturnValue = [], r_GasLeft = g, r_GasUsed = 0, r_Err = None\<rparr>, t\<lparr>tr_state := s5\<rparr>)" for n
    using assms(4) by (simp add: finish_applyCall_def Transition_run_def Precompiled_CanRun_def m_def NewContract_defs EVM_Run_empty Failed_def)
  have "execute_msg E t msg g = Val (\<lparr>r_ReturnValue = [], r_GasLeft = g, r_GasUsed = 0, r_Err = None\<rparr>, t\<lparr>tr_state := s5\<rparr>)"
    using run code s4
    by (simp add: execute_msg_def assms(2) Transition_Call2_def Let_def case_prod_beta applyCall_def transfer_def
        m_def [unfolded NewContract_defs] NewContract_defs s5_def s3_def s2_def s1_def)
  moreover have "Txn_GetBalance E s5 x = Txn_GetBalance E (tr_state t) x -
      (if x = t_From msg then t_Value msg else 0) + (if x = a then t_Value msg else 0)" for x
    using SubBalance_Some(2) [OF assms(1,6) s4, of x] assms(1,6) by (simp add: s5_def GetBalance_AddBalance bal3)
  moreover have "Txn_GetNonce E s5 x = Txn_GetNonce E (tr_state t) x + (if x = t_From msg then 1 else 0)" for x
    using SubBalance_views [OF assms(1) s4] by (simp add: s5_def Nonce_views assms(1) s3_def s2_def s1_def)
  moreover have "Txn_GetRefund E s5 = Txn_GetRefund E (tr_state t)"
    using SubBalance_views [OF assms(1) s4] by (simp add: s5_def Nonce_views assms(1) s3_def s2_def s1_def)
  ultimately show ?thesis by (rule that)
qed

lemma plain_transfer:
  assumes "laws E" and "e_PostHook E = None" and "t_To msg = Some a" and "a \<noteq> t_From msg" and "map_of contracts a = None"
    and "fst (Txn_GetCode E (tr_state t) a) = []" and "Txn_GetRefund E (tr_state t) = 0"
    and "Txn_GetNonce E (tr_state t) (t_From msg) = t_Nonce msg"
    and "0 \<le> t_GasPrice msg" and "0 \<le> t_Value msg" and "Cost msg \<le> Txn_GetBalance E (tr_state t) (t_From msg)"
    and "t_Gas msg \<le> tr_gasPool t"
    and "TransactionGasCost msg (Homestead (e_config E)) (Istanbul (e_config E)) = Some g" and "g \<le> t_Gas msg"
  shows "\<exists>r t'. Apply E t msg = Val (Inr r, t') \<and> r_Err r = None \<and> r_GasUsed r = g \<and> tr_gasPool t' = tr_gasPool t - g \<and>
    Txn_GetNonce E (tr_state t') (t_From msg) = t_Nonce msg + 1 \<and>
    (\<forall>x. Txn_GetBalance E (tr_state t') x = Txn_GetBalance E (tr_state t) x -
       (if x = t_From msg then t_Value msg + t_GasPrice msg * uint g else 0) +
       (if x = a then t_Value msg else 0) + (if x = x_Coinbase (tr_ctx t) then t_GasPrice msg * uint g else 0))"
proof -
  define s0 where "s0 = snd (Snapshot (tr_state t))"
  let ?fee = "t_GasPrice msg * uint (t_Gas msg)"
  have fee: "0 \<le> ?fee" using assms(9) by simp
  obtain s1 where s1: "SubBalance E s0 (t_From msg) ?fee = Some s1"
    using assms(10,11) SubBalance_iff [of E s0 "t_From msg" ?fee]
    by (cases "SubBalance E s0 (t_From msg) ?fee") (auto simp: s0_def Cost_def)
  have bal1: "Txn_GetBalance E s1 x = Txn_GetBalance E (tr_state t) x - (if x = t_From msg then ?fee else 0)" for x
    using SubBalance_Some(2) [OF assms(1) fee s1, of x] by (simp add: s0_def)
  note v1 = SubBalance_views [OF assms(1) s1]
  define t2 where "t2 = t\<lparr>tr_state := s1, tr_gasPool := tr_gasPool t - t_Gas msg,
    tr_ctx := (tr_ctx t)\<lparr>x_GasPrice := BytesToHash (Bytes (t_GasPrice msg)), x_Origin := t_From msg\<rparr>\<rparr>"
  have code: "fst (Txn_GetCode E (tr_state t2) a) = []"
    using assms(6) GetCode_cong [of E s1 a "tr_state t"] SubBalance_other [OF assms(1) s1 assms(4)] SubBalance_same [OF s1] v1(3)
    by (simp add: t2_def s0_def)
  have funds: "t_Value msg \<le> Txn_GetBalance E (tr_state t2) (t_From msg)"
    using assms(11) bal1 [of "t_From msg"] by (simp add: t2_def Cost_def)
  obtain s where run: "execute_msg E t2 msg (t_Gas msg - g) =
      Val (\<lparr>r_ReturnValue = [], r_GasLeft = t_Gas msg - g, r_GasUsed = 0, r_Err = None\<rparr>, t2\<lparr>tr_state := s\<rparr>)"
    and bal: "\<And>x. Txn_GetBalance E s x = Txn_GetBalance E (tr_state t2) x -
      (if x = t_From msg then t_Value msg else 0) + (if x = a then t_Value msg else 0)"
    and nonce: "\<And>x. Txn_GetNonce E s x = Txn_GetNonce E (tr_state t2) x + (if x = t_From msg then 1 else 0)"
    and refund: "Txn_GetRefund E s = Txn_GetRefund E (tr_state t2)"
    by (rule execute_transfer [OF assms(1,3-5) code assms(10) funds, where g = "t_Gas msg - g"]) (rule that)
  have st2: "tr_state t2 = s1" "x_Coinbase (tr_ctx t2) = x_Coinbase (tr_ctx t)" by (simp_all add: t2_def)
  have "Txn_GetRefund E s = 0" using refund v1(2) assms(7) by (simp add: s0_def st2)
  define r where "r = \<lparr>r_ReturnValue = [], r_GasLeft = t_Gas msg - g, r_GasUsed = g, r_Err = None\<rparr>"
  define t' where "t' = snd (settle E msg \<lparr>r_ReturnValue = [], r_GasLeft = t_Gas msg - g, r_GasUsed = 0, r_Err = None\<rparr> (t2\<lparr>tr_state := s\<rparr>))"
  have set: "settle E msg \<lparr>r_ReturnValue = [], r_GasLeft = t_Gas msg - g, r_GasUsed = 0, r_Err = None\<rparr> (t2\<lparr>tr_state := s\<rparr>) = (r, t')"
    using \<open>Txn_GetRefund E s = 0\<close> by (simp add: t'_def r_def settle_def Let_def UpdateGasUsed_def)
  have "Transition_apply E (t\<lparr>tr_state := s0\<rparr>) msg = Val (Inr r, t')"
    using assms(8,12-14) s1 funds run set
    by (simp add: Transition_apply_def nonceCheck_def s0_def subGasLimitPrice_def subGasPool_def Let_def t2_def not_less word_sub_le)
  then have "Apply E t msg = Val (Inr r, t')"
    using assms(2) by (simp add: Apply_def Snapshot_def s0_def run_PostHook_def)
  moreover have "tr_gasPool t' = tr_gasPool t - g"
    by (simp add: t'_def settle_def Let_def addGasPool_def UpdateGasUsed_def \<open>Txn_GetRefund E s = 0\<close> t2_def)
  moreover have s': "tr_state t' = AddBalance E (AddBalance E s (t_From msg) (uint (t_Gas msg - g) * t_GasPrice msg))
      (x_Coinbase (tr_ctx t)) (uint g * t_GasPrice msg)"
    by (simp add: t'_def settle_def Let_def addGasPool_def UpdateGasUsed_def \<open>Txn_GetRefund E s = 0\<close> st2)
  have left: "uint (t_Gas msg - g) = uint (t_Gas msg) - uint g"
    using assms(14) by (simp add: uint_sub_lem [THEN iffD1] word_le_def)
  have "0 \<le> (uint (t_Gas msg) - uint g) * t_GasPrice msg" using assms(9,14) by (simp add: word_le_def)
  then have "Txn_GetBalance E (tr_state t') x = Txn_GetBalance E (tr_state t) x -
       (if x = t_From msg then t_Value msg + t_GasPrice msg * uint g else 0) +
       (if x = a then t_Value msg else 0) + (if x = x_Coinbase (tr_ctx t) then t_GasPrice msg * uint g else 0)" for x
    using assms(1,9) by (simp add: s' GetBalance_AddBalance bal bal1 st2 left) (simp add: algebra_simps)
  moreover have "Txn_GetNonce E (tr_state t') (t_From msg) = t_Nonce msg + 1"
    using v1(1) assms(8) by (simp add: t'_def settle_def Let_def addGasPool_def Nonce_views assms(1) nonce st2 s0_def)
  ultimately show ?thesis by (auto simp: r_def)
qed

text \<open>
  C7. A plain transfer works: a transaction with the right nonce, enough balance for its cost and enough gas, to
  an account without code that is not a precompiled contract, is applied without error. It moves
  the value, uses exactly the intrinsic gas, pays for it to the coinbase, counts the sender's nonce up,
  and changes no other balance.
\<close>

theorem Apply_transfer:
  assumes "laws E" and "e_PostHook E = None" and "t_To msg = Some a" and "a \<noteq> t_From msg" and "map_of contracts a = None"
    and "fst (Txn_GetCode E (tr_state t) a) = []" and "Txn_GetRefund E (tr_state t) = 0"
    and "Txn_GetNonce E (tr_state t) (t_From msg) = t_Nonce msg"
    and "0 \<le> t_GasPrice msg" and "0 \<le> t_Value msg" and "Cost msg \<le> Txn_GetBalance E (tr_state t) (t_From msg)"
    and "t_Gas msg \<le> tr_gasPool t"
    and "TransactionGasCost msg (Homestead (e_config E)) (Istanbul (e_config E)) = Some g" and "g \<le> t_Gas msg"
  shows "\<exists>r t'. Apply E t msg = Val (Inr r, t') \<and> r_Err r = None \<and> r_GasUsed r = g \<and> tr_gasPool t' = tr_gasPool t - g \<and>
    Txn_GetNonce E (tr_state t') (t_From msg) = t_Nonce msg + 1 \<and>
    (\<forall>x. Txn_GetBalance E (tr_state t') x = Txn_GetBalance E (tr_state t) x -
       (if x = t_From msg then t_Value msg + t_GasPrice msg * uint g else 0) +
       (if x = a then t_Value msg else 0) + (if x = x_Coinbase (tr_ctx t) then t_GasPrice msg * uint g else 0))"
  using assms by (rule plain_transfer)

subsection \<open>A concrete transition\<close>

text \<open>A transition on the snapshot of theory \<open>Ledger\<close>, where account 1 has a balance of 100 and the nonce 1.\<close>

definition plain_tenv ::
    "precompiled_lib \<Rightarrow> (plain_storage, (bytes, plain_storage entry) alist, (Address \<times> bytes) list) tenv" where
  "plain_tenv C = \<lparr>e_store = alist_radix, e_main = alist_radix, e_cache = alist_cache, e_crypto = plain_crypto,
     e_config = all_forks, e_getHash = (\<lambda>_. 0), e_sig = plain_sig, e_precompiles = C, e_PostHook = None\<rparr>"

definition plain_transition :: "((bytes, plain_storage entry) alist, (Address \<times> bytes) list) Transition" where
  "plain_transition = \<lparr>tr_state = plain_txn,
     tr_ctx = \<lparr>x_GasPrice = 0, x_Origin = 0, x_Coinbase = 9, x_Number = 5, x_Timestamp = 7, x_GasLimit = 100000,
       x_ChainID = 100, x_Difficulty = 0\<rparr>,
     tr_gasPool = 100000, tr_receipts = [], tr_totalGas = 0\<rparr>"

text \<open>A transaction of account 1 to account 256.\<close>

definition plain_msg :: "uint64 \<Rightarrow> uint64 \<Rightarrow> int \<Rightarrow> Transaction" where
  "plain_msg nonce gas' v = \<lparr>t_Nonce = nonce, t_GasPrice = 0, t_Gas = gas', t_To = Some 256, t_Value = v, t_Input = [],
     t_V = None, t_R = None, t_S = None, t_Hash = 3, t_From = 1\<rparr>"

lemma laws_plain_tenv: "laws (plain_tenv C)"
  by (simp add: laws_def plain_tenv_def radix_laws_alist)

lemma plain_tenv_simps [simp]: "e_PostHook (plain_tenv C) = None" "e_config (plain_tenv C) = all_forks"
  by (simp_all add: plain_tenv_def)

lemma getStateObject_plain: "getStateObject (plain_tenv C) plain_txn = getStateObject plain_env plain_txn"
  by (simp add: getStateObject_def plain_tenv_def plain_env_def fun_eq_iff)

lemma plain_views:
  "Txn_GetBalance (plain_tenv C) plain_txn a = (if a = 1 then 100 else 0)"
  "Txn_GetNonce (plain_tenv C) plain_txn a = (if a = 1 then 1 else 0)"
  "Txn_GetRefund (plain_tenv C) plain_txn = 0"
  "fst (Txn_GetCode (plain_tenv C) plain_txn 256) = []"
  by (simp_all add: Txn_GetBalance_def Txn_GetNonce_def Txn_GetCode_def getStateObject_plain get_plain_txn)
    (simp add: Txn_GetRefund_def plain_txn_def newTxn_def plain_env_def plain_tenv_def alist_radix_def)

lemma plain_msg_gas: "TransactionGasCost (plain_msg n g v) h i = Some 21000"
  by (simp add: TransactionGasCost_def plain_msg_def IsContractCreation_def TxGas_def)

lemma plain_msg_simps [simp]:
  "t_From (plain_msg n g v) = 1" "t_Nonce (plain_msg n g v) = n" "t_Gas (plain_msg n g v) = g" "t_To (plain_msg n g v) = Some 256"
  "t_GasPrice (plain_msg n g v) = 0" "t_Value (plain_msg n g v) = v"
  by (simp_all add: plain_msg_def)

lemma plain_transition_simps [simp]:
  "tr_state plain_transition = plain_txn" "tr_gasPool plain_transition = 100000" "x_Coinbase (tr_ctx plain_transition) = 9"
  by (simp_all add: plain_transition_def)

theorem Apply_transfer_witness:
  "\<forall>C. \<exists>r t'. Apply (plain_tenv C) plain_transition (plain_msg 1 30000 40) = Val (Inr r, t') \<and> r_GasUsed r = 21000 \<and>
     tr_gasPool t' = 79000 \<and> Txn_GetNonce (plain_tenv C) (tr_state t') 1 = 2 \<and>
     Txn_GetBalance (plain_tenv C) (tr_state t') 1 = 60 \<and> Txn_GetBalance (plain_tenv C) (tr_state t') 256 = 40"
proof
  fix C
  obtain r t' where "Apply (plain_tenv C) plain_transition (plain_msg 1 30000 40) = Val (Inr r, t')" "r_GasUsed r = 21000"
    "tr_gasPool t' = 79000" "Txn_GetNonce (plain_tenv C) (tr_state t') 1 = 2"
    "\<forall>x. Txn_GetBalance (plain_tenv C) (tr_state t') x = Txn_GetBalance (plain_tenv C) plain_txn x -
       (if x = 1 then 40 else 0) + (if x = 256 then 40 else 0)"
    using Apply_transfer [OF laws_plain_tenv [of C], where msg = "plain_msg 1 30000 40" and t = plain_transition and a = 256 and g = 21000]
    by (simp add: plain_msg_gas plain_views Cost_def contracts_def cong: if_cong) blast
  then show "\<exists>r t'. Apply (plain_tenv C) plain_transition (plain_msg 1 30000 40) = Val (Inr r, t') \<and> r_GasUsed r = 21000 \<and>
     tr_gasPool t' = 79000 \<and> Txn_GetNonce (plain_tenv C) (tr_state t') 1 = 2 \<and>
     Txn_GetBalance (plain_tenv C) (tr_state t') 1 = 60 \<and> Txn_GetBalance (plain_tenv C) (tr_state t') 256 = 40"
    by (auto simp: plain_views)
qed

lemma snapshots_views [simp]:
  "Txn_GetNonce E (s\<lparr>tx_snapshots := ss\<rparr>) a = Txn_GetNonce E s a" "Txn_GetBalance E (s\<lparr>tx_snapshots := ss\<rparr>) a = Txn_GetBalance E s a"
  using tree_views [of "s\<lparr>tx_snapshots := ss\<rparr>" s E] by simp_all

lemma plain_errors:
  "\<exists>t'. Apply (plain_tenv C) plain_transition (plain_msg 5 30000 40) = Val (Inl (TransitionApplicationError ErrNonceIncorrect True), t')"
  "\<exists>t'. Apply (plain_tenv C) plain_transition (plain_msg 1 20000 40) = Val (Inl (TransitionApplicationError ErrNotEnoughIntrinsicGas False), t')"
  by (simp_all add: Apply_def Snapshot_def Transition_apply_def nonceCheck_def plain_views revert_state_def RevertToSnapshot_def
      run_PostHook_def subGasLimitPrice_def subGasPool_def SubBalance_def plain_msg_gas)

theorem Apply_error_restores_witness:
  "\<forall>C. \<exists>t'. Apply (plain_tenv C) plain_transition (plain_msg 5 30000 40) = Val (Inl (TransitionApplicationError ErrNonceIncorrect True), t') \<and>
     (\<forall>a. getStateObject (plain_tenv C) (tr_state t') a = getStateObject (plain_tenv C) plain_txn a)"
  using Apply_error_restores [of "plain_tenv C" plain_transition "plain_msg 5 30000 40" for C] plain_errors(1)
  by fastforce

theorem Apply_error_keeps_gas_witness:
  "\<forall>C. \<exists>e t'. Apply (plain_tenv C) plain_transition (plain_msg 1 20000 40) = Val (Inl e, t') \<and> tr_gasPool t' = 80000"
  using Apply_error_keeps_gas [of "plain_tenv C" plain_transition "plain_msg 1 20000 40" for C] plain_errors(2)
  by fastforce

end
