(* ===== verification/Blocks.thy ===== *)
theory Blocks
  imports Accounting
begin

section \<open>Transactions and blocks: the main theorems of execution\<close>

text \<open>
  The properties of message calls, transactions and blocks, from the lemmas of theories
  \<open>Execution\<close> and \<open>Accounting\<close>.
\<close>

subsection \<open>Writing into a block\<close>

lemma obind_case_sum:
  "obind m (\<lambda>r. case r of Inl e \<Rightarrow> f e | Inr x \<Rightarrow> g x) = Val b \<longleftrightarrow>
     (\<exists>e. m = Val (Inl e) \<and> f e = Val b) \<or> (\<exists>x. m = Val (Inr x) \<and> g x = Val b)"
  "obind m' (\<lambda>(r, t). case r of Inl e \<Rightarrow> f' e t | Inr x \<Rightarrow> g' x t) = Val b \<longleftrightarrow>
     (\<exists>e t. m' = Val (Inl e, t) \<and> f' e t = Val b) \<or> (\<exists>x t. m' = Val (Inr x, t) \<and> g' x t = Val b)"
  by (auto simp: obind_eq_Val) (metis (mono_tags, lifting) obj_sumE sum.simps(5,6))+

lemma with_sender_Inr:
  assumes "with_sender E t txn = Val (Inr txn')"
  shows "\<exists>from. txn' = txn\<lparr>t_From := from\<rparr>"
  using assms by (auto simp: with_sender_def obind_case_sum split: if_splits intro: exI [of _ "t_From txn"])

lemma with_sender_fuel: "with_sender E t txn \<noteq> NoFuel"
  by (auto simp: with_sender_def obind_eq_NoFuel split: sum.split)

lemma Logs_views:
  assumes "laws E"
  shows "getStateObject E (snd (Logs E s)) a = getStateObject E s a"
  by (auto simp: Logs_def getStateObject_def view_simps assms tree_delete_def laws_simps [OF assms] split: option.splits cong: option.case_cong)

lemma Logs_same: "tx_snapshot (snd (Logs E s)) = tx_snapshot s"
  by (simp add: Logs_def split: option.split)

lemma supply_Logs: "laws E \<Longrightarrow> total_supply E (snd (Logs E s)) = total_supply E s"
  by (rule supply_same) (simp add: Txn_GetBalance_def Logs_views)

text \<open>What one transaction adds to the block: a receipt, and its gas.\<close>

definition adds_receipt :: "('s, 't, 'c) tenv \<Rightarrow> ('t, 'c) Transition \<Rightarrow> ('t, 'c) Transition \<Rightarrow> Receipt \<Rightarrow> bool" where
  "adds_receipt E t t' rc \<longleftrightarrow> tr_receipts t' = tr_receipts t @ [rc] \<and>
     rc_CumulativeGasUsed rc = tr_totalGas t' \<and> tr_totalGas t' = tr_totalGas t + rc_GasUsed rc \<and>
     unat (tr_gasPool t') + unat (rc_GasUsed rc) = unat (tr_gasPool t) \<and> ctx_ok E t' \<and>
     (laws E \<longrightarrow> total_supply E (tr_state t') \<le> total_supply E (tr_state t))"

lemma receipt_simps [simp]:
  "rc_GasUsed (created_address E msg rc) = rc_GasUsed rc" "rc_CumulativeGasUsed (created_address E msg rc) = rc_CumulativeGasUsed rc"
  "rc_GasUsed (set_bloom E rc) = rc_GasUsed rc" "rc_CumulativeGasUsed (set_bloom E rc) = rc_CumulativeGasUsed rc"
  "rc_GasUsed (SetStatus rc st) = rc_GasUsed rc" "rc_CumulativeGasUsed (SetStatus rc st) = rc_CumulativeGasUsed rc"
  "rc_GasUsed (new_receipt g h u) = u" "rc_CumulativeGasUsed (new_receipt g h u) = g"
  by (simp_all add: created_address_def set_bloom_def SetStatus_def SetContractAddress_def new_receipt_def)

lemma WriteFailedReceipt_adds:
  assumes "WriteFailedReceipt E t txn = Val (None, t')" and "ctx_ok E t"
  shows "\<exists>rc. adds_receipt E t t' rc"
proof -
  obtain r where r: "with_sender E t txn = Val r" using assms(1) by (auto simp: WriteFailedReceipt_def obind_eq_Val)
  then show ?thesis
    using assms supply_Logs [of E "tr_state t"]
    by (cases r) (auto simp: WriteFailedReceipt_def adds_receipt_def case_prod_beta Let_def ctx_ok_def)
qed

lemma Write_adds:
  assumes "Write E t txn = Val (None, t')" and "e_PostHook E = None" and "ctx_ok E t"
    and "0 \<le> t_GasPrice txn" and "0 \<le> t_Value txn"
  shows "\<exists>rc. adds_receipt E t t' rc"
proof -
  obtain txn' where s: "with_sender E t txn = Val (Inr txn')"
    using assms(1) by (auto simp: Write_def obind_case_sum)
  let ?msg = "Transaction_Copy txn'"
  have msg: "0 \<le> t_GasPrice ?msg" "0 \<le> t_Value ?msg"
    using with_sender_Inr [OF s] assms(4,5) by (auto simp: Transaction_Copy_def)
  obtain r t1 where ap: "Apply E t ?msg = Val (Inr r, t1)"
    using assms(1) s by (auto simp: Write_def obind_case_sum Let_def)
  note eff = Apply_effect [OF ap assms(2,3) msg]
  obtain s1 rc where cl: "CleanDeleteObjects E (snd (Logs E (tr_state t1))) True = Some s1"
    and t': "t' = t1\<lparr>tr_totalGas := tr_totalGas t1 + r_GasUsed r, tr_state := s1, tr_receipts := tr_receipts t1 @ [rc]\<rparr>"
    and rc: "rc_GasUsed rc = r_GasUsed r" "rc_CumulativeGasUsed rc = tr_totalGas t1 + r_GasUsed r"
    using assms(1) s ap by (auto simp: Write_def obind_eq_Val case_prod_beta Let_def)
  have "laws E \<Longrightarrow> total_supply E s1 \<le> total_supply E (tr_state t)"
    using supply_CleanDeleteObjects [OF _ cl] supply_Logs [of E "tr_state t1"] eff(11) by fastforce
  then show ?thesis using eff rc by (auto simp: adds_receipt_def t' ctx_ok_def)
qed

subsection \<open>Blocks\<close>

definition gas_used :: "Receipt list \<Rightarrow> nat" where
  "gas_used rcs = sum_list (map (\<lambda>rc. unat (rc_GasUsed rc)) rcs)"

lemma gas_used_append [simp]: "gas_used (rcs @ [rc]) = gas_used rcs + unat (rc_GasUsed rc)"
  by (simp add: gas_used_def)

definition block_ok :: "uint64 \<Rightarrow> ('t, 'c) Transition \<Rightarrow> bool" where
  "block_ok limit t \<longleftrightarrow> unat (tr_totalGas t) + unat (tr_gasPool t) = unat limit \<and>
     gas_used (tr_receipts t) = unat (tr_totalGas t) \<and>
     (\<forall>i < length (tr_receipts t). unat (rc_CumulativeGasUsed (tr_receipts t ! i)) = gas_used (take (Suc i) (tr_receipts t)))"

lemma adds_receipt_block_ok:
  assumes "adds_receipt E t t' rc" and "block_ok limit t"
  shows "block_ok limit t'"
proof -
  have "unat (tr_totalGas t) + unat (rc_GasUsed rc) < 2 ^ 64"
    using assms unat_uint64_less [of limit] by (auto simp: adds_receipt_def block_ok_def)
  then have "unat (tr_totalGas t') = unat (tr_totalGas t) + unat (rc_GasUsed rc)"
    using assms(1) by (simp add: adds_receipt_def unat_add_lem [THEN iffD1])
  then show ?thesis
    using assms by (auto simp: adds_receipt_def block_ok_def nth_append less_Suc_eq)
qed

lemma write_all_ok:
  assumes "write_all E limit txs t = Val (Inr t')" and "e_PostHook E = None" and "ctx_ok E t" and "block_ok gl t"
    and "\<forall>tx \<in> set txs. 0 \<le> t_GasPrice tx \<and> 0 \<le> t_Value tx"
  shows "block_ok gl t' \<and> length (tr_receipts t') = length (tr_receipts t) + length txs \<and>
    (laws E \<longrightarrow> total_supply E (tr_state t') \<le> total_supply E (tr_state t))"
  using assms(1,3-)
proof (induction txs arbitrary: t)
  case (Cons tx txs)
  obtain e t1 where first: "(if ExceedsBlockGasLimit tx limit then WriteFailedReceipt E t tx else Write E t tx) = Val (e, t1)"
    using Cons.prems(1) by (auto simp: obind_eq_Val)
  then have e: "e = None" and rest: "write_all E limit txs t1 = Val (Inr t')"
    using Cons.prems(1) by (cases e; simp)+
  obtain rc where rc: "adds_receipt E t t1 rc"
    using first e WriteFailedReceipt_adds [of E t tx t1] Write_adds [of E t tx t1] Cons.prems assms(2) by (auto split: if_splits)
  have "ctx_ok E t1" using rc by (simp add: adds_receipt_def)
  from Cons.IH [OF rest this adds_receipt_block_ok [OF rc Cons.prems(3)]] Cons.prems(4) rc show ?case
    by (auto simp: adds_receipt_def)
qed simp

lemma Write_fuel:
  assumes "EIP150 (e_config E)"
  shows "Write E t tx \<noteq> NoFuel" and "WriteFailedReceipt E t tx \<noteq> NoFuel"
proof -
  have ta: "Transition_apply E t msg \<noteq> NoFuel" for t msg
    unfolding Transition_apply_def
    by (auto simp: Let_def obind_eq_NoFuel execute_msg_fuel [OF assms] split: option.split prod.split)
  have ap: "Apply E t msg \<noteq> NoFuel" for t msg
    by (auto simp: Apply_def Snapshot_def obind_eq_NoFuel ta revert_state_fuel split: sum.split)
  show "Write E t tx \<noteq> NoFuel" and "WriteFailedReceipt E t tx \<noteq> NoFuel"
    by (auto simp: Write_def WriteFailedReceipt_def obind_eq_NoFuel with_sender_fuel ap Let_def case_prod_beta split: sum.split)
qed

lemma write_all_fuel:
  assumes "EIP150 (e_config E)"
  shows "write_all E limit txs t \<noteq> NoFuel"
  by (induction txs arbitrary: t) (auto simp: obind_eq_NoFuel Write_fuel [OF assms] split: option.split)

lemma sint_nonneg: "x < 2 ^ 63 \<Longrightarrow> 0 \<le> sint (x :: uint64)"
  by (simp add: word_less_def sint_uint bit_iff_odd div_pos_pos_trivial)

lemma supply_env: "total_supply (E\<lparr>e_config := c, e_getHash := h\<rparr>) s = total_supply E s"
  by (simp add: total_supply_def Txn_GetBalance_def getStateObject_def cong: option.case_cong)

lemma BeginTxn_Some:
  assumes "BeginTxn X root header creator = Some (E, t)" and "Forks_active (f_EIP150 (ex_Forks X)) (hd_Number header)"
    and "hd_Number header < 2 ^ 63" and "hd_Timestamp header < 2 ^ 63" and "hd_GasLimit header < 2 ^ 63"
  shows "ctx_ok E t" and "block_ok (hd_GasLimit header) t" and "tr_receipts t = []"
    and "E = (ex_env X)\<lparr>e_config := Forks_At (ex_Forks X) (hd_Number header), e_getHash := ex_GetHash X header\<rparr>"
    and "\<exists>snap. st_NewSnapshotAt (ex_state X) root = Some snap \<and> tr_state t = newTxn (ex_env X) snap"
  using assms by (auto simp: BeginTxn_def Let_def ctx_ok_def Forks_At_def block_ok_def gas_used_def sint_nonneg newTxn_def)

text \<open>
  C5. The gas of a block adds up. When a block is processed without error, it has one receipt for each
  transaction; the gas the receipts report, the total gas of the block and what is left in the
  pool agree with the gas limit of the header; and each receipt carries the sum of the gas up to it.
\<close>

theorem ProcessBlock_gas:
  assumes "ProcessBlock X root block creator = Val (Inr t)" and "e_PostHook (ex_env X) = None"
    and "Forks_active (f_EIP150 (ex_Forks X)) (hd_Number (b_Header block))"
    and "hd_Number (b_Header block) < 2 ^ 63" and "hd_Timestamp (b_Header block) < 2 ^ 63" and "hd_GasLimit (b_Header block) < 2 ^ 63"
    and "\<forall>tx \<in> set (b_Transactions block). 0 \<le> t_GasPrice tx \<and> 0 \<le> t_Value tx"
  shows "length (tr_receipts t) = length (b_Transactions block) \<and>
    unat (tr_totalGas t) + unat (tr_gasPool t) = unat (hd_GasLimit (b_Header block)) \<and>
    sum_list (map (\<lambda>rc. unat (rc_GasUsed rc)) (tr_receipts t)) = unat (tr_totalGas t) \<and>
    (\<forall>i < length (tr_receipts t). unat (rc_CumulativeGasUsed (tr_receipts t ! i)) =
       sum_list (map (\<lambda>rc. unat (rc_GasUsed rc)) (take (Suc i) (tr_receipts t))))"
proof -
  obtain E t0 where begin_txn: "BeginTxn X root (b_Header block) creator = Some (E, t0)"
    and all: "write_all E (hd_GasLimit (b_Header block)) (b_Transactions block) t0 = Val (Inr t)"
    using assms(1) by (auto simp: ProcessBlock_def obind_case_sum split: option.splits)
  note t0 = BeginTxn_Some [OF begin_txn assms(3-6)]
  have "e_PostHook E = None" using assms(2) t0(4) by simp
  from write_all_ok [OF all this t0(1,2) assms(7)] t0(3) show ?thesis
    by (simp add: block_ok_def gas_used_def)
qed

text \<open>
  C1. No block creates money: the sum of all balances after a block is at most what it was in the parent state,
  fees, refunds, value transfers, creations and self-destructs of all nested executions included. The conditions: the
  \<open>EIP150\<close> fork is active, no \<open>PostHook\<close> is set, number, timestamp and gas limit of the header are below 2 to the 63, where
  their conversion to signed integers is exact, and no price or value is negative.
\<close>

theorem ProcessBlock_supply:
  assumes "ProcessBlock X root block creator = Val (Inr t)" and "e_PostHook (ex_env X) = None" and "laws (ex_env X)"
    and "Forks_active (f_EIP150 (ex_Forks X)) (hd_Number (b_Header block))"
    and "hd_Number (b_Header block) < 2 ^ 63" and "hd_Timestamp (b_Header block) < 2 ^ 63" and "hd_GasLimit (b_Header block) < 2 ^ 63"
    and "\<forall>tx \<in> set (b_Transactions block). 0 \<le> t_GasPrice tx \<and> 0 \<le> t_Value tx"
  shows "\<exists>snap. st_NewSnapshotAt (ex_state X) root = Some snap \<and>
    (\<Sum>a \<in> UNIV. Txn_GetBalance (ex_env X) (tr_state t) a) \<le> (\<Sum>a \<in> UNIV. Txn_GetBalance (ex_env X) (newTxn (ex_env X) snap) a)"
proof -
  obtain E t0 where begin_txn: "BeginTxn X root (b_Header block) creator = Some (E, t0)"
    and all: "write_all E (hd_GasLimit (b_Header block)) (b_Transactions block) t0 = Val (Inr t)"
    using assms(1) by (auto simp: ProcessBlock_def obind_case_sum split: option.splits)
  note t0 = BeginTxn_Some [OF begin_txn assms(4-7)]
  have "e_PostHook E = None" "laws E" using assms(2,3) t0(4) by (simp_all add: laws_def)
  from write_all_ok [OF all this(1) t0(1,2) assms(8)] this(2) t0(4,5) show ?thesis
    by (auto simp: supply_env simp flip: total_supply_def)
qed

text \<open>
  C2. On a chain with the \<open>EIP150\<close> fork, processing a block always ends: no contract runs for ever and no chain of calls nests
  for ever, whatever the transactions. Before that fork the gas for a call can wrap, so gas alone does not bound a run.
  1025 levels of calls and one step of the machine per unit of gas, and two more, are enough.
\<close>

theorem ProcessBlock_terminates:
  assumes "Forks_active (f_EIP150 (ex_Forks X)) (hd_Number (b_Header block))"
  shows "ProcessBlock X root block creator \<noteq> NoFuel"
proof (cases "BeginTxn X root (b_Header block) creator")
  case (Some p)
  obtain E t where p: "p = (E, t)" by (cases p)
  have "EIP150 (e_config E)" using Some assms by (auto simp: p BeginTxn_def Let_def Forks_At_def)
  from write_all_fuel [OF this] show ?thesis
    by (auto simp: ProcessBlock_def Some p obind_eq_NoFuel split: sum.split)
qed (simp add: ProcessBlock_def)

subsection \<open>Transactions\<close>

text \<open>
  C6. The gas of a transaction is conserved: gas used and gas left are the gas limit of the
  transaction, the pool of the block falls by exactly the gas used, and at least 10500 gas, half of the base
  cost of a transaction that creates no contract, is used up, however large the refund counter.
\<close>

theorem Apply_gas:
  assumes "Apply E t msg = Val (Inr r, t')" and "e_PostHook E = None" and "ctx_ok E t"
    and "0 \<le> t_GasPrice msg" and "0 \<le> t_Value msg"
  shows "unat (r_GasUsed r) + unat (r_GasLeft r) = unat (t_Gas msg) \<and>
    unat (tr_gasPool t') + unat (r_GasUsed r) = unat (tr_gasPool t) \<and> 10500 \<le> unat (r_GasUsed r)"
  using Apply_effect(1,2,4) [OF assms] by simp

subsection \<open>Message calls\<close>

text \<open>
  C4. A failed message call is undone. Whether it ran out of gas, reverted, hit the depth limit or could not pay,
  and whatever the calls it made had done, afterwards every balance, nonce and storage slot, the
  logs and the refund counter are as before the call.
\<close>

theorem applyCall_failed_restores:
  assumes "laws E" and "empty_storage (tx_snapshot (tr_state t))" and "ctx_ok E t" and "value_ok m"
    and "applyCall E (host E (callx n E)) t m kind = Val (r, t')" and "Failed r"
  shows "same_view E (tr_state t) (tr_state t')"
  using assms by (rule applyCall_failed)

text \<open>
  C3. A static call is static: code that runs with the static flag, and all code it calls in turn, changes no
  balance, no nonce, no storage slot, no log and not the refund counter, whether it fails or succeeds. The outermost call is
  one of the types that transfer no value, as \<^verbatim>\<open>STATICCALL\<close> makes it; the calls below it are arbitrary.
\<close>

theorem static_call_changes_nothing:
  assumes "laws E" and "empty_storage (tx_snapshot (tr_state t))" and "ctx_ok E t" and "value_ok m"
    and "c_Static m" and "c_Type m \<in> {CallCode, DelegateCall, StaticCall}"
    and "Transition_Callx E (host E (callx n E)) t m = Val (r, t')"
  shows "same_view E (tr_state t) (tr_state t')"
proof -
  have "child True m" using assms(4-6) by (auto simp: child_def)
  from static_world.Transition_Callx_keeps [OF static_world.callx_ok_all assms(7) this] assms(1-3)
  show ?thesis by (simp add: keeps_def static_rel_def)
qed

subsection \<open>A concrete block\<close>

definition plain_header :: Header where
  "plain_header = \<lparr>hd_ParentHash = 0, hd_Sha3Uncles = 0, hd_Miner = [], hd_StateRoot = 0, hd_TxRoot = 0, hd_ReceiptsRoot = 0,
     hd_LogsBloom = [], hd_Difficulty = 0, hd_Number = 5, hd_GasLimit = 100000, hd_GasUsed = 0, hd_Timestamp = 7,
     hd_ExtraData = [], hd_MixHash = 0, hd_Nonce = 0, hd_Hash = 1\<rparr>"

definition plain_block :: Block where
  "plain_block = \<lparr>b_Header = plain_header, b_Transactions = [plain_msg 1 30000 40], b_Uncles = []\<rparr>"

definition plain_executor ::
    "precompiled_lib \<Rightarrow> (plain_storage, (bytes, plain_storage entry) alist, (Address \<times> bytes) list) Executor" where
  "plain_executor C = \<lparr>ex_Forks = AllForksEnabled, ex_ChainID = 100,
     ex_state = \<lparr>st_NewSnapshotAt = (\<lambda>_. Some plain_snapshot), st_NewSnapshot = plain_snapshot, st_Commit = (\<lambda>s _. (s, []))\<rparr>,
     ex_GetHash = (\<lambda>_ _. 0), ex_env = plain_tenv C\<rparr>"

lemma plain_header_simps [simp]:
  "hd_Number plain_header = 5" "hd_GasLimit plain_header = 100000" "hd_Timestamp plain_header = 7"
  by (simp_all add: plain_header_def)

lemma plain_BeginTxn: "BeginTxn (plain_executor C) root plain_header 9 = Some (plain_tenv C, plain_transition)"
  by (simp add: BeginTxn_def plain_executor_def plain_header_def plain_tenv_def plain_transition_def plain_txn_def newTxn_def
      plain_env_def Forks_At_def Forks_active_def Fork_Active_def AllForksEnabled_def all_forks_def Forks_At_AllForksEnabled Bytes_def BytesToHash_def nat_Bytes.simps nat_SetBytes_def sint_uint)

lemma plain_Apply: "\<exists>r t'. Apply (plain_tenv C) plain_transition (plain_msg 1 30000 40) = Val (Inr r, t')"
  using plain_transfer [OF laws_plain_tenv [of C], where msg = "plain_msg 1 30000 40" and t = plain_transition and a = 256 and g = 21000]
  by (simp add: plain_msg_gas plain_views Cost_def contracts_def) blast

lemma plain_Write: "\<exists>t'. Write (plain_tenv C) plain_transition (plain_msg 1 30000 40) = Val (None, t')"
proof -
  have copy: "Transaction_Copy (plain_msg 1 30000 40) = plain_msg 1 30000 40" by (simp add: Transaction_Copy_def plain_msg_def)
  obtain r t' where ap: "Apply (plain_tenv C) plain_transition (plain_msg 1 30000 40) = Val (Inr r, t')"
    using plain_Apply by blast
  obtain s' where "CleanDeleteObjects (plain_tenv C) (snd (Logs (plain_tenv C) (tr_state t'))) True = Some s'"
    using CleanDeleteObjects_Some [OF laws_plain_tenv] by blast
  then show ?thesis
    by (simp add: Write_def with_sender_def copy ap Let_def case_prod_beta)
qed

lemma plain_ProcessBlock: "\<exists>t. ProcessBlock (plain_executor C) 0 plain_block 9 = Val (Inr t)"
  using plain_Write [of C]
  by (auto simp: ProcessBlock_def plain_block_def plain_BeginTxn ExceedsBlockGasLimit_def)

lemma plain_executor_simps:
  "ex_env (plain_executor C) = plain_tenv C" "Forks_active (f_EIP150 (ex_Forks (plain_executor C))) n"
  "b_Header plain_block = plain_header" "b_Transactions plain_block = [plain_msg 1 30000 40]" "ctx_ok (plain_tenv C) plain_transition"
  by (simp_all add: plain_executor_def AllForksEnabled_def Forks_active_def Fork_Active_def plain_block_def
      ctx_ok_def plain_transition_def all_forks_def Forks_At_def)

theorem ProcessBlock_gas_witness:
  "\<forall>C. \<exists>t. ProcessBlock (plain_executor C) 0 plain_block 9 = Val (Inr t) \<and> length (tr_receipts t) = 1 \<and>
     unat (tr_totalGas t) + unat (tr_gasPool t) = 100000"
proof
  fix C
  obtain t where t: "ProcessBlock (plain_executor C) 0 plain_block 9 = Val (Inr t)" using plain_ProcessBlock by blast
  from ProcessBlock_gas [OF t] t show "\<exists>t. ProcessBlock (plain_executor C) 0 plain_block 9 = Val (Inr t) \<and> length (tr_receipts t) = 1 \<and>
     unat (tr_totalGas t) + unat (tr_gasPool t) = 100000"
    by (simp add: plain_executor_simps)
qed

theorem ProcessBlock_supply_witness:
  "\<forall>C. \<exists>t. ProcessBlock (plain_executor C) 0 plain_block 9 = Val (Inr t) \<and>
     (\<Sum>a \<in> UNIV. Txn_GetBalance (plain_tenv C) (tr_state t) a) \<le> (\<Sum>a \<in> UNIV. Txn_GetBalance (plain_tenv C) (newTxn (plain_tenv C) plain_snapshot) a)"
proof
  fix C
  obtain t where t: "ProcessBlock (plain_executor C) 0 plain_block 9 = Val (Inr t)" using plain_ProcessBlock by blast
  have "st_NewSnapshotAt (ex_state (plain_executor C)) 0 = Some plain_snapshot" by (simp add: plain_executor_def)
  with ProcessBlock_supply [OF t] t show "\<exists>t. ProcessBlock (plain_executor C) 0 plain_block 9 = Val (Inr t) \<and>
     (\<Sum>a \<in> UNIV. Txn_GetBalance (plain_tenv C) (tr_state t) a) \<le> (\<Sum>a \<in> UNIV. Txn_GetBalance (plain_tenv C) (newTxn (plain_tenv C) plain_snapshot) a)"
    by (simp add: plain_executor_simps laws_plain_tenv)
qed

theorem ProcessBlock_terminates_witness: "\<forall>C. ProcessBlock (plain_executor C) 0 plain_block 9 \<noteq> NoFuel"
  using ProcessBlock_terminates [of "plain_executor C" plain_block for C] by (simp add: plain_executor_simps)

theorem Apply_gas_witness:
  "\<forall>C. \<exists>r t'. Apply (plain_tenv C) plain_transition (plain_msg 1 30000 40) = Val (Inr r, t') \<and>
     unat (r_GasUsed r) + unat (r_GasLeft r) = 30000 \<and> unat (tr_gasPool t') + unat (r_GasUsed r) = 100000"
proof
  fix C
  obtain r t' where r: "Apply (plain_tenv C) plain_transition (plain_msg 1 30000 40) = Val (Inr r, t')" using plain_Apply by blast
  from Apply_gas [OF r] r show "\<exists>r t'. Apply (plain_tenv C) plain_transition (plain_msg 1 30000 40) = Val (Inr r, t') \<and>
     unat (r_GasUsed r) + unat (r_GasLeft r) = 30000 \<and> unat (tr_gasPool t') + unat (r_GasUsed r) = 100000"
    by (simp add: plain_executor_simps)
qed

text \<open>A call of account 1 that it cannot pay for, and a static call of an account without code.\<close>

definition plain_call :: "CallType \<Rightarrow> bool \<Rightarrow> int \<Rightarrow> Contract" where
  "plain_call kind static v = (NewContractCall 2 1 1 256 (Some v) 1000 [] [])\<lparr>c_Type := kind, c_Static := static\<rparr>"

lemma plain_call_simps [simp]:
  "value_ok (plain_call kind static v) \<longleftrightarrow> 0 \<le> v" "c_Static (plain_call kind static v) = static" "c_Type (plain_call kind static v) = kind"
  by (simp_all add: plain_call_def NewContract_defs value_ok_def)

lemma plain_call_unpaid:
  "\<exists>t'. applyCall (plain_tenv C) H plain_transition (plain_call Call False 1000) Call = Val (failure 1000 ErrInsufficientBalance, t')"
  by (simp add: applyCall_def plain_call_def NewContract_defs case_prod_beta Let_def transfer_def SubBalance_def
      GetBalance_other_ops [OF laws_plain_tenv] plain_views)

theorem applyCall_failed_restores_witness:
  "\<forall>C. \<exists>r t'. applyCall (plain_tenv C) (host (plain_tenv C) (callx 3 (plain_tenv C))) plain_transition (plain_call Call False 1000) Call = Val (r, t') \<and>
     same_view (plain_tenv C) plain_txn (tr_state t')"
proof
  fix C
  obtain t' where t': "applyCall (plain_tenv C) (host (plain_tenv C) (callx 3 (plain_tenv C))) plain_transition (plain_call Call False 1000) Call
      = Val (failure 1000 ErrInsufficientBalance, t')"
    using plain_call_unpaid by blast
  from applyCall_failed_restores [OF laws_plain_tenv _ plain_executor_simps(5) _ t'] t'
  show "\<exists>r t'. applyCall (plain_tenv C) (host (plain_tenv C) (callx 3 (plain_tenv C))) plain_transition (plain_call Call False 1000) Call = Val (r, t') \<and>
     same_view (plain_tenv C) plain_txn (tr_state t')"
    by (simp add: empty_storage_plain Failed_def failure_def)
qed

lemma plain_call_static: "\<exists>r t'. Transition_Callx (plain_tenv C) H plain_transition (plain_call StaticCall True 0) = Val (r, t')"
  by (simp add: Transition_Callx_def applyCall_def plain_call_def NewContract_defs case_prod_beta Let_def finish_applyCall_def
      Transition_run_def Precompiled_CanRun_def contracts_def EVM_Run_empty Failed_def)

theorem static_call_changes_nothing_witness:
  "\<forall>C. \<exists>r t'. Transition_Callx (plain_tenv C) (host (plain_tenv C) (callx 3 (plain_tenv C))) plain_transition (plain_call StaticCall True 0) = Val (r, t') \<and>
     same_view (plain_tenv C) plain_txn (tr_state t')"
proof
  fix C
  obtain r t' where t': "Transition_Callx (plain_tenv C) (host (plain_tenv C) (callx 3 (plain_tenv C))) plain_transition (plain_call StaticCall True 0) = Val (r, t')"
    using plain_call_static by blast
  from static_call_changes_nothing [OF laws_plain_tenv _ plain_executor_simps(5) _ _ _ t'] t'
  show "\<exists>r t'. Transition_Callx (plain_tenv C) (host (plain_tenv C) (callx 3 (plain_tenv C))) plain_transition (plain_call StaticCall True 0) = Val (r, t') \<and>
     same_view (plain_tenv C) plain_txn (tr_state t')"
    by (simp add: empty_storage_plain)
qed

end
