(* ===== verification/Blake2.thy ===== *)
theory Blake2
  imports Precompiled
begin

section \<open>The BLAKE2 contract computes the function of the standard\<close>

text \<open>
  RFC 7693 defines the compression function by a mixing function on four of sixteen words and a
  table of permutations; EIP-152 makes the number of rounds an input. The sources unroll a round
  over sixteen variables, interleave the four mixings of a step and use a table with the
  permutations rearranged accordingly. This theory holds the function of the standard and shows
  that the contract computes it.
\<close>

unbundle bit_operations_syntax

subsection \<open>The standard\<close>

definition rotr64 :: "uint64 \<Rightarrow> nat \<Rightarrow> uint64" where "rotr64 x n = word_rotr n x"

definition blake_mix :: "uint64 list \<Rightarrow> nat \<Rightarrow> nat \<Rightarrow> nat \<Rightarrow> nat \<Rightarrow> uint64 \<Rightarrow> nat \<Rightarrow> nat \<Rightarrow> uint64 list" where
  "blake_mix v a b c d x r r' =
     (let v = v[a := v ! a + v ! b + x];
          v = v[d := rotr64 (v ! d XOR v ! a) r];
          v = v[c := v ! c + v ! d];
          v = v[b := rotr64 (v ! b XOR v ! c) r']
      in v)"

definition blake_G :: "uint64 list \<Rightarrow> nat \<Rightarrow> nat \<Rightarrow> nat \<Rightarrow> nat \<Rightarrow> uint64 \<Rightarrow> uint64 \<Rightarrow> uint64 list" where
  "blake_G v a b c d x y = blake_mix (blake_mix v a b c d x 32 24) a b c d y 16 63"

definition blake_round :: "uint64 list \<Rightarrow> nat list \<Rightarrow> uint64 list \<Rightarrow> uint64 list" where
  "blake_round m s v =
     (let v = blake_G v 0 4 8 12 (m ! (s ! 0)) (m ! (s ! 1));
          v = blake_G v 1 5 9 13 (m ! (s ! 2)) (m ! (s ! 3));
          v = blake_G v 2 6 10 14 (m ! (s ! 4)) (m ! (s ! 5));
          v = blake_G v 3 7 11 15 (m ! (s ! 6)) (m ! (s ! 7));
          v = blake_G v 0 5 10 15 (m ! (s ! 8)) (m ! (s ! 9));
          v = blake_G v 1 6 11 12 (m ! (s ! 10)) (m ! (s ! 11));
          v = blake_G v 2 7 8 13 (m ! (s ! 12)) (m ! (s ! 13))
      in blake_G v 3 4 9 14 (m ! (s ! 14)) (m ! (s ! 15)))"

definition blake_sigma :: "nat list list" where
  "blake_sigma = [
     [0, 1, 2, 3, 4, 5, 6, 7, 8, 9, 10, 11, 12, 13, 14, 15],
     [14, 10, 4, 8, 9, 15, 13, 6, 1, 12, 0, 2, 11, 7, 5, 3],
     [11, 8, 12, 0, 5, 2, 15, 13, 10, 14, 3, 6, 7, 1, 9, 4],
     [7, 9, 3, 1, 13, 12, 11, 14, 2, 6, 5, 10, 4, 0, 15, 8],
     [9, 0, 5, 7, 2, 4, 10, 15, 14, 1, 11, 12, 6, 8, 3, 13],
     [2, 12, 6, 10, 0, 11, 8, 3, 4, 13, 7, 5, 15, 14, 1, 9],
     [12, 5, 1, 15, 14, 13, 4, 10, 0, 7, 6, 3, 9, 2, 8, 11],
     [13, 11, 7, 14, 12, 1, 3, 9, 5, 0, 15, 4, 8, 6, 2, 10],
     [6, 15, 14, 9, 11, 3, 0, 8, 12, 2, 13, 7, 1, 4, 10, 5],
     [10, 2, 8, 4, 7, 6, 1, 5, 15, 11, 9, 14, 3, 12, 13, 0]]"

primrec blake_rounds :: "uint64 list \<Rightarrow> nat \<Rightarrow> uint64 list \<Rightarrow> uint64 list" where
  "blake_rounds m 0 v = v"
| "blake_rounds m (Suc n) v = blake_round m (blake_sigma ! (n mod 10)) (blake_rounds m n v)"

text \<open>The initialisation vector: the first 64 bits of the fractional parts of the square roots of the first eight primes.\<close>

definition blake_IV :: "uint64 list" where
  "blake_IV = [0x6a09e667f3bcc908, 0xbb67ae8584caa73b, 0x3c6ef372fe94f82b, 0xa54ff53a5f1d36f1,
     0x510e527fade682d1, 0x9b05688c2b3e6c1f, 0x1f83d9abfb41bd6b, 0x5be0cd19137e2179]"

lemma blake_IV_roots:
  "list_all2 (\<lambda>(p, root) w. let x = root * 2 ^ 64 + uint w in x ^ 2 \<le> p * 2 ^ 128 \<and> p * 2 ^ 128 < (x + 1) ^ 2)
     [(2, 1), (3, 1), (5, 2), (7, 2), (11, 3), (13, 3), (17, 4), (19, 4)] blake_IV"
  by (simp add: blake_IV_def Let_def)

definition blake2_F :: "uint64 list \<Rightarrow> uint64 list \<Rightarrow> uint64 \<Rightarrow> uint64 \<Rightarrow> bool \<Rightarrow> nat \<Rightarrow> uint64 list" where
  "blake2_F h m t0 t1 f rounds =
     (let v = h @ blake_IV;
          v = v[12 := v ! 12 XOR t0];
          v = v[13 := v ! 13 XOR t1];
          v = (if f then v[14 := NOT (v ! 14)] else v);
          v = blake_rounds m rounds v
      in map (\<lambda>i. h ! i XOR v ! i XOR v ! (i + 8)) [0..<8])"

subsection \<open>A round\<close>

definition list_of_vars :: "blake_vars \<Rightarrow> uint64 list" where
  "list_of_vars vs = (let (v0, v1, v2, v3, v4, v5, v6, v7, v8, v9, v10, v11, v12, v13, v14, v15) = vs
     in [v0, v1, v2, v3, v4, v5, v6, v7, v8, v9, v10, v11, v12, v13, v14, v15])"

definition half :: "uint64 \<Rightarrow> uint64 \<Rightarrow> uint64 \<Rightarrow> uint64 \<Rightarrow> uint64 \<Rightarrow> int \<Rightarrow> int \<Rightarrow> (uint64 \<times> uint64 \<times> uint64 \<times> uint64)" where
  "half a b c d x r1 r2 = (let a = a + x; a = a + b; d = d XOR a; d = RotateLeft64 d (- r1); c = c + d; b = b XOR c; b = RotateLeft64 b (- r2) in (a, b, c, d))"

lemma rotl: "RotateLeft64 x (- 32) = rotr64 x 32" "RotateLeft64 x (- 24) = rotr64 x 24" "RotateLeft64 x (- 16) = rotr64 x 16" "RotateLeft64 x (- 63) = rotr64 x 63"
  by (simp_all add: RotateLeft64_def rotr64_def word_rotl_eq_word_rotr)


lemma blake_mix_half:
  assumes "distinct [a, b, c, d]" and "a < length v" "b < length v" "c < length v" "d < length v"
    and "half (v ! a) (v ! b) (v ! c) (v ! d) x (int r) (int r') = (va, vb, vc, vd)" and "(r, r') \<in> {(32, 24), (16, 63)}"
  shows "blake_mix v a b c d x r r' = v[a := va, b := vb, c := vc, d := vd]"
proof -
  have v: "v ! a + v ! b + x = va" "rotr64 (v ! d XOR va) r = vd" "v ! c + vd = vc" "rotr64 (v ! b XOR vc) r' = vb"
    using assms(6,7) by (auto simp: half_def Let_def rotl add.commute add.left_commute)
  have "blake_mix v a b c d x r r' = v[a := va, d := vd, c := vc, b := vb]"
    unfolding blake_mix_def using assms(1-5) by (simp add: Let_def v)
  then show ?thesis using assms(1) by (simp add: list_update_swap)
qed

lemma blake_G_half:
  assumes "distinct [a, b, c, d]" and "a < length v" "b < length v" "c < length v" "d < length v"
    and "half (v ! a) (v ! b) (v ! c) (v ! d) x 32 24 = (va, vb, vc, vd)" and "half va vb vc vd y 16 63 = (wa, wb, wc, wd)"
  shows "blake_G v a b c d x y = v[a := wa, b := wb, c := wc, d := wd]"
proof -
  have "blake_mix v a b c d x 32 24 = v[a := va, b := vb, c := vc, d := vd]"
    using assms(1-6) by (intro blake_mix_half) simp_all
  moreover have "blake_mix (v[a := va, b := vb, c := vc, d := vd]) a b c d y 16 63 =
      v[a := va, b := vb, c := vc, d := vd, a := wa, b := wb, c := wc, d := wd]"
    using assms(1-5,7) by (intro blake_mix_half) simp_all
  moreover have "v[a := va, b := vb, c := vc, d := vd, a := wa, b := wb, c := wc, d := wd] = v[a := wa, b := wb, c := wc, d := wd]"
  proof -
    have swap: "xs[j := y, i := x] = xs[i := x, j := y]" if "i \<noteq> j" for xs :: "uint64 list" and i j x y
      using that by (rule list_update_swap [symmetric])
    have "v[a := va, b := vb, c := vc, d := vd, a := wa, b := wb, c := wc, d := wd] = v[a := wa, b := vb, c := vc, d := vd, b := wb, c := wc, d := wd]"
      using assms(1) by (simp add: swap [of a d] swap [of a c] swap [of a b])
    also have "\<dots> = v[a := wa, b := wb, c := vc, d := vd, c := wc, d := wd]"
      using assms(1) by (simp add: swap [of b d] swap [of b c])
    also have "\<dots> = v[a := wa, b := wb, c := wc, d := wd]"
      using assms(1) by (simp add: swap [of c d])
    finally show ?thesis .
  qed
  ultimately show ?thesis by (simp add: blake_G_def)
qed

definition column_step :: "uint64 list \<Rightarrow> nat list \<Rightarrow> blake_vars \<Rightarrow> blake_vars" where
  "column_step m s vs = (let (v0, v1, v2, v3, v4, v5, v6, v7, v8, v9, v10, v11, v12, v13, v14, v15) = vs;
     (v0, v4, v8, v12) = half v0 v4 v8 v12 (m ! (s ! 0)) 32 24;
     (v1, v5, v9, v13) = half v1 v5 v9 v13 (m ! (s ! 1)) 32 24;
     (v2, v6, v10, v14) = half v2 v6 v10 v14 (m ! (s ! 2)) 32 24;
     (v3, v7, v11, v15) = half v3 v7 v11 v15 (m ! (s ! 3)) 32 24;
     (v0, v4, v8, v12) = half v0 v4 v8 v12 (m ! (s ! 4)) 16 63;
     (v1, v5, v9, v13) = half v1 v5 v9 v13 (m ! (s ! 5)) 16 63;
     (v2, v6, v10, v14) = half v2 v6 v10 v14 (m ! (s ! 6)) 16 63;
     (v3, v7, v11, v15) = half v3 v7 v11 v15 (m ! (s ! 7)) 16 63
     in (v0, v1, v2, v3, v4, v5, v6, v7, v8, v9, v10, v11, v12, v13, v14, v15))"

definition diagonal_step :: "uint64 list \<Rightarrow> nat list \<Rightarrow> blake_vars \<Rightarrow> blake_vars" where
  "diagonal_step m s vs = (let (v0, v1, v2, v3, v4, v5, v6, v7, v8, v9, v10, v11, v12, v13, v14, v15) = vs;
     (v0, v5, v10, v15) = half v0 v5 v10 v15 (m ! (s ! 8)) 32 24;
     (v1, v6, v11, v12) = half v1 v6 v11 v12 (m ! (s ! 9)) 32 24;
     (v2, v7, v8, v13) = half v2 v7 v8 v13 (m ! (s ! 10)) 32 24;
     (v3, v4, v9, v14) = half v3 v4 v9 v14 (m ! (s ! 11)) 32 24;
     (v0, v5, v10, v15) = half v0 v5 v10 v15 (m ! (s ! 12)) 16 63;
     (v1, v6, v11, v12) = half v1 v6 v11 v12 (m ! (s ! 13)) 16 63;
     (v2, v7, v8, v13) = half v2 v7 v8 v13 (m ! (s ! 14)) 16 63;
     (v3, v4, v9, v14) = half v3 v4 v9 v14 (m ! (s ! 15)) 16 63
     in (v0, v1, v2, v3, v4, v5, v6, v7, v8, v9, v10, v11, v12, v13, v14, v15))"

lemma F_round_steps: "F_round m s vs = diagonal_step m s (column_step m s vs)"
proof -
  obtain v0 v1 v2 v3 v4 v5 v6 v7 v8 v9 v10 v11 v12 v13 v14 v15
    where "vs = (v0, v1, v2, v3, v4, v5, v6, v7, v8, v9, v10, v11, v12, v13, v14, v15)" by (metis prod.collapse)
  then show ?thesis by (simp only: F_round_def diagonal_step_def column_step_def half_def Let_def prod.case)
qed

lemma column_step_G:
  assumes "s ! 0 = sg ! 0" and "s ! 4 = sg ! 1" and "s ! 1 = sg ! 2" and "s ! 5 = sg ! 3" and "s ! 2 = sg ! 4" and "s ! 6 = sg ! 5" and "s ! 3 = sg ! 6" and "s ! 7 = sg ! 7"
  shows "list_of_vars (column_step m s vs) = (let v = list_of_vars vs;
    v = blake_G v 0 4 8 12 (m ! (sg ! 0)) (m ! (sg ! 1));
    v = blake_G v 1 5 9 13 (m ! (sg ! 2)) (m ! (sg ! 3));
    v = blake_G v 2 6 10 14 (m ! (sg ! 4)) (m ! (sg ! 5))
    in blake_G v 3 7 11 15 (m ! (sg ! 6)) (m ! (sg ! 7)))"
proof -
  obtain v0 v1 v2 v3 v4 v5 v6 v7 v8 v9 v10 v11 v12 v13 v14 v15 where vs: "vs = (v0, v1, v2, v3, v4, v5, v6, v7, v8, v9, v10, v11, v12, v13, v14, v15)" by (metis prod.collapse)
  obtain p0 p4 p8 p12 where h0: "half v0 v4 v8 v12 (m ! (sg ! 0)) 32 24 = (p0, p4, p8, p12)" by (metis prod.collapse)
  obtain q0 q4 q8 q12 where k0: "half p0 p4 p8 p12 (m ! (sg ! 1)) 16 63 = (q0, q4, q8, q12)" by (metis prod.collapse)
  obtain p1 p5 p9 p13 where h1: "half v1 v5 v9 v13 (m ! (sg ! 2)) 32 24 = (p1, p5, p9, p13)" by (metis prod.collapse)
  obtain q1 q5 q9 q13 where k1: "half p1 p5 p9 p13 (m ! (sg ! 3)) 16 63 = (q1, q5, q9, q13)" by (metis prod.collapse)
  obtain p2 p6 p10 p14 where h2: "half v2 v6 v10 v14 (m ! (sg ! 4)) 32 24 = (p2, p6, p10, p14)" by (metis prod.collapse)
  obtain q2 q6 q10 q14 where k2: "half p2 p6 p10 p14 (m ! (sg ! 5)) 16 63 = (q2, q6, q10, q14)" by (metis prod.collapse)
  obtain p3 p7 p11 p15 where h3: "half v3 v7 v11 v15 (m ! (sg ! 6)) 32 24 = (p3, p7, p11, p15)" by (metis prod.collapse)
  obtain q3 q7 q11 q15 where k3: "half p3 p7 p11 p15 (m ! (sg ! 7)) 16 63 = (q3, q7, q11, q15)" by (metis prod.collapse)
  have g0: "blake_G [v0, v1, v2, v3, v4, v5, v6, v7, v8, v9, v10, v11, v12, v13, v14, v15] 0 4 8 12 (m ! (sg ! 0)) (m ! (sg ! 1)) = [q0, v1, v2, v3, q4, v5, v6, v7, q8, v9, v10, v11, q12, v13, v14, v15]"
    by (rule trans [OF blake_G_half [where va = p0 and vb = p4 and vc = p8 and vd = p12]]) (simp_all add: h0 k0 k0 [unfolded One_nat_def])
  have g1: "blake_G [q0, v1, v2, v3, q4, v5, v6, v7, q8, v9, v10, v11, q12, v13, v14, v15] 1 5 9 13 (m ! (sg ! 2)) (m ! (sg ! 3)) = [q0, q1, v2, v3, q4, q5, v6, v7, q8, q9, v10, v11, q12, q13, v14, v15]"
    by (rule trans [OF blake_G_half [where va = p1 and vb = p5 and vc = p9 and vd = p13]]) (simp_all add: h1 k1 k1 [unfolded One_nat_def])
  have g2: "blake_G [q0, q1, v2, v3, q4, q5, v6, v7, q8, q9, v10, v11, q12, q13, v14, v15] 2 6 10 14 (m ! (sg ! 4)) (m ! (sg ! 5)) = [q0, q1, q2, v3, q4, q5, q6, v7, q8, q9, q10, v11, q12, q13, q14, v15]"
    by (rule trans [OF blake_G_half [where va = p2 and vb = p6 and vc = p10 and vd = p14]]) (simp_all add: h2 k2 k2 [unfolded One_nat_def])
  have g3: "blake_G [q0, q1, q2, v3, q4, q5, q6, v7, q8, q9, q10, v11, q12, q13, q14, v15] 3 7 11 15 (m ! (sg ! 6)) (m ! (sg ! 7)) = [q0, q1, q2, q3, q4, q5, q6, q7, q8, q9, q10, q11, q12, q13, q14, q15]"
    by (rule trans [OF blake_G_half [where va = p3 and vb = p7 and vc = p11 and vd = p15]]) (simp_all add: h3 k3 k3 [unfolded One_nat_def])
  show ?thesis unfolding vs column_step_def list_of_vars_def Let_def assms
    by (simp add: h0 h1 h2 h3 k0 k1 k2 k3 g0 g1 g2 g3 del: One_nat_def)
qed

lemma diagonal_step_G:
  assumes "s ! 8 = sg ! 8" and "s ! 12 = sg ! 9" and "s ! 9 = sg ! 10" and "s ! 13 = sg ! 11" and "s ! 10 = sg ! 12" and "s ! 14 = sg ! 13" and "s ! 11 = sg ! 14" and "s ! 15 = sg ! 15"
  shows "list_of_vars (diagonal_step m s vs) = (let v = list_of_vars vs;
    v = blake_G v 0 5 10 15 (m ! (sg ! 8)) (m ! (sg ! 9));
    v = blake_G v 1 6 11 12 (m ! (sg ! 10)) (m ! (sg ! 11));
    v = blake_G v 2 7 8 13 (m ! (sg ! 12)) (m ! (sg ! 13))
    in blake_G v 3 4 9 14 (m ! (sg ! 14)) (m ! (sg ! 15)))"
proof -
  obtain v0 v1 v2 v3 v4 v5 v6 v7 v8 v9 v10 v11 v12 v13 v14 v15 where vs: "vs = (v0, v1, v2, v3, v4, v5, v6, v7, v8, v9, v10, v11, v12, v13, v14, v15)" by (metis prod.collapse)
  obtain p0 p5 p10 p15 where h0: "half v0 v5 v10 v15 (m ! (sg ! 8)) 32 24 = (p0, p5, p10, p15)" by (metis prod.collapse)
  obtain q0 q5 q10 q15 where k0: "half p0 p5 p10 p15 (m ! (sg ! 9)) 16 63 = (q0, q5, q10, q15)" by (metis prod.collapse)
  obtain p1 p6 p11 p12 where h1: "half v1 v6 v11 v12 (m ! (sg ! 10)) 32 24 = (p1, p6, p11, p12)" by (metis prod.collapse)
  obtain q1 q6 q11 q12 where k1: "half p1 p6 p11 p12 (m ! (sg ! 11)) 16 63 = (q1, q6, q11, q12)" by (metis prod.collapse)
  obtain p2 p7 p8 p13 where h2: "half v2 v7 v8 v13 (m ! (sg ! 12)) 32 24 = (p2, p7, p8, p13)" by (metis prod.collapse)
  obtain q2 q7 q8 q13 where k2: "half p2 p7 p8 p13 (m ! (sg ! 13)) 16 63 = (q2, q7, q8, q13)" by (metis prod.collapse)
  obtain p3 p4 p9 p14 where h3: "half v3 v4 v9 v14 (m ! (sg ! 14)) 32 24 = (p3, p4, p9, p14)" by (metis prod.collapse)
  obtain q3 q4 q9 q14 where k3: "half p3 p4 p9 p14 (m ! (sg ! 15)) 16 63 = (q3, q4, q9, q14)" by (metis prod.collapse)
  have g0: "blake_G [v0, v1, v2, v3, v4, v5, v6, v7, v8, v9, v10, v11, v12, v13, v14, v15] 0 5 10 15 (m ! (sg ! 8)) (m ! (sg ! 9)) = [q0, v1, v2, v3, v4, q5, v6, v7, v8, v9, q10, v11, v12, v13, v14, q15]"
    by (rule trans [OF blake_G_half [where va = p0 and vb = p5 and vc = p10 and vd = p15]]) (simp_all add: h0 k0 k0 [unfolded One_nat_def])
  have g1: "blake_G [q0, v1, v2, v3, v4, q5, v6, v7, v8, v9, q10, v11, v12, v13, v14, q15] 1 6 11 12 (m ! (sg ! 10)) (m ! (sg ! 11)) = [q0, q1, v2, v3, v4, q5, q6, v7, v8, v9, q10, q11, q12, v13, v14, q15]"
    by (rule trans [OF blake_G_half [where va = p1 and vb = p6 and vc = p11 and vd = p12]]) (simp_all add: h1 k1 k1 [unfolded One_nat_def])
  have g2: "blake_G [q0, q1, v2, v3, v4, q5, q6, v7, v8, v9, q10, q11, q12, v13, v14, q15] 2 7 8 13 (m ! (sg ! 12)) (m ! (sg ! 13)) = [q0, q1, q2, v3, v4, q5, q6, q7, q8, v9, q10, q11, q12, q13, v14, q15]"
    by (rule trans [OF blake_G_half [where va = p2 and vb = p7 and vc = p8 and vd = p13]]) (simp_all add: h2 k2 k2 [unfolded One_nat_def])
  have g3: "blake_G [q0, q1, q2, v3, v4, q5, q6, q7, q8, v9, q10, q11, q12, q13, v14, q15] 3 4 9 14 (m ! (sg ! 14)) (m ! (sg ! 15)) = [q0, q1, q2, q3, q4, q5, q6, q7, q8, q9, q10, q11, q12, q13, q14, q15]"
    by (rule trans [OF blake_G_half [where va = p3 and vb = p4 and vc = p9 and vd = p14]]) (simp_all add: h3 k3 k3 [unfolded One_nat_def])
  show ?thesis unfolding vs diagonal_step_def list_of_vars_def Let_def assms
    by (simp add: h0 h1 h2 h3 k0 k1 k2 k3 g0 g1 g2 g3 del: One_nat_def)
qed

text \<open>The table of the sources is the table of the standard in the order in which a round uses it.\<close>

definition round_order :: "nat list" where
  "round_order = [0, 2, 4, 6, 1, 3, 5, 7, 8, 10, 12, 14, 9, 11, 13, 15]"

lemma precomputed_sigma: "precomputed = map (\<lambda>sg. map (\<lambda>k. sg ! k) round_order) blake_sigma"
  by (simp add: precomputed_def blake_sigma_def round_order_def)

lemma F_round_standard:
  assumes "j < 10"
  shows "list_of_vars (F_round m (precomputed ! j) vs) = blake_round m (blake_sigma ! j) (list_of_vars vs)"
proof -
  have "length blake_sigma = 10" by (simp add: blake_sigma_def)
  then have p: "precomputed ! j = map (\<lambda>k. blake_sigma ! j ! k) round_order" using assms by (simp add: precomputed_sigma)
  show ?thesis
    unfolding F_round_steps blake_round_def
    by (subst diagonal_step_G [where sg = "blake_sigma ! j"], simp_all add: p round_order_def,
        subst column_step_G [where sg = "blake_sigma ! j"], simp_all add: round_order_def Let_def)
qed

lemma F_rounds_snoc: "F_rounds m (Suc n) j vs = F_round m (precomputed ! ((j + n) mod 10)) (F_rounds m n j vs)"
proof (induction n arbitrary: j vs)
  case (Suc n)
  then show ?case by (simp add: add.assoc [symmetric])
qed simp

lemma F_rounds_standard: "list_of_vars (F_rounds m n 0 vs) = blake_rounds m n (list_of_vars vs)"
proof (induction n)
  case (Suc n)
  then show ?case unfolding F_rounds_snoc blake_rounds.simps add_0 by (simp add: F_round_standard)
qed simp

lemma list_of_vars_nth:
  assumes "vs = (v0, v1, v2, v3, v4, v5, v6, v7, v8, v9, v10, v11, v12, v13, v14, v15)"
  shows "list_of_vars vs = [v0, v1, v2, v3, v4, v5, v6, v7, v8, v9, v10, v11, v12, v13, v14, v15]"
  by (simp add: list_of_vars_def assms)

lemma F_standard:
  assumes "length h = 8"
  shows "F h m c f rounds = blake2_F h m (c ! 0) (c ! 1) f (unat rounds)"
proof -
  let ?s = "(h ! 0, h ! 1, h ! 2, h ! 3, h ! 4, h ! 5, h ! 6, h ! 7, IV ! 0, IV ! 1, IV ! 2, IV ! 3,
     IV ! 4 XOR c ! 0, IV ! 5 XOR c ! 1, if f then IV ! 6 XOR 0xffffffffffffffff else IV ! 6, IV ! 7)"
  obtain v0 v1 v2 v3 v4 v5 v6 v7 v8 v9 v10 v11 v12 v13 v14 v15
    where r: "F_rounds m (unat rounds) 0 ?s = (v0, v1, v2, v3, v4, v5, v6, v7, v8, v9, v10, v11, v12, v13, v14, v15)"
    by (metis prod.collapse)
  obtain h0 h1 h2 h3 h4 h5 h6 h7 where h: "h = [h0, h1, h2, h3, h4, h5, h6, h7]"
    using assms by (auto simp: numeral_eq_Suc length_Suc_conv)
  have "(0xffffffffffffffff :: uint64) = - 1" by simp
  then have start: "(let v = h @ blake_IV; v = v[12 := v ! 12 XOR c ! 0]; v = v[13 := v ! 13 XOR c ! 1]
      in if f then v[14 := NOT (v ! 14)] else v) = list_of_vars ?s"
    by (simp add: h IV_def blake_IV_def list_of_vars_def Let_def)
  have "blake_rounds m (unat rounds) (list_of_vars ?s) = [v0, v1, v2, v3, v4, v5, v6, v7, v8, v9, v10, v11, v12, v13, v14, v15]"
    using F_rounds_standard [of m "unat rounds" ?s] list_of_vars_nth [OF r] by simp
  then have "blake2_F h m (c ! 0) (c ! 1) f (unat rounds) =
      map (\<lambda>i. h ! i XOR [v0, v1, v2, v3, v4, v5, v6, v7, v8, v9, v10, v11, v12, v13, v14, v15] ! i XOR
        [v0, v1, v2, v3, v4, v5, v6, v7, v8, v9, v10, v11, v12, v13, v14, v15] ! (i + 8)) [0..<8]"
    using start by (simp add: blake2_F_def Let_def)
  also have "\<dots> = F h m c f rounds"
    unfolding F_def Let_def r prod.case by (simp add: h upt_conv_Cons xor.assoc del: upt.simps)
  finally show ?thesis by simp
qed

subsection \<open>The contract\<close>

text \<open>
  C21. The BLAKE2 contract of EIP-152 computes the compression function of RFC 7693. On an input of
  213 bytes whose last byte is 0 or 1 it reads the rounds, the state, the message block, the
  offset counters and the final flag, and returns the eight words of the new state in
  little-endian order; every other input is an error.
\<close>

theorem blake2f_run_standard:
  "blake2f_run input =
     (if length input \<noteq> 213 then Inl (errPrecompiled ''bad length'')
      else if input ! 212 \<notin> {0, 1} then Inl (errPrecompiled ''bad flag'')
      else Inr (concat (map PutUint64_LE
        (blake2_F (words_LE 8 (drop 4 input)) (words_LE 16 (drop 68 input))
           (Uint64_LE (drop 196 input)) (Uint64_LE (drop 204 input)) (input ! 212 = 1)
           (nat_SetBytes (take 4 input))))))"
proof (cases "length input = 213 \<and> input ! 212 \<in> {0, 1}")
  case True
  let ?h = "words_LE 8 (drop 4 input)"
  have "nat_SetBytes (take 4 input) < 256 ^ length (take 4 input)" by (rule nat_SetBytes_less)
  then have rounds: "unat (word_of_nat (nat_SetBytes (take 4 input)) :: 32 word) = nat_SetBytes (take 4 input)"
    using True by (simp add: unat_of_nat)
  have len: "length ?h = 8" and c: "words_LE 2 bs ! 0 = Uint64_LE bs" "words_LE 2 bs ! 1 = Uint64_LE (drop 8 bs)" for bs
    by (simp_all add: words_LE_def)
  have all: "concat (map (\<lambda>i. PutUint64_LE (w ! i)) [0..<8]) = concat (map PutUint64_LE w)" if "length w = 8" for w
    using map_nth [of w] that by (metis (no_types, lifting) comp_apply map_eq_conv map_map)
  have "length (blake2_F h m t0 t1 f n) = 8" for h m t0 t1 f n by (simp add: blake2_F_def Let_def)
  then show ?thesis
    using True by (simp add: blake2f_run_def Let_def F_standard [OF len] rounds all c) (simp add: words_LE_def)
qed (auto simp: blake2f_run_def)

end
