(* ===== verification/ModExp.thy ===== *)
theory ModExp
  imports Precompiled
begin

section \<open>The exponentiation contract pays for what it reads\<close>

text \<open>
  EIP-198: the lengths of base, exponent and modulus, 32 bytes each, are followed by the three
  numbers, and missing bytes count as zero. The gas is computed from the full lengths, the result
  from their lowest 64 bits converted to a signed integer. The theorem of this theory shows that an
  affordable price keeps all lengths in range, so that nothing is cut off and nothing panics.
\<close>

lemma Precompiled_get_eq: "Precompiled_get input n = (take n (input @ replicate n 0), drop n input)"
  by (simp add: Precompiled_get_def)

lemma length_get [simp]: "length (fst (Precompiled_get input n)) = n"
  by (simp add: Precompiled_get_eq)

lemma getUint64_eq: "getUint64 input = (Uint64 (SetBytes (fst (Precompiled_get input 32))), drop 32 input)"
proof -
  let ?b = "fst (Precompiled_get input 32)"
  have "nat_SetBytes ?b mod 256 ^ 8 = nat_SetBytes (drop 24 ?b)"
    by (rule SetBytes_mod_suffix) simp
  then have "(word_of_nat (nat_SetBytes (drop 24 ?b)) :: uint64) = word_of_nat (nat_SetBytes ?b)"
    by (simp add: word_unat_eq_iff unat_of_nat flip: \<open>nat_SetBytes ?b mod 256 ^ 8 = nat_SetBytes (drop 24 ?b)\<close>)
  then show ?thesis by (simp add: getUint64_def Precompiled_get_eq SetBytes_def)
qed

lemma multComplexity_ge: "0 \<le> x \<Longrightarrow> x \<le> multComplexity x"
proof -
  assume x: "0 \<le> x"
  have sq: "0 \<le> x * x div 4" "0 \<le> x * x div 16" using x by (simp_all add: pos_imp_zdiv_nonneg_iff)
  show ?thesis
  proof (cases "x \<le> 64")
    case True
    then show ?thesis using x by (cases "x = 0") (simp_all add: multComplexity_def)
  next
    case False
    then show ?thesis using sq by (auto simp: multComplexity_def subMul_def)
  qed
qed

lemma adjustedExponentLength_ge: "8 * (expLen - 32) \<le> adjustedExponentLength expLen hd'"
proof -
  have "0 \<le> (if hd' \<noteq> 0 then int (BitLen hd') - 1 else 0)"
    using BitLen_pos_iff [of hd'] by auto
  then show ?thesis by (simp add: adjustedExponentLength_def Let_def)
qed

text \<open>The operand of \<open>len\<close> bytes that starts at \<open>off\<close>.\<close>

definition modexp_operand :: "bytes \<Rightarrow> nat \<Rightarrow> nat \<Rightarrow> int" where
  "modexp_operand input off len = SetBytes (take len (drop off (input @ replicate (off + len) 0)))"

lemma get_operand: "SetBytes (fst (Precompiled_get (drop off input) len)) = modexp_operand input off len"
proof -
  have "take len (drop off input @ replicate len 0) = take len (drop off (input @ replicate (off + len) 0))"
    by (intro nth_equalityI) (auto simp: nth_append min_def)
  then show ?thesis by (simp add: Precompiled_get_eq modexp_operand_def)
qed

lemma modExp_lengths_eq:
  "modExp_lengths input = (modexp_operand input 0 32, modexp_operand input 32 32, modexp_operand input 64 32)"
  by (simp add: modExp_lengths_def Precompiled_get_eq modexp_operand_def flip: get_operand)

lemma modexp_operand_nonneg [simp]: "0 \<le> modexp_operand input off len"
  by (simp add: modexp_operand_def)

text \<open>What the gas bounds.\<close>

lemma div_20_less: "(p :: int) div 20 < 2 ^ 58 \<Longrightarrow> p < 2 ^ 63"
  unfolding power_numeral by (simp add: div_less_iff_less_mult)

lemma modExp_gas_bounds:
  assumes "modExp_gas input < 2 ^ 58" and "modExp_lengths input = (bl, el, ml)" and "\<not> (bl = 0 \<and> ml = 0)"
  shows "bl < 2 ^ 63" and "el < 2 ^ 63" and "ml < 2 ^ 63"
proof -
  have nonneg: "0 \<le> bl" "0 \<le> el" "0 \<le> ml" using assms(2) by (auto simp: modExp_lengths_eq)
  define x where "x = (if ml \<ge> bl then ml else bl)"
  have x: "1 \<le> x" "bl \<le> x" "ml \<le> x" using assms(3) nonneg by (auto simp: x_def)
  obtain hd' where "modExp_gas input = (let adj = adjustedExponentLength el hd';
      g = (if adj \<ge> 1 then multComplexity x * adj else multComplexity x * 1) div 20
      in if \<not> IsUint64 g then - 1 else Uint64 g)"
    unfolding modExp_gas_def assms(2) Let_def x_def prod.case by blast
  moreover define adj where "adj = adjustedExponentLength el hd'"
  moreover define g where "g = (if adj \<ge> 1 then multComplexity x * adj else multComplexity x * 1) div 20"
  ultimately have gas: "modExp_gas input = (if \<not> IsUint64 g then - 1 else Uint64 g)" by (simp add: Let_def)
  have "(2 ^ 58 :: uint64) \<le> - 1" by (rule word_order.extremum)
  then have "IsUint64 g" using assms(1) gas by (auto split: if_splits)
  then have "uint (modExp_gas input) = g" using gas by (simp add: uint_Uint64)
  then have g: "g < 2 ^ 58" using assms(1) by (simp add: word_less_def)
  have mc: "x \<le> multComplexity x" using x by (intro multComplexity_ge) simp
  let ?a = "if adj \<ge> 1 then adj else 1"
  have "multComplexity x * ?a div 20 < 2 ^ 58" using g by (simp add: g_def split: if_splits)
  then have prod: "multComplexity x * ?a < 2 ^ 63" by (rule div_20_less)
  have "x * 1 \<le> multComplexity x * ?a" using mc x by (intro mult_mono) auto
  then show "bl < 2 ^ 63" and "ml < 2 ^ 63" using x prod by simp_all
  have "1 * ?a \<le> multComplexity x * ?a" using mc x by (intro mult_right_mono) auto
  then have "?a < 2 ^ 63" using prod unfolding mult_1 by (rule order_le_less_trans)
  then have "adj < 2 ^ 63" by (cases "adj \<ge> 1") simp_all
  then show "el < 2 ^ 63" using adjustedExponentLength_ge [of el hd'] by (simp add: adj_def)
qed

lemma abs_mod_less:
  fixes m y b :: int
  assumes "0 \<le> m" and "m < b"
  shows "\<bar>if m = 0 then 0 else y mod m\<bar> < b"
proof (cases "m = 0")
  case False
  then have "0 < m" using assms(1) by simp
  then have "y mod m < m" "0 \<le> y mod m" by simp_all
  then show ?thesis using False assms(2) by simp
qed (use assms in simp)

text \<open>
  C22. The exponentiation contract of EIP-198. Whenever its gas is below 2 to the 58 and the
  operands fit into memory, the contract does not panic and returns base to the exponent modulo the modulus in as
  many bytes as the modulus has, or zero for the modulus zero; base, exponent and modulus are
  the operands of the full lengths the input states, although the code keeps only the lowest 64
  bits of each length.
\<close>

theorem modExp_run_correct:
  assumes "modExp_gas input < 2 ^ 58" and "modExp_lengths input = (bl, el, ml)"
  shows "modExp_run input = Some (Inr
    (if bl = 0 \<and> ml = 0 then []
     else let base = modexp_operand input 96 (nat bl); exponent = modexp_operand input (96 + nat bl) (nat el);
              modulus = modexp_operand input (96 + nat bl + nat el) (nat ml)
          in pad_bytes (nat ml) (Bytes (if modulus = 0 then 0 else base ^ nat exponent mod modulus))))"
proof (cases "bl = 0 \<and> ml = 0")
  case True
  then show ?thesis using assms(2)
    by (simp add: modExp_run_def modExp_lengths_eq getUint64_eq flip: get_operand)
next
  case False
  note bounds = modExp_gas_bounds [OF assms False]
  have nonneg: "0 \<le> bl" "0 \<le> el" "0 \<le> ml" using assms(2) by (auto simp: modExp_lengths_eq)
  then have small: "unat (Uint64 bl) = nat bl" "unat (Uint64 el) = nat el" "unat (Uint64 ml) = nat ml"
    using bounds by (simp_all add: unat_Uint64 IsUint64_iff)
  have lens: "SetBytes (fst (Precompiled_get input 32)) = bl" "SetBytes (fst (Precompiled_get (drop 32 input) 32)) = el"
    "SetBytes (fst (Precompiled_get (drop 64 input) 32)) = ml"
    using assms(2) get_operand [of 0 input 32] by (simp_all add: modExp_lengths_eq get_operand)
  have zero: "\<not> (Uint64 bl = 0 \<and> Uint64 ml = 0)" using False small nonneg by (auto simp: unat_eq_0 [symmetric])
  let ?b = "modexp_operand input 96 (nat bl)" and ?e = "modexp_operand input (96 + nat bl) (nat el)"
  let ?m = "modexp_operand input (96 + nat bl + nat el) (nat ml)"
  define res where "res = Bytes (if ?m = 0 then 0 else ?b ^ nat ?e mod ?m)"
  have "length res \<le> nat ml"
  proof -
    have "?m < 256 ^ nat ml"
      using SetBytes_less [of "fst (Precompiled_get (drop (96 + nat bl + nat el) input) (nat ml))"] by (simp add: get_operand)
    then have "\<bar>if ?m = 0 then 0 else ?b ^ nat ?e mod ?m\<bar> < 256 ^ nat ml"
      by (intro abs_mod_less modexp_operand_nonneg)
    then show ?thesis unfolding res_def by (rule length_Bytes_le)
  qed
  then have pad: "leftPad res (nat ml) = pad_bytes (nat ml) res" by (simp add: leftPad_def pad_bytes_def)
  have empty: "Bytes 0 = []" by (simp add: Bytes_def nat_Bytes.simps [of 0])
  have u: "getUint64 input = (Uint64 bl, drop 32 input)" "getUint64 (drop 32 input) = (Uint64 el, drop 64 input)"
    "getUint64 (drop 64 input) = (Uint64 ml, drop 96 input)"
    unfolding getUint64_eq lens by simp_all
  have g: "get_sized (drop off input) w = Some (fst (Precompiled_get (drop off input) n), drop (off + n) input)"
    if "unat w = n" "n < 2 ^ 63" for off w n
    using that by (simp add: get_sized_def Precompiled_get_eq add.commute)
  have "nat bl < 2 ^ 63" "nat el < 2 ^ 63" "nat ml < 2 ^ 63" using bounds nonneg by (simp_all add: nat_less_iff)
  note g' = g [OF small(1) this(1)] g [OF small(2) this(2)] g [OF small(3) this(3)]
  have "modExp_run input = Some (Inr (leftPad res (nat ml)))"
    unfolding modExp_run_def Let_def u prod.case if_not_P [OF zero]
    by (simp add: g' get_operand small big_Exp_def res_def empty)
  then show ?thesis unfolding pad unfolding if_not_P [OF False] Let_def res_def .
qed

text \<open>3 to the 2 modulo 5 is 4.\<close>

definition plain_modexp :: bytes where
  "plain_modexp = replicate 31 0 @ [1] @ replicate 31 0 @ [1] @ replicate 31 0 @ [1] @ [3, 2, 5]"

lemma nat_SetBytes_single: "nat_SetBytes [b] = unat b"
  by (simp add: nat_SetBytes_def)

lemma plain_modexp_operands:
  "modexp_operand plain_modexp 0 32 = 1" "modexp_operand plain_modexp 32 32 = 1" "modexp_operand plain_modexp 64 32 = 1"
  "modexp_operand plain_modexp 96 1 = 3" "modexp_operand plain_modexp 97 1 = 2" "modexp_operand plain_modexp 98 1 = 5"
  by (simp_all add: modexp_operand_def plain_modexp_def SetBytes_def nat_SetBytes_single)

theorem modExp_run_correct_witness: "modExp_run plain_modexp = Some (Inr [4])"
proof -
  have lens: "modExp_lengths plain_modexp = (1, 1, 1)"
    by (simp add: modExp_lengths_eq plain_modexp_operands)
  have "SetBytes (fst (Precompiled_get [2, 5] 1)) = 2"
    by (simp add: Precompiled_get_def SetBytes_def nat_SetBytes_single)
  moreover have "drop 96 plain_modexp = [3, 2, 5]" "length plain_modexp = 99" by (simp_all add: plain_modexp_def)
  moreover have "BitLen 2 = 2" using BitLen_le_iff [of 2 2] BitLen_le_iff [of 2 1] by simp
  moreover have "Uint64 1 = 1" by (simp add: Uint64_def)
  ultimately have "modExp_gas plain_modexp = 0"
    unfolding modExp_gas_def lens prod.case Let_def
    by (simp add: multComplexity_def adjustedExponentLength_def IsUint64_iff Let_def)
  then have gas: "modExp_gas plain_modexp < 2 ^ 58" by simp
  have "Bytes 4 = [4]" by (simp add: Bytes_def nat_Bytes.simps [of 4] nat_Bytes.simps [of 0])
  then show ?thesis using modExp_run_correct [OF gas lens] plain_modexp_operands by (simp add: pad_bytes_def)
qed

end
