(* ===== verification/RLP.thy ===== *)
theory RLP
  imports Txn Crypto Block EVM "HOL-Library.Monad_Syntax" "HOL-Library.Countable"
begin

section \<open>Encoding and decoding (\<^verbatim>\<open>types/rlp_*.go\<close>, \<^verbatim>\<open>types/header_hash.go\<close>, \<^verbatim>\<open>state/state.go\<close>)\<close>

text \<open>
  How headers, transactions, receipts, blocks and accounts are turned into RLP values for hashing,
  for the network and for the store, and read back. The RLP library is a parameter: an encoder and a
  parser, and the functions that read a parsed value, of which \<open>rlp_laws\<close> says what they return on what was
  encoded. Decoding is modelled for a new object, as all callers use it; an error is \<^const>\<open>None\<close>.
\<close>

subsection \<open>Parsed values\<close>

record 'v rlp_lib =
  Parse :: "bytes \<Rightarrow> 'v option"
  GetElems :: "'v \<Rightarrow> 'v list option"
  GetUint64 :: "'v \<Rightarrow> uint64 option"
  GetBigInt :: "'v \<Rightarrow> int option"
  Value_Bytes :: "'v \<Rightarrow> bytes option"
  GetBytes :: "'v \<Rightarrow> nat \<Rightarrow> bytes option"
  Value_Hash :: "'v \<Rightarrow> bytes"

definition rlp_laws :: "crypto_lib \<Rightarrow> sig_lib \<Rightarrow> 'v rlp_lib \<Rightarrow> (rlp \<Rightarrow> 'v) \<Rightarrow> bool" where
  "rlp_laws L S V val \<longleftrightarrow>
     (\<forall>x. Parse V (rlp_Marshal S x) = Some (val x)) \<and>
     (\<forall>x. Value_Hash V (val x) = Keccak256 L (rlp_Marshal S x)) \<and>
     (\<forall>xs. GetElems V (val (RlpArray xs)) = Some (map val xs)) \<and> GetElems V (val RlpNullArray) = Some [] \<and>
     (\<forall>n. GetUint64 V (val (RlpUint n)) = Some n \<and> Value_Bytes V (val (RlpUint n)) = Some (Bytes (uint n))) \<and>
     (\<forall>i. GetBigInt V (val (RlpBigInt i)) = Some \<bar>i\<bar>) \<and>
     (\<forall>bs. Value_Bytes V (val (RlpBytes bs)) = Some bs \<and>
        (\<forall>n. GetBytes V (val (RlpBytes bs)) n = (if length bs = n then Some bs else None)) \<and>
        (length bs \<le> 8 \<longrightarrow> GetUint64 V (val (RlpBytes bs)) = Some (word_of_nat (nat_SetBytes bs)))) \<and>
     Value_Bytes V (val RlpNull) = Some []"

abbreviation GetHash :: "'v rlp_lib \<Rightarrow> 'v \<Rightarrow> Hash option" where
  "GetHash V v \<equiv> map_option BytesToHash (GetBytes V v 32)"

abbreviation GetAddr :: "'v rlp_lib \<Rightarrow> 'v \<Rightarrow> Address option" where
  "GetAddr V v \<equiv> map_option BytesToAddress (GetBytes V v 20)"

text \<open>The loops that decode the elements of a list stop at the first error.\<close>

fun map_all :: "('a \<Rightarrow> 'b option) \<Rightarrow> 'a list \<Rightarrow> 'b list option" where
  "map_all f [] = Some []"
| "map_all f (x # xs) = do { y \<leftarrow> f x; ys \<leftarrow> map_all f xs; Some (y # ys) }"

lemma map_all_map: "(\<And>x. x \<in> set xs \<Longrightarrow> f (g x) = Some x) \<Longrightarrow> map_all f (map g xs) = Some xs"
  by (induction xs) auto

subsection \<open>Encoding\<close>

definition NewBigInt :: "int option \<Rightarrow> rlp" where
  "NewBigInt b = (case b of None \<Rightarrow> RlpNil | Some i \<Rightarrow> RlpBigInt i)"

definition Header_MarshalRLPWith :: "Header \<Rightarrow> rlp" where
  "Header_MarshalRLPWith h = RlpArray [
     RlpBytes (Hash_Bytes (hd_ParentHash h)), RlpBytes (Hash_Bytes (hd_Sha3Uncles h)), RlpBytes (hd_Miner h),
     RlpBytes (Hash_Bytes (hd_StateRoot h)), RlpBytes (Hash_Bytes (hd_TxRoot h)), RlpBytes (Hash_Bytes (hd_ReceiptsRoot h)),
     RlpBytes (hd_LogsBloom h), RlpUint (hd_Difficulty h), RlpUint (hd_Number h), RlpUint (hd_GasLimit h),
     RlpUint (hd_GasUsed h), RlpUint (hd_Timestamp h), RlpBytes (hd_ExtraData h), RlpBytes (Hash_Bytes (hd_MixHash h)),
     RlpBytes (pad_bytes 8 (Bytes (uint (hd_Nonce h))))]"

definition Transaction_MarshalRLPWith :: "Transaction \<Rightarrow> rlp" where
  "Transaction_MarshalRLPWith t = RlpArray [
     RlpUint (t_Nonce t), RlpBigInt (t_GasPrice t), RlpUint (t_Gas t),
     (case t_To t of Some to' \<Rightarrow> RlpBytes (Address_Bytes to') | None \<Rightarrow> RlpNull),
     RlpBigInt (t_Value t), RlpBytes (t_Input t), NewBigInt (t_V t), NewBigInt (t_R t), NewBigInt (t_S t)]"

definition Log_MarshalRLPWith :: "Log \<Rightarrow> rlp" where
  "Log_MarshalRLPWith l = RlpArray [RlpBytes (Address_Bytes (l_Address l)),
     RlpArray (map (\<lambda>t. RlpBytes (Hash_Bytes t)) (l_Topics l)), RlpBytes (l_Data l)]"

definition MarshalLogsWith :: "Receipt \<Rightarrow> rlp" where
  "MarshalLogsWith r = (if rc_Logs r = [] then RlpNullArray else RlpArray (map Log_MarshalRLPWith (rc_Logs r)))"

definition Receipt_MarshalRLPWith :: "Receipt \<Rightarrow> rlp" where
  "Receipt_MarshalRLPWith r = RlpArray [
     (case rc_Status r of Some s \<Rightarrow> RlpUint s | None \<Rightarrow> RlpBytes (Hash_Bytes (rc_Root r))),
     RlpUint (rc_CumulativeGasUsed r), RlpBytes (rc_LogsBloom r), MarshalLogsWith r]"

definition Receipts_MarshalRLPWith :: "Receipt list \<Rightarrow> rlp" where
  "Receipts_MarshalRLPWith r = RlpArray (map Receipt_MarshalRLPWith r)"

definition Block_MarshalRLPWith :: "Block \<Rightarrow> rlp" where
  "Block_MarshalRLPWith b = RlpArray [Header_MarshalRLPWith (b_Header b),
     (if b_Transactions b = [] then RlpNullArray else RlpArray (map Transaction_MarshalRLPWith (b_Transactions b))),
     (if b_Uncles b = [] then RlpNullArray else RlpArray (map Header_MarshalRLPWith (b_Uncles b)))]"

definition Transaction_MarshalStoreRLPWith :: "Transaction \<Rightarrow> rlp" where
  "Transaction_MarshalStoreRLPWith t = RlpArray [Transaction_MarshalRLPWith t, RlpBytes (Address_Bytes (t_From t))]"

definition Body_MarshalRLPWith :: "Body \<Rightarrow> rlp" where
  "Body_MarshalRLPWith b = RlpArray [
     (if bd_Transactions b = [] then RlpNullArray else RlpArray (map Transaction_MarshalStoreRLPWith (bd_Transactions b))),
     (if bd_Uncles b = [] then RlpNullArray else RlpArray (map Header_MarshalRLPWith (bd_Uncles b)))]"

definition Receipt_MarshalStoreRLPWith :: "Receipt \<Rightarrow> rlp" where
  "Receipt_MarshalStoreRLPWith r = RlpArray [Receipt_MarshalRLPWith r,
     (case rc_ContractAddress r of None \<Rightarrow> RlpNull | Some a \<Rightarrow> RlpBytes (Address_Bytes a)),
     RlpUint (rc_GasUsed r), RlpBytes (Hash_Bytes (rc_TxHash r))]"

definition Receipts_MarshalStoreRLPWith :: "Receipt list \<Rightarrow> rlp" where
  "Receipts_MarshalStoreRLPWith r = RlpArray (map Receipt_MarshalStoreRLPWith r)"

definition Account_MarshalWith :: "Account \<Rightarrow> rlp" where
  "Account_MarshalWith a = RlpArray [RlpUint (ac_Nonce a), RlpBigInt (ac_Balance a),
     RlpBytes (Hash_Bytes (ac_Root a)), RlpBytes (ac_CodeHash a)]"

definition Transaction_MarshalRLP :: "sig_lib \<Rightarrow> Transaction \<Rightarrow> bytes" where
  "Transaction_MarshalRLP S t = rlp_Marshal S (Transaction_MarshalRLPWith t)"

subsection \<open>Hashes\<close>

definition Transaction_ComputeHash :: "crypto_lib \<Rightarrow> sig_lib \<Rightarrow> Transaction \<Rightarrow> Transaction" where
  "Transaction_ComputeHash L S t = t\<lparr>t_Hash := BytesToHash (Keccak256 L (rlp_Marshal S (Transaction_MarshalRLPWith t)))\<rparr>"

definition defHeaderHash :: "crypto_lib \<Rightarrow> sig_lib \<Rightarrow> Header \<Rightarrow> Hash" where
  "defHeaderHash L S h = BytesToHash (Keccak256 L (rlp_Marshal S (Header_MarshalRLPWith h)))"

text \<open>The header hash is a variable of the package, which the consensus may replace.\<close>

definition Header_ComputeHash :: "(Header \<Rightarrow> Hash) \<Rightarrow> Header \<Rightarrow> Header" where
  "Header_ComputeHash HeaderHash h = h\<lparr>hd_Hash := HeaderHash h\<rparr>"

subsection \<open>Decoding\<close>

definition Header_UnmarshalRLPFrom :: "(Header \<Rightarrow> Hash) \<Rightarrow> 'v rlp_lib \<Rightarrow> 'v \<Rightarrow> Header option" where
  "Header_UnmarshalRLPFrom HeaderHash V v = do {
     elems \<leftarrow> GetElems V v;
     if length elems < 15 then None else do {
     parentHash \<leftarrow> GetHash V (elems ! 0);
     sha3Uncles \<leftarrow> GetHash V (elems ! 1);
     miner \<leftarrow> Value_Bytes V (elems ! 2);
     stateRoot \<leftarrow> GetHash V (elems ! 3);
     txRoot \<leftarrow> GetHash V (elems ! 4);
     receiptsRoot \<leftarrow> GetHash V (elems ! 5);
     logsBloom \<leftarrow> GetBytes V (elems ! 6) 256;
     difficulty \<leftarrow> GetUint64 V (elems ! 7);
     number \<leftarrow> GetUint64 V (elems ! 8);
     gasLimit \<leftarrow> GetUint64 V (elems ! 9);
     gasUsed \<leftarrow> GetUint64 V (elems ! 10);
     timestamp \<leftarrow> GetUint64 V (elems ! 11);
     extraData \<leftarrow> Value_Bytes V (elems ! 12);
     mixHash \<leftarrow> GetHash V (elems ! 13);
     nonce \<leftarrow> GetUint64 V (elems ! 14);
     Some (Header_ComputeHash HeaderHash (Header_SetNonce \<lparr>hd_ParentHash = parentHash, hd_Sha3Uncles = sha3Uncles, hd_Miner = miner,
       hd_StateRoot = stateRoot, hd_TxRoot = txRoot, hd_ReceiptsRoot = receiptsRoot, hd_LogsBloom = logsBloom,
       hd_Difficulty = difficulty, hd_Number = number, hd_GasLimit = gasLimit, hd_GasUsed = gasUsed,
       hd_Timestamp = timestamp, hd_ExtraData = extraData, hd_MixHash = mixHash, hd_Nonce = 0, hd_Hash = 0\<rparr> nonce)) } }"

definition Transaction_UnmarshalRLPFrom :: "'v rlp_lib \<Rightarrow> 'v \<Rightarrow> Transaction option" where
  "Transaction_UnmarshalRLPFrom V v = do {
     elems \<leftarrow> GetElems V v;
     if length elems < 9 then None else do {
     nonce \<leftarrow> GetUint64 V (elems ! 0);
     gasPrice \<leftarrow> GetBigInt V (elems ! 1);
     gas' \<leftarrow> GetUint64 V (elems ! 2);
     let to' = (case Value_Bytes V (elems ! 3) of
                  Some vv \<Rightarrow> if length vv = 20 then Some (BytesToAddress vv) else None
                | None \<Rightarrow> None);
     value' \<leftarrow> GetBigInt V (elems ! 4);
     input \<leftarrow> Value_Bytes V (elems ! 5);
     v' \<leftarrow> GetBigInt V (elems ! 6);
     r \<leftarrow> GetBigInt V (elems ! 7);
     s \<leftarrow> GetBigInt V (elems ! 8);
     Some \<lparr>t_Nonce = nonce, t_GasPrice = gasPrice, t_Gas = gas', t_To = to', t_Value = value', t_Input = input,
       t_V = Some v', t_R = Some r, t_S = Some s, t_Hash = BytesToHash (Value_Hash V v), t_From = 0\<rparr> } }"

definition Log_UnmarshalRLPFrom :: "'v rlp_lib \<Rightarrow> 'v \<Rightarrow> Log option" where
  "Log_UnmarshalRLPFrom V v = do {
     elems \<leftarrow> GetElems V v;
     if length elems < 3 then None else do {
     address \<leftarrow> GetAddr V (elems ! 0);
     topicElems \<leftarrow> GetElems V (elems ! 1);
     topics \<leftarrow> map_all (GetHash V) topicElems;
     bs \<leftarrow> Value_Bytes V (elems ! 2);
     Some \<lparr>l_Address = address, l_Topics = topics, l_Data = bs\<rparr> } }"

definition empty_receipt :: Receipt where
  "empty_receipt = \<lparr>rc_Root = 0, rc_CumulativeGasUsed = 0, rc_LogsBloom = replicate 256 0, rc_Logs = [], rc_Status = None,
     rc_GasUsed = 0, rc_ContractAddress = None, rc_TxHash = 0\<rparr>"

definition Receipt_UnmarshalRLPFrom :: "'v rlp_lib \<Rightarrow> 'v \<Rightarrow> Receipt option" where
  "Receipt_UnmarshalRLPFrom V v = do {
     elems \<leftarrow> GetElems V v;
     if length elems < 4 then None else do {
     buf \<leftarrow> Value_Bytes V (elems ! 0);
     let r = (if length buf = 32 then empty_receipt\<lparr>rc_Root := BytesToHash buf\<rparr>
              else if length buf = 1 then SetStatus empty_receipt (ucast (buf ! 0))
              else SetStatus empty_receipt 0);
     cumulativeGasUsed \<leftarrow> GetUint64 V (elems ! 1);
     logsBloom \<leftarrow> GetBytes V (elems ! 2) 256;
     logsElems \<leftarrow> GetElems V (elems ! 3);
     logs \<leftarrow> map_all (Log_UnmarshalRLPFrom V) logsElems;
     Some (r\<lparr>rc_CumulativeGasUsed := cumulativeGasUsed, rc_LogsBloom := logsBloom, rc_Logs := logs\<rparr>) } }"

definition Receipts_UnmarshalRLPFrom :: "'v rlp_lib \<Rightarrow> 'v \<Rightarrow> Receipt list option" where
  "Receipts_UnmarshalRLPFrom V v = do { elems \<leftarrow> GetElems V v; map_all (Receipt_UnmarshalRLPFrom V) elems }"

definition Block_UnmarshalRLPFrom :: "(Header \<Rightarrow> Hash) \<Rightarrow> 'v rlp_lib \<Rightarrow> 'v \<Rightarrow> Block option" where
  "Block_UnmarshalRLPFrom HeaderHash V v = do {
     elems \<leftarrow> GetElems V v;
     if length elems < 3 then None else do {
     header \<leftarrow> Header_UnmarshalRLPFrom HeaderHash V (elems ! 0);
     txns \<leftarrow> GetElems V (elems ! 1);
     transactions \<leftarrow> map_all (Transaction_UnmarshalRLPFrom V) txns;
     uncles \<leftarrow> GetElems V (elems ! 2);
     bUncles \<leftarrow> map_all (Header_UnmarshalRLPFrom HeaderHash V) uncles;
     Some \<lparr>b_Header = header, b_Transactions = transactions, b_Uncles = bUncles\<rparr> } }"

definition Transaction_UnmarshalStoreRLPFrom :: "'v rlp_lib \<Rightarrow> 'v \<Rightarrow> Transaction option" where
  "Transaction_UnmarshalStoreRLPFrom V v = do {
     elems \<leftarrow> GetElems V v;
     if length elems < 2 then None else do {
     t \<leftarrow> Transaction_UnmarshalRLPFrom V (elems ! 0);
     from \<leftarrow> GetAddr V (elems ! 1);
     Some (t\<lparr>t_From := from\<rparr>) } }"

definition Body_UnmarshalRLPFrom :: "(Header \<Rightarrow> Hash) \<Rightarrow> 'v rlp_lib \<Rightarrow> 'v \<Rightarrow> Body option" where
  "Body_UnmarshalRLPFrom HeaderHash V v = do {
     tuple \<leftarrow> GetElems V v;
     if length tuple < 2 then None else do {
     txns \<leftarrow> GetElems V (tuple ! 0);
     transactions \<leftarrow> map_all (Transaction_UnmarshalStoreRLPFrom V) txns;
     uncles \<leftarrow> GetElems V (tuple ! 1);
     bUncles \<leftarrow> map_all (Header_UnmarshalRLPFrom HeaderHash V) uncles;
     Some \<lparr>bd_Transactions = transactions, bd_Uncles = bUncles\<rparr> } }"

definition Receipt_UnmarshalStoreRLPFrom :: "'v rlp_lib \<Rightarrow> 'v \<Rightarrow> Receipt option" where
  "Receipt_UnmarshalStoreRLPFrom V v = do {
     elems \<leftarrow> GetElems V v;
     if length elems < 3 then None else do {
     r \<leftarrow> Receipt_UnmarshalRLPFrom V (elems ! 0);
     vv \<leftarrow> Value_Bytes V (elems ! 1);
     let r = (if length vv = 20 then SetContractAddress r (BytesToAddress vv) else r);
     gasUsed \<leftarrow> GetUint64 V (elems ! 2);
     let r = r\<lparr>rc_GasUsed := gasUsed\<rparr>;
     if length elems = 4 then map_option (\<lambda>vv. r\<lparr>rc_TxHash := BytesToHash vv\<rparr>) (Value_Bytes V (elems ! 3))
     else Some r } }"

definition Receipts_UnmarshalStoreRLPFrom :: "'v rlp_lib \<Rightarrow> 'v \<Rightarrow> Receipt list option" where
  "Receipts_UnmarshalStoreRLPFrom V v = do { elems \<leftarrow> GetElems V v; map_all (Receipt_UnmarshalStoreRLPFrom V) elems }"

definition Account_UnmarshalRlp :: "'v rlp_lib \<Rightarrow> bytes \<Rightarrow> Account option" where
  "Account_UnmarshalRlp V b = do {
     v \<leftarrow> Parse V b;
     elems \<leftarrow> GetElems V v;
     if length elems < 4 then None else do {
     nonce \<leftarrow> GetUint64 V (elems ! 0);
     balance \<leftarrow> GetBigInt V (elems ! 1);
     root \<leftarrow> GetHash V (elems ! 2);
     codeHash \<leftarrow> Value_Bytes V (elems ! 3);
     Some \<lparr>ac_Nonce = nonce, ac_Balance = balance, ac_Root = root, ac_CodeHash = codeHash\<rparr> } }"

text \<open>\<^verbatim>\<open>UnmarshalRlp\<close>: parse, then decode.\<close>

definition UnmarshalRlp :: "'v rlp_lib \<Rightarrow> ('v \<Rightarrow> 'a option) \<Rightarrow> bytes \<Rightarrow> 'a option" where
  "UnmarshalRlp V obj input = do { v \<leftarrow> Parse V input; obj v }"

subsection \<open>Reading back what was written\<close>

lemma rlp_lawsD:
  assumes "rlp_laws L S V val"
  shows "Parse V (rlp_Marshal S x) = Some (val x)" and "Value_Hash V (val x) = Keccak256 L (rlp_Marshal S x)"
    and "GetElems V (val (RlpArray xs)) = Some (map val xs)" and "GetElems V (val RlpNullArray) = Some []"
    and "GetUint64 V (val (RlpUint n)) = Some n" and "Value_Bytes V (val (RlpUint n)) = Some (Bytes (uint n))"
    and "GetBigInt V (val (RlpBigInt i)) = Some \<bar>i\<bar>" and "Value_Bytes V (val (RlpBytes bs)) = Some bs"
    and "GetBytes V (val (RlpBytes bs)) k = (if length bs = k then Some bs else None)"
    and "length bs \<le> 8 \<Longrightarrow> GetUint64 V (val (RlpBytes bs)) = Some (word_of_nat (nat_SetBytes bs))"
    and "Value_Bytes V (val RlpNull) = Some []"
  using assms by (simp_all add: rlp_laws_def)

lemma nonce_bytes:
  fixes n :: uint64
  shows "length (pad_bytes 8 (Bytes (uint n))) = 8" and "word_of_nat (nat_SetBytes (pad_bytes 8 (Bytes (uint n)))) = n"
proof -
  have "uint n < 256 ^ 8" using unsigned_less [of n, where ?'a = int] by simp
  then show "length (pad_bytes 8 (Bytes (uint n))) = 8" by (simp add: length_pad_bytes length_Bytes_le)
  show "word_of_nat (nat_SetBytes (pad_bytes 8 (Bytes (uint n)))) = n" by (simp add: pad_bytes_def Bytes_def)
qed

text \<open>What an object must satisfy to be read back as it was.\<close>

definition header_wf :: "(Header \<Rightarrow> Hash) \<Rightarrow> Header \<Rightarrow> bool" where
  "header_wf HeaderHash h \<longleftrightarrow> length (hd_LogsBloom h) = 256 \<and> hd_Hash h = HeaderHash (h\<lparr>hd_Hash := 0\<rparr>)"

definition tx_wf :: "crypto_lib \<Rightarrow> sig_lib \<Rightarrow> Transaction \<Rightarrow> bool" where
  "tx_wf L S t \<longleftrightarrow> 0 \<le> t_GasPrice t \<and> 0 \<le> t_Value t \<and>
     (\<forall>x \<in> {t_V t, t_R t, t_S t}. x \<noteq> None \<and> 0 \<le> the x) \<and> Transaction_ComputeHash L S t = t"

definition receipt_wf :: "Receipt \<Rightarrow> bool" where
  "receipt_wf r \<longleftrightarrow> length (rc_LogsBloom r) = 256 \<and>
     (case rc_Status r of None \<Rightarrow> True | Some s \<Rightarrow> s < 256 \<and> rc_Root r = 0)"

lemma Header_roundtrip:
  assumes "rlp_laws L S V val" and "header_wf HeaderHash h"
  shows "Header_UnmarshalRLPFrom HeaderHash V (val (Header_MarshalRLPWith h)) = Some h"
proof -
  have "Header_UnmarshalRLPFrom HeaderHash V (val (Header_MarshalRLPWith h)) = Some (Header_ComputeHash HeaderHash (h\<lparr>hd_Hash := 0\<rparr>))"
    using assms(2) unfolding header_wf_def
    by (cases h) (simp add: Header_UnmarshalRLPFrom_def Header_MarshalRLPWith_def rlp_lawsD [OF assms(1)] nonce_bytes Header_SetNonce_def)
  then show ?thesis using assms(2) by (simp add: Header_ComputeHash_def header_wf_def)
qed

lemma Transaction_roundtrip:
  assumes "rlp_laws L S V val" and "tx_wf L S t"
  shows "Transaction_UnmarshalRLPFrom V (val (Transaction_MarshalRLPWith t)) = Some (t\<lparr>t_From := 0\<rparr>)"
proof -
  obtain v r s where vrs: "t_V t = Some v" "0 \<le> v" "t_R t = Some r" "0 \<le> r" "t_S t = Some s" "0 \<le> s"
    using assms(2) by (auto simp: tx_wf_def)
  define m where "m = Transaction_MarshalRLPWith t"
  have "t_Hash (Transaction_ComputeHash L S t) = t_Hash t" using assms(2) by (simp add: tx_wf_def)
  then have hash: "BytesToHash (Value_Hash V (val m)) = t_Hash t"
    by (simp add: Transaction_ComputeHash_def rlp_lawsD(2) [OF assms(1)] m_def)
  have m: "m = RlpArray [RlpUint (t_Nonce t), RlpBigInt (t_GasPrice t), RlpUint (t_Gas t),
     (case t_To t of Some to' \<Rightarrow> RlpBytes (Address_Bytes to') | None \<Rightarrow> RlpNull),
     RlpBigInt (t_Value t), RlpBytes (t_Input t), RlpBigInt v, RlpBigInt r, RlpBigInt s]"
    by (simp add: m_def Transaction_MarshalRLPWith_def NewBigInt_def vrs)
  have "Transaction_UnmarshalRLPFrom V (val m) = Some (t\<lparr>t_From := 0\<rparr>)"
    unfolding Transaction_UnmarshalRLPFrom_def hash unfolding m
    using assms(2) vrs by (cases "t_To t"; cases t) (simp_all add: rlp_lawsD [OF assms(1)] tx_wf_def)
  then show ?thesis by (simp add: m_def)
qed

lemma Transaction_store_roundtrip:
  assumes "rlp_laws L S V val" and "tx_wf L S t"
  shows "Transaction_UnmarshalStoreRLPFrom V (val (Transaction_MarshalStoreRLPWith t)) = Some t"
  by (simp add: Transaction_UnmarshalStoreRLPFrom_def Transaction_MarshalStoreRLPWith_def rlp_lawsD [OF assms(1)]
      Transaction_roundtrip [OF assms])

lemma Log_roundtrip:
  assumes "rlp_laws L S V val"
  shows "Log_UnmarshalRLPFrom V (val (Log_MarshalRLPWith l)) = Some l"
  using map_all_map [of "l_Topics l" "\<lambda>v. GetHash V v" "\<lambda>t. val (RlpBytes (Hash_Bytes t))"]
  by (simp add: Log_UnmarshalRLPFrom_def Log_MarshalRLPWith_def rlp_lawsD [OF assms] comp_def)

text \<open>A list is written as the null array when it is empty.\<close>

lemma list_roundtrip:
  assumes "rlp_laws L S V val"
  shows "GetElems V (val (if xs = [] then RlpNullArray else RlpArray (map f xs))) = Some (map (\<lambda>x. val (f x)) xs)"
  by (simp add: rlp_lawsD [OF assms])

lemma status_bytes:
  fixes s :: uint64
  assumes "s < 256"
  shows "Bytes (uint s) = (if s = 0 then [] else [ucast s])"
proof (cases "s = 0")
  case False
  then have "nat (uint s) \<noteq> 0" "nat (uint s) < 256" using assms by (simp_all add: word_less_nat_alt unat_eq_zero)
  then show ?thesis using False by (simp add: Bytes_def nat_Bytes.simps [of "unat s"] nat_Bytes.simps [of 0] unat_eq_zero)
qed (simp add: Bytes_def nat_Bytes.simps [of 0])

lemma ucast_byte:
  fixes s :: uint64
  assumes "s < 256"
  shows "ucast (ucast s :: byte) = s"
proof -
  have "uint s < 2 ^ 8" using assms by (simp add: word_less_def)
  then have "uint (ucast (ucast s :: byte) :: uint64) = uint s" by (simp add: unsigned_ucast_eq unsigned_take_bit_eq take_bit_int_eq_self)
  then show ?thesis by (simp only: word_uint_eq_iff)
qed

lemma Receipt_roundtrip:
  assumes "rlp_laws L S V val" and "receipt_wf r"
  shows "Receipt_UnmarshalRLPFrom V (val (Receipt_MarshalRLPWith r)) =
    Some (r\<lparr>rc_GasUsed := 0, rc_ContractAddress := None, rc_TxHash := 0\<rparr>)"
proof -
  have logs: "map_all (Log_UnmarshalRLPFrom V) (map (\<lambda>l. val (Log_MarshalRLPWith l)) (rc_Logs r)) = Some (rc_Logs r)"
    by (rule map_all_map) (rule Log_roundtrip [OF assms(1)])
  show ?thesis
  proof (cases "rc_Status r")
    case None
    then show ?thesis using assms(2) logs
      by (cases r) (simp add: Receipt_UnmarshalRLPFrom_def Receipt_MarshalRLPWith_def MarshalLogsWith_def rlp_lawsD [OF assms(1)]
          receipt_wf_def empty_receipt_def comp_def)
  next
    case (Some s)
    then show ?thesis using assms(2) logs status_bytes [of s] ucast_byte [of s]
      by (cases r) (simp add: Receipt_UnmarshalRLPFrom_def Receipt_MarshalRLPWith_def MarshalLogsWith_def rlp_lawsD [OF assms(1)]
          receipt_wf_def empty_receipt_def SetStatus_def comp_def)
  qed
qed

lemma Receipt_store_roundtrip:
  assumes "rlp_laws L S V val" and "receipt_wf r"
  shows "Receipt_UnmarshalStoreRLPFrom V (val (Receipt_MarshalStoreRLPWith r)) = Some r"
  by (cases "rc_ContractAddress r") (simp_all add: Receipt_UnmarshalStoreRLPFrom_def Receipt_MarshalStoreRLPWith_def rlp_lawsD [OF assms(1)]
      Receipt_roundtrip [OF assms] SetContractAddress_def)

lemma headers_roundtrip:
  assumes "rlp_laws L S V val" and "\<forall>h \<in> set hs. header_wf HeaderHash h"
  shows "map_all (Header_UnmarshalRLPFrom HeaderHash V) (map (\<lambda>h. val (Header_MarshalRLPWith h)) hs) = Some hs"
  by (rule map_all_map) (simp add: Header_roundtrip [OF assms(1)] assms(2))

text \<open>
  C24. What the node stores it reads back unchanged: a block body with the senders of its
  transactions, a list of receipts with their context fields, a header, and an account of the state.
\<close>

theorem store_roundtrip:
  assumes "rlp_laws L S V val" and "\<forall>t \<in> set (bd_Transactions body). tx_wf L S t"
    and "\<forall>h \<in> set (bd_Uncles body). header_wf HeaderHash h" and "\<forall>r \<in> set receipts. receipt_wf r"
    and "header_wf HeaderHash header" and "0 \<le> ac_Balance account"
  shows "UnmarshalRlp V (Body_UnmarshalRLPFrom HeaderHash V) (rlp_Marshal S (Body_MarshalRLPWith body)) = Some body \<and>
    UnmarshalRlp V (Receipts_UnmarshalStoreRLPFrom V) (rlp_Marshal S (Receipts_MarshalStoreRLPWith receipts)) = Some receipts \<and>
    UnmarshalRlp V (Header_UnmarshalRLPFrom HeaderHash V) (rlp_Marshal S (Header_MarshalRLPWith header)) = Some header \<and>
    Account_UnmarshalRlp V (rlp_Marshal S (Account_MarshalWith account)) = Some account"
proof (intro conjI)
  note law = rlp_lawsD [OF assms(1)]
  have "map_all (Transaction_UnmarshalStoreRLPFrom V) (map (\<lambda>t. val (Transaction_MarshalStoreRLPWith t)) (bd_Transactions body)) = Some (bd_Transactions body)"
    by (rule map_all_map) (simp add: Transaction_store_roundtrip [OF assms(1)] assms(2))
  then show "UnmarshalRlp V (Body_UnmarshalRLPFrom HeaderHash V) (rlp_Marshal S (Body_MarshalRLPWith body)) = Some body"
    using headers_roundtrip [OF assms(1,3)]
    by (simp add: UnmarshalRlp_def Body_UnmarshalRLPFrom_def Body_MarshalRLPWith_def law list_roundtrip [OF assms(1)] del: if_split)
  have "map_all (Receipt_UnmarshalStoreRLPFrom V) (map (\<lambda>r. val (Receipt_MarshalStoreRLPWith r)) receipts) = Some receipts"
    by (rule map_all_map) (simp add: Receipt_store_roundtrip [OF assms(1)] assms(4))
  then show "UnmarshalRlp V (Receipts_UnmarshalStoreRLPFrom V) (rlp_Marshal S (Receipts_MarshalStoreRLPWith receipts)) = Some receipts"
    by (simp add: UnmarshalRlp_def Receipts_UnmarshalStoreRLPFrom_def Receipts_MarshalStoreRLPWith_def law comp_def)
  show "UnmarshalRlp V (Header_UnmarshalRLPFrom HeaderHash V) (rlp_Marshal S (Header_MarshalRLPWith header)) = Some header"
    by (simp add: UnmarshalRlp_def law Header_roundtrip [OF assms(1,5)])
  show "Account_UnmarshalRlp V (rlp_Marshal S (Account_MarshalWith account)) = Some account"
    using assms(6) by (cases account) (simp add: Account_UnmarshalRlp_def Account_MarshalWith_def law)
qed

text \<open>
  C25. A block sent over the network arrives as it was, but for the senders of its transactions, which are
  not sent: they are zero, and are recovered from the signatures.
\<close>

theorem block_roundtrip:
  assumes "rlp_laws L S V val" and "header_wf HeaderHash (b_Header b)" and "\<forall>t \<in> set (b_Transactions b). tx_wf L S t"
    and "\<forall>h \<in> set (b_Uncles b). header_wf HeaderHash h"
  shows "UnmarshalRlp V (Block_UnmarshalRLPFrom HeaderHash V) (rlp_Marshal S (Block_MarshalRLPWith b)) =
    Some (b\<lparr>b_Transactions := map (\<lambda>t. t\<lparr>t_From := 0\<rparr>) (b_Transactions b)\<rparr>)"
proof -
  have "map_all (Transaction_UnmarshalRLPFrom V) (map (\<lambda>t. val (Transaction_MarshalRLPWith t)) ts) = Some (map (\<lambda>t. t\<lparr>t_From := 0\<rparr>) ts)"
    if "\<forall>t \<in> set ts. tx_wf L S t" for ts
    using that by (induction ts) (simp_all add: Transaction_roundtrip [OF assms(1)])
  from this [OF assms(3)] headers_roundtrip [OF assms(1,4)]
  have "UnmarshalRlp V (Block_UnmarshalRLPFrom HeaderHash V) (rlp_Marshal S (Block_MarshalRLPWith b)) =
    Some \<lparr>b_Header = b_Header b, b_Transactions = map (\<lambda>t. t\<lparr>t_From := 0\<rparr>) (b_Transactions b), b_Uncles = b_Uncles b\<rparr>"
    by (simp add: UnmarshalRlp_def Block_UnmarshalRLPFrom_def Block_MarshalRLPWith_def rlp_lawsD [OF assms(1)]
        list_roundtrip [OF assms(1)] Header_roundtrip [OF assms(1,2)] del: if_split)
  then show ?thesis by (cases b) simp
qed

subsection \<open>A concrete library\<close>

text \<open>An encoder that numbers the values, and the functions that read them.\<close>

instance word :: (len) countable
  by (rule countable_classI [of unat]) (simp add: word_unat_eq_iff)

instance rlp :: countable
  by countable_datatype

definition plain_rlp_sig :: sig_lib where
  "plain_rlp_sig = plain_sig\<lparr>rlp_Marshal := \<lambda>x. nat_Bytes (to_nat x)\<rparr>"

definition plain_rlp :: "rlp rlp_lib" where
  "plain_rlp = \<lparr>
     Parse = (\<lambda>bs. Some (from_nat (nat_SetBytes bs))),
     GetElems = (\<lambda>v. case v of RlpArray xs \<Rightarrow> Some xs | RlpNullArray \<Rightarrow> Some [] | _ \<Rightarrow> None),
     GetUint64 = (\<lambda>v. case v of RlpUint n \<Rightarrow> Some n | RlpBytes bs \<Rightarrow> Some (word_of_nat (nat_SetBytes bs)) | _ \<Rightarrow> None),
     GetBigInt = (\<lambda>v. case v of RlpBigInt i \<Rightarrow> Some \<bar>i\<bar> | _ \<Rightarrow> None),
     Value_Bytes = (\<lambda>v. case v of RlpUint n \<Rightarrow> Some (Bytes (uint n)) | RlpBytes bs \<Rightarrow> Some bs | RlpNull \<Rightarrow> Some [] | _ \<Rightarrow> None),
     GetBytes = (\<lambda>v n. case v of RlpBytes bs \<Rightarrow> if length bs = n then Some bs else None | _ \<Rightarrow> None),
     Value_Hash = (\<lambda>v. Keccak256 plain_crypto (nat_Bytes (to_nat v)))\<rparr>"

lemma plain_rlp_laws: "rlp_laws plain_crypto plain_rlp_sig plain_rlp (\<lambda>v. v)"
  by (simp add: rlp_laws_def plain_rlp_def plain_rlp_sig_def)

definition plain_signed :: Transaction where
  "plain_signed = Transaction_ComputeHash plain_crypto plain_rlp_sig ((plain_tx 27 5 6)\<lparr>t_From := 8\<rparr>)"

definition plain_uncle :: Header where
  "plain_uncle = \<lparr>hd_ParentHash = 0, hd_Sha3Uncles = 0, hd_Miner = [1], hd_StateRoot = 2, hd_TxRoot = 0, hd_ReceiptsRoot = 0,
     hd_LogsBloom = replicate 256 0, hd_Difficulty = 0, hd_Number = 5, hd_GasLimit = 100000, hd_GasUsed = 0, hd_Timestamp = 7,
     hd_ExtraData = [], hd_MixHash = 0, hd_Nonce = 77, hd_Hash = 5\<rparr>"

definition plain_receipt :: Receipt where
  "plain_receipt = empty_receipt\<lparr>rc_Status := Some 1, rc_GasUsed := 21000, rc_ContractAddress := Some 3, rc_TxHash := 9,
     rc_Logs := [\<lparr>l_Address = 1, l_Topics = [2, 3], l_Data = [4]\<rparr>]\<rparr>"

lemma plain_wf:
  "tx_wf plain_crypto plain_rlp_sig plain_signed" "header_wf (\<lambda>h. ucast (hd_Number h)) plain_uncle" "receipt_wf plain_receipt"
  by (simp_all add: tx_wf_def plain_signed_def Transaction_ComputeHash_def Transaction_MarshalRLPWith_def plain_tx_def
      header_wf_def plain_uncle_def receipt_wf_def plain_receipt_def empty_receipt_def)

theorem store_roundtrip_witness:
  "UnmarshalRlp plain_rlp (Body_UnmarshalRLPFrom (\<lambda>h. ucast (hd_Number h)) plain_rlp)
     (rlp_Marshal plain_rlp_sig (Body_MarshalRLPWith \<lparr>bd_Transactions = [plain_signed], bd_Uncles = [plain_uncle]\<rparr>)) =
     Some \<lparr>bd_Transactions = [plain_signed], bd_Uncles = [plain_uncle]\<rparr>"
  using store_roundtrip [OF plain_rlp_laws, of "\<lparr>bd_Transactions = [plain_signed], bd_Uncles = [plain_uncle]\<rparr>" "\<lambda>h. ucast (hd_Number h)"
      "[plain_receipt]" plain_uncle "\<lparr>ac_Nonce = 1, ac_Balance = 100, ac_Root = 9, ac_CodeHash = [1]\<rparr>"] plain_wf
  by simp

theorem block_roundtrip_witness:
  "UnmarshalRlp plain_rlp (Block_UnmarshalRLPFrom (\<lambda>h. ucast (hd_Number h)) plain_rlp)
     (rlp_Marshal plain_rlp_sig (Block_MarshalRLPWith \<lparr>b_Header = plain_uncle, b_Transactions = [plain_signed], b_Uncles = []\<rparr>)) =
     Some \<lparr>b_Header = plain_uncle, b_Transactions = [plain_signed\<lparr>t_From := 0\<rparr>], b_Uncles = []\<rparr>"
  using block_roundtrip [OF plain_rlp_laws, of "\<lambda>h. ucast (hd_Number h)" "\<lparr>b_Header = plain_uncle, b_Transactions = [plain_signed], b_Uncles = []\<rparr>"] plain_wf
  by simp

end
