(* ===== verification/Heap.thy ===== *)
theory Heap
  imports Prelude "HOL-Library.Multiset"
begin

section \<open>Binary heaps (\<^verbatim>\<open>container/heap\<close> of the Go library)\<close>

text \<open>
  The queues of the transaction pool are slices kept in heap order by \<^verbatim>\<open>heap.Push\<close> and \<^verbatim>\<open>heap.Pop\<close>, which call
  the \<open>Less\<close>, \<open>Swap\<close>, \<open>Push\<close> and \<open>Pop\<close> methods of the queue. The functions here have the loops of the library,
  over a list and the order as a function on its elements. The locale \<open>heap_order\<close> has the laws a
  comparison must obey; in it, pushing and popping keep the order and the content, and what is popped is
  least.
\<close>

subsection \<open>The functions\<close>

definition heap_swap :: "'a list \<Rightarrow> nat \<Rightarrow> nat \<Rightarrow> 'a list" where
  "heap_swap xs i j = xs[i := xs ! j, j := xs ! i]"

function up :: "('a \<Rightarrow> 'a \<Rightarrow> bool) \<Rightarrow> 'a list \<Rightarrow> nat \<Rightarrow> 'a list" where
  "up lt xs j =
     (let i = (j - 1) div 2 in
      if i = j \<or> \<not> lt (xs ! j) (xs ! i) then xs else up lt (heap_swap xs i j) i)"
  by pat_completeness auto
termination by (relation "measure (\<lambda>(lt, xs, j). j)") auto

declare up.simps [simp del]

function down :: "('a \<Rightarrow> 'a \<Rightarrow> bool) \<Rightarrow> 'a list \<Rightarrow> nat \<Rightarrow> nat \<Rightarrow> 'a list" where
  "down lt xs i n =
     (let j1 = 2 * i + 1 in
      if j1 \<ge> n then xs
      else let j2 = j1 + 1; j = (if j2 < n \<and> lt (xs ! j2) (xs ! j1) then j2 else j1) in
        if \<not> lt (xs ! j) (xs ! i) then xs else down lt (heap_swap xs i j) j n)"
  by pat_completeness auto
termination by (relation "measure (\<lambda>(lt, xs, i, n). n - i)") (auto simp: Let_def)

declare down.simps [simp del]

definition heap_Push :: "('a \<Rightarrow> 'a \<Rightarrow> bool) \<Rightarrow> 'a list \<Rightarrow> 'a \<Rightarrow> 'a list" where
  "heap_Push lt h x = up lt (h @ [x]) (length h)"

text \<open>The callers make sure that the heap is not empty.\<close>

definition heap_Pop :: "('a \<Rightarrow> 'a \<Rightarrow> bool) \<Rightarrow> 'a list \<Rightarrow> 'a \<times> 'a list" where
  "heap_Pop lt h =
     (let n = length h - 1; h = down lt (heap_swap h 0 n) 0 n in (h ! n, take n h))"

subsection \<open>Content\<close>

lemma length_swap [simp]: "length (heap_swap xs i j) = length xs"
  by (simp add: heap_swap_def)

lemma nth_swap: "i < length xs \<Longrightarrow> j < length xs \<Longrightarrow> k < length xs \<Longrightarrow>
    heap_swap xs i j ! k = (if k = i then xs ! j else if k = j then xs ! i else xs ! k)"
  by (auto simp: heap_swap_def nth_list_update)

lemma mset_swap': "i < length xs \<Longrightarrow> j < length xs \<Longrightarrow> mset (heap_swap xs i j) = mset xs"
  by (simp add: heap_swap_def mset_swap)

lemma up_content:
  assumes "j < length xs"
  shows "mset (up lt xs j) = mset xs \<and> length (up lt xs j) = length xs"
  using assms
proof (induction lt xs j rule: up.induct)
  case (1 lt xs j)
  let ?i = "(j - 1) div 2"
  have "?i < length xs" using 1(2) by auto
  then show ?case using 1 by (simp add: up.simps [of lt xs j] Let_def mset_swap')
qed

text \<open>The heap_child that may move up.\<close>

definition heap_child :: "('a \<Rightarrow> 'a \<Rightarrow> bool) \<Rightarrow> 'a list \<Rightarrow> nat \<Rightarrow> nat \<Rightarrow> nat" where
  "heap_child lt xs i n = (if 2 * i + 2 < n \<and> lt (xs ! (2 * i + 2)) (xs ! (2 * i + 1)) then 2 * i + 2 else 2 * i + 1)"

lemma down_eq:
  "down lt xs i n = (if n \<le> 2 * i + 1 \<or> \<not> lt (xs ! heap_child lt xs i n) (xs ! i) then xs
     else down lt (heap_swap xs i (heap_child lt xs i n)) (heap_child lt xs i n) n)"
  by (subst down.simps) (auto simp: Let_def heap_child_def)

lemma heap_child_less: "2 * i + 1 < n \<Longrightarrow> heap_child lt xs i n < n" and heap_child_gt: "i < heap_child lt xs i n"
  by (auto simp: heap_child_def)

lemma down_induct:
  assumes "\<And>xs i. (2 * i + 1 < n \<Longrightarrow> lt (xs ! heap_child lt xs i n) (xs ! i) \<Longrightarrow>
      P (heap_swap xs i (heap_child lt xs i n)) (heap_child lt xs i n)) \<Longrightarrow> P xs i"
  shows "P xs i"
proof (induction "n - i" arbitrary: xs i rule: less_induct)
  case less
  have "n - heap_child lt xs i n < n - i" if "2 * i + 1 < n" using heap_child_gt [of i lt xs n] that by simp
  then show ?case using less by - (rule assms, simp)
qed

lemma down_content:
  assumes "i < n" and "n \<le> length xs"
  shows "mset (down lt xs i n) = mset xs \<and> length (down lt xs i n) = length xs \<and>
    (\<forall>k. n \<le> k \<longrightarrow> k < length xs \<longrightarrow> down lt xs i n ! k = xs ! k)"
  using assms
proof (induction xs i rule: down_induct [where lt = lt and n = n])
  case (1 xs i)
  let ?j = "heap_child lt xs i n"
  show ?case
  proof (cases "2 * i + 1 < n \<and> lt (xs ! ?j) (xs ! i)")
    case True
    then have "?j < n" by (simp add: heap_child_less)
    then show ?thesis using 1 True by (auto simp: down_eq [of lt xs i n] mset_swap' nth_swap)
  qed (auto simp: down_eq [of lt xs i n])
qed

subsection \<open>Order\<close>

definition parent :: "nat \<Rightarrow> nat" where
  "parent k = (k - 1) div 2"

lemma parent_less: "0 < k \<Longrightarrow> parent k < k"
  by (simp add: parent_def)

lemma parent_0 [simp]: "parent 0 = 0"
  by (simp add: parent_def)

lemma parent_child: "parent (heap_child lt xs i n) = i"
  by (simp add: heap_child_def parent_def)

lemma parentD: "0 < k \<Longrightarrow> parent k = i \<Longrightarrow> k = 2 * i + 1 \<or> k = 2 * i + 2"
  by (simp add: parent_def) linarith

lemma up_eq: "up lt xs j = (if parent j = j \<or> \<not> lt (xs ! j) (xs ! parent j) then xs
    else up lt (heap_swap xs (parent j) j) (parent j))"
  by (simp add: up.simps [of lt xs j] Let_def parent_def)

locale heap_order =
  fixes lt :: "'a \<Rightarrow> 'a \<Rightarrow> bool"
  assumes asym: "lt x y \<Longrightarrow> \<not> lt y x"
    and neg_trans: "\<not> lt y x \<Longrightarrow> \<not> lt z y \<Longrightarrow> \<not> lt z x"
begin

text \<open>The order up to equality, and the heap order on the first elements of a slice.\<close>

definition le :: "'a \<Rightarrow> 'a \<Rightarrow> bool" where
  "le x y \<longleftrightarrow> \<not> lt y x"

definition heap :: "'a list \<Rightarrow> nat \<Rightarrow> bool" where
  "heap xs n \<longleftrightarrow> (\<forall>k. 0 < k \<longrightarrow> k < n \<longrightarrow> le (xs ! parent k) (xs ! k))"

lemma irrefl [simp]: "\<not> lt x x"
  using asym by blast

lemma le_refl [simp]: "le x x"
  by (simp add: le_def)

lemma le_trans [trans]: "le x y \<Longrightarrow> le y z \<Longrightarrow> le x z"
  unfolding le_def by (rule neg_trans)

lemma lt_le: "lt x y \<Longrightarrow> le x y"
  unfolding le_def by (rule asym)

lemma heap_min:
  assumes "heap xs n" and "k < n"
  shows "le (xs ! 0) (xs ! k)"
  using assms(2)
proof (induction k rule: less_induct)
  case (less k)
  show ?case
  proof (cases "k = 0")
    case False
    then have p: "parent k < k" by (simp add: parent_less)
    then have "le (xs ! 0) (xs ! parent k)" using less by simp
    also have "le (xs ! parent k) (xs ! k)" using assms(1) False less.prems by (simp add: heap_def)
    finally show ?thesis .
  qed simp
qed

lemma up_heap:
  assumes "j < length xs"
    and "\<And>k. 0 < k \<Longrightarrow> k < length xs \<Longrightarrow> k \<noteq> j \<Longrightarrow> le (xs ! parent k) (xs ! k)"
    and "\<And>k. 0 < k \<Longrightarrow> k < length xs \<Longrightarrow> parent k = j \<Longrightarrow> 0 < j \<Longrightarrow> le (xs ! parent j) (xs ! k)"
  shows "heap (up lt xs j) (length xs)"
  using assms
proof (induction j arbitrary: xs rule: less_induct)
  case (less j)
  let ?i = "parent j"
  let ?ys = "heap_swap xs ?i j"
  show ?case
  proof (cases "?i = j \<or> \<not> lt (xs ! j) (xs ! ?i)")
    case True
    then have "le (xs ! parent k) (xs ! k)" if "0 < k" "k < length xs" for k
      using that less.prems(2) [of k] parent_less [of k] by (cases "k = j") (auto simp: le_def)
    then show ?thesis using True by (simp add: up_eq [of lt xs j] heap_def)
  next
    case False
    then have j: "?i < j" using parent_less [of j] by (cases "j = 0") auto
    have lt: "le (xs ! j) (xs ! ?i)" using False lt_le by blast
    have ys: "?ys ! k = (if k = ?i then xs ! j else if k = j then xs ! ?i else xs ! k)" if "k < length xs" for k
      using that j less.prems(1) by (simp add: nth_swap)
    have i: "le (xs ! parent ?i) (xs ! ?i)" if "0 < ?i" using that j less.prems(1) less.prems(2) [of ?i] by simp
    have "heap (up lt ?ys ?i) (length ?ys)"
    proof (rule less.IH [OF j])
      show "?i < length ?ys" using j less.prems(1) by simp
    next
      fix k assume k: "0 < k" "k < length ?ys" "k \<noteq> ?i"
      have p: "parent k < k" using k(1) by (rule parent_less)
      show "le (?ys ! parent k) (?ys ! k)"
        using k p lt j less.prems(2) [of k] less.prems(3) [of k] le_trans [OF lt]
        by (cases "k = j") (auto simp: ys)
    next
      fix k assume k: "0 < k" "k < length ?ys" "parent k = ?i" "0 < ?i"
      have "parent ?i < ?i" using k(4) by (rule parent_less)
      then show "le (?ys ! parent ?i) (?ys ! k)"
        using k i [OF k(4)] j less.prems(1) less.prems(2) [of k] le_trans [OF i [OF k(4)]] parent_less [OF k(1)]
        by (cases "k = j") (auto simp: ys)
    qed
    then show ?thesis using False by (simp add: up_eq [of lt xs j])
  qed
qed

lemma down_heap:
  assumes "i < n" and "n \<le> length xs"
    and "\<And>k. 0 < k \<Longrightarrow> k < n \<Longrightarrow> parent k \<noteq> i \<Longrightarrow> le (xs ! parent k) (xs ! k)"
    and "\<And>k. 0 < k \<Longrightarrow> k < n \<Longrightarrow> parent k = i \<Longrightarrow> 0 < i \<Longrightarrow> le (xs ! parent i) (xs ! k)"
  shows "heap (down lt xs i n) n"
  using assms
proof (induction xs i rule: down_induct [where lt = lt and n = n])
  case (1 xs i)
  let ?j = "heap_child lt xs i n"
  let ?ys = "heap_swap xs i ?j"
  have best: "le (xs ! ?j) (xs ! k)" if "0 < k" "k < n" "parent k = i" for k
    using parentD [OF that(1,3)] that(2) asym [of "xs ! (2 * i + 2)" "xs ! (2 * i + 1)"]
    by (elim disjE) (simp_all add: heap_child_def le_def)
  show ?case
  proof (cases "2 * i + 1 < n \<and> lt (xs ! ?j) (xs ! i)")
    case False
    have "le (xs ! parent k) (xs ! k)" if k: "0 < k" "k < n" for k
    proof (cases "parent k = i")
      case True
      then have "le (xs ! i) (xs ! ?j)" using False parentD [OF k(1) True] k(2) by (elim disjE) (simp_all add: le_def)
      then show ?thesis using True best [OF k True] le_trans by blast
    qed (rule "1.prems"(3) [OF k])
    then show ?thesis using False by (auto simp: down_eq [of lt xs i n] heap_def)
  next
    case True
    then have j: "?j < n" "i < ?j" by (simp_all add: heap_child_less heap_child_gt)
    have lt: "le (xs ! ?j) (xs ! i)" using True lt_le by blast
    have ys: "?ys ! k = (if k = i then xs ! ?j else if k = ?j then xs ! i else xs ! k)" if "k < n" for k
      using that j "1.prems"(1,2) by (simp add: nth_swap)
    have "heap (down lt ?ys ?j n) n"
    proof (rule "1.IH")
      show "2 * i + 1 < n" "lt (xs ! ?j) (xs ! i)" using True by auto
      show "?j < n" "n \<le> length ?ys" using j "1.prems"(2) by auto
    next
      fix k assume k: "0 < k" "k < n" "parent k \<noteq> ?j"
      have p: "parent k < k" using k(1) by (rule parent_less)
      show "le (?ys ! parent k) (?ys ! k)"
      proof (cases "k = ?j")
        case True
        then show ?thesis using lt j k p "1.prems"(1) parent_child [of lt xs i n] by (simp add: ys)
      next
        case False
        consider "k = i" | "k \<noteq> i" "parent k = i" | "k \<noteq> i" "parent k \<noteq> i" by blast
        then show ?thesis
        proof cases
          case 1
          then have "le (xs ! parent i) (xs ! ?j)"
            using j k by (intro "1.prems"(4)) (simp_all add: parent_child)
          then show ?thesis using 1 k p by (simp add: ys)
        next
          case 2
          then show ?thesis using False best [OF k(1,2)] k p by (simp add: ys)
        next
          case 3
          then show ?thesis using False "1.prems"(3) [OF k(1,2)] k p by (simp add: ys)
        qed
      qed
    next
      fix k assume k: "0 < k" "k < n" "parent k = ?j" "0 < ?j"
      then show "le (?ys ! parent ?j) (?ys ! k)"
        using "1.prems"(3) [OF k(1,2)] j "1.prems"(1) parent_child [of lt xs i n] parent_less [OF k(1)]
        by (simp add: ys)
    qed
    then show ?thesis using True by (simp add: down_eq [of lt xs i n])
  qed
qed

text \<open>What the two entry points of the library do to a slice in heap order.\<close>

definition valid :: "'a list \<Rightarrow> bool" where
  "valid xs \<longleftrightarrow> heap xs (length xs)"

lemma valid_Nil [simp]: "valid []"
  by (simp add: valid_def heap_def)

lemma valid_min: "valid h \<Longrightarrow> x \<in> set h \<Longrightarrow> le (h ! 0) x"
  by (auto simp: valid_def in_set_conv_nth intro: heap_min)

lemma heap_Push_valid:
  assumes "valid h"
  shows "valid (heap_Push lt h x)"
proof -
  have p: "parent k < length h" if "0 < k" "k < Suc (length h)" for k using that parent_less [of k] by simp
  have "heap (up lt (h @ [x]) (length h)) (length (h @ [x]))"
  proof (rule up_heap)
    fix k assume k: "0 < k" "k < length (h @ [x])"
    show "le ((h @ [x]) ! parent k) ((h @ [x]) ! k)" if "k \<noteq> length h"
      using k p [of k] that assms by (simp add: nth_append valid_def heap_def)
    show "le ((h @ [x]) ! parent (length h)) ((h @ [x]) ! k)" if "parent k = length h"
      using k p [of k] that by simp
  qed simp
  then show ?thesis by (simp add: valid_def heap_Push_def up_content)
qed

lemma heap_Pop_valid:
  assumes "valid h" and "h \<noteq> []"
  shows "valid (snd (heap_Pop lt h))"
proof (cases "length h = 1")
  case True
  then show ?thesis by (simp add: heap_Pop_def Let_def valid_def heap_def)
next
  case False
  define n where "n = length h - 1"
  let ?ys = "heap_swap h 0 n"
  have n: "0 < n" "n < length h" "0 < length h" using False assms(2) by (cases h; auto simp: n_def)+
  have ys: "?ys ! k = h ! k" if "0 < k" "k < n" for k using that n by (simp add: nth_swap)
  have "heap (down lt ?ys 0 n) n"
  proof (rule down_heap)
    fix k assume k: "0 < k" "k < n" "parent k \<noteq> 0"
    then show "le (?ys ! parent k) (?ys ! k)"
      using assms(1) n parent_less [OF k(1)] by (simp add: ys valid_def heap_def)
  qed (use n in auto)
  moreover have "snd (heap_Pop lt h) = take n (down lt ?ys 0 n)" by (simp add: heap_Pop_def Let_def n_def)
  moreover have "parent k < n" if "0 < k" "k < n" for k using that parent_less [of k] by simp
  ultimately show ?thesis using n down_content [of 0 n ?ys lt]
    by (simp add: valid_def heap_def min_def)
qed

end

lemma heap_Push_mset [simp]: "mset (heap_Push lt h x) = add_mset x (mset h)"
  by (simp add: heap_Push_def up_content)

lemma heap_Pop_eq:
  assumes "h \<noteq> []"
  shows "fst (heap_Pop lt h) = h ! 0" and "add_mset (h ! 0) (mset (snd (heap_Pop lt h))) = mset h"
proof -
  define n where "n = length h - 1"
  let ?ys = "heap_swap h 0 n"
  let ?d = "down lt ?ys 0 n"
  have n: "n < length h" "0 < length h" using assms by (cases h; simp add: n_def)+
  have d: "mset ?d = mset h \<and> length ?d = length h \<and> ?d ! n = h ! 0"
  proof (cases "n = 0")
    case True
    then show ?thesis using n by (simp add: down_eq [of lt "heap_swap h 0 0" 0 0] mset_swap' nth_swap)
  next
    case False
    then show ?thesis using n down_content [of 0 n ?ys lt] by (simp add: mset_swap' nth_swap)
  qed
  then show "fst (heap_Pop lt h) = h ! 0" by (simp add: heap_Pop_def Let_def n_def)
  have "?d = take n ?d @ [h ! 0]" using d n take_Suc_conv_app_nth [of n ?d] by (simp add: n_def)
  then have "mset ?d = add_mset (h ! 0) (mset (take n ?d))" by (metis mset_append mset.simps add_mset_add_single)
  then show "add_mset (h ! 0) (mset (snd (heap_Pop lt h))) = mset h" using d by (simp add: heap_Pop_def Let_def n_def)
qed

end
