(* ===== verification/TxQueue.thy ===== *)
theory TxQueue
  imports RLP Heap
begin

section \<open>Accounts of the transaction pool (\<^verbatim>\<open>txpool/queue.go\<close>, \<^verbatim>\<open>account.go\<close>, \<^verbatim>\<open>slot_gauge.go\<close>, \<^verbatim>\<open>lookup_map.go\<close>)\<close>

text \<open>
  The pool keeps two queues for each sender: transactions that wait for an earlier nonce
  (\<open>enqueued\<close>), and transactions ready for a block (\<open>promoted\<close>). Both are heaps ordered by nonce;
  the heads of the promoted queues are ordered by price in a third heap. The locks of a queue are
  left out: every definition is what one goroutine does while it holds them.
\<close>

subsection \<open>The two orders\<close>

definition minNonceQueue_Less :: "Transaction \<Rightarrow> Transaction \<Rightarrow> bool" where
  "minNonceQueue_Less a b =
     (if t_Nonce a = t_Nonce b then t_GasPrice b < t_GasPrice a else t_Nonce a < t_Nonce b)"

definition maxPriceQueue_Less :: "Transaction \<Rightarrow> Transaction \<Rightarrow> bool" where
  "maxPriceQueue_Less a b \<longleftrightarrow> Uint64 (t_GasPrice b) < Uint64 (t_GasPrice a)"

interpretation nonces: heap_order minNonceQueue_Less
  by unfold_locales (auto simp: minNonceQueue_Less_def split: if_splits)

interpretation prices: heap_order maxPriceQueue_Less
  by unfold_locales (auto simp: maxPriceQueue_Less_def)

lemma nonces_le_Nonce: "nonces.le x y \<Longrightarrow> t_Nonce x \<le> t_Nonce y"
  by (auto simp: nonces.le_def minNonceQueue_Less_def split: if_splits)

lemma nonces_le_GasPrice: "nonces.le x y \<Longrightarrow> t_Nonce x = t_Nonce y \<Longrightarrow> t_GasPrice y \<le> t_GasPrice x"
  by (auto simp: nonces.le_def minNonceQueue_Less_def)

lemma prices_le: "prices.le x y \<longleftrightarrow> Uint64 (t_GasPrice y) \<le> Uint64 (t_GasPrice x)"
  by (auto simp: prices.le_def maxPriceQueue_Less_def)

subsection \<open>\<^verbatim>\<open>accountQueue\<close> and \<^verbatim>\<open>pricedQueue\<close>\<close>

type_synonym accountQueue = "Transaction list"
type_synonym pricedQueue = "Transaction list"

definition accountQueue_length :: "accountQueue \<Rightarrow> uint64" where
  "accountQueue_length q = word_of_nat (length q)"

definition accountQueue_push :: "accountQueue \<Rightarrow> Transaction \<Rightarrow> accountQueue" where
  "accountQueue_push q tx = heap_Push minNonceQueue_Less q tx"

definition accountQueue_peek :: "accountQueue \<Rightarrow> Transaction option" where
  "accountQueue_peek q = (if q = [] then None else Some (q ! 0))"

definition accountQueue_pop :: "accountQueue \<Rightarrow> Transaction option \<times> accountQueue" where
  "accountQueue_pop q =
     (if q = [] then (None, q) else let (tx, q) = heap_Pop minNonceQueue_Less q in (Some tx, q))"

lemma length_heap_Pop [simp]: "h \<noteq> [] \<Longrightarrow> length (snd (heap_Pop lt h)) = length h - 1"
  using heap_Pop_eq(2) [of h lt] by (metis size_mset size_add_mset diff_Suc_1)

function prune :: "accountQueue \<Rightarrow> uint64 \<Rightarrow> Transaction list \<times> accountQueue" where
  "prune q nonce =
     (case accountQueue_peek q of
        None \<Rightarrow> ([], q)
      | Some tx \<Rightarrow>
          if nonce \<le> t_Nonce tx then ([], q)
          else let (popped, q) = accountQueue_pop q; (pruned, q) = prune q nonce
               in (the popped # pruned, q))"
  by pat_completeness auto
termination
  by (relation "measure (length \<circ> fst)")
    (auto simp: accountQueue_peek_def accountQueue_pop_def case_prod_beta split: if_splits)

declare prune.simps [simp del]

definition clear :: "accountQueue \<Rightarrow> Transaction list \<times> accountQueue" where
  "clear q = (q, [])"

definition pricedQueue_push :: "pricedQueue \<Rightarrow> Transaction \<Rightarrow> pricedQueue" where
  "pricedQueue_push q tx = heap_Push maxPriceQueue_Less q tx"

definition pricedQueue_pop :: "pricedQueue \<Rightarrow> Transaction option \<times> pricedQueue" where
  "pricedQueue_pop q =
     (if q = [] then (None, q) else let (tx, q) = heap_Pop maxPriceQueue_Less q in (Some tx, q))"

subsection \<open>\<^verbatim>\<open>account\<close>\<close>

record account =
  pa_enqueued :: accountQueue
  pa_promoted :: accountQueue
  pa_nextNonce :: uint64
  pa_demotions :: uint64
  pa_skips :: uint64
  pa_maxEnqueued :: uint64

datatype pool_error =
  ErrIntrinsicGas | ErrBlockLimitExceeded | ErrNegativeValue | ErrExtractSignature | ErrInvalidSender
  | ErrTxPoolOverflow | ErrUnderpriced | ErrNonceTooLow | ErrInsufficientFunds | ErrInvalidAccountState
  | ErrAlreadyKnown | ErrOversizedData | ErrMaxEnqueuedLimitReached | ErrRejectFutureTx
  | ErrSmartContractRestricted | ErrGasCost

text \<open>
  \<open>account_reset\<close> returns the pruned transactions of both queues, whether a promotion is
  signalled (and for which sender), and the account.
\<close>

definition account_reset ::
  "uint64 \<Rightarrow> account \<Rightarrow> Transaction list \<times> Transaction list \<times> Address option \<times> account" where
  "account_reset nonce a =
     (let (prunedPromoted, promoted) = prune (pa_promoted a) nonce; a = a\<lparr>pa_promoted := promoted\<rparr>
      in if nonce \<le> pa_nextNonce a then (prunedPromoted, [], None, a)
         else let (prunedEnqueued, enqueued) = prune (pa_enqueued a) nonce;
                  a = a\<lparr>pa_enqueued := enqueued, pa_nextNonce := nonce\<rparr>
              in (prunedPromoted, prunedEnqueued,
                  case accountQueue_peek enqueued of
                    None \<Rightarrow> None
                  | Some first \<Rightarrow> if t_Nonce first = nonce then Some (t_From first) else None,
                  a))"

definition account_enqueue :: "Transaction \<Rightarrow> account \<Rightarrow> pool_error + account" where
  "account_enqueue tx a =
     (if accountQueue_length (pa_enqueued a) = pa_maxEnqueued a then Inl ErrMaxEnqueuedLimitReached
      else if t_Nonce tx < pa_nextNonce a then Inl ErrNonceTooLow
      else Inr (a\<lparr>pa_enqueued := accountQueue_push (pa_enqueued a) tx\<rparr>))"

lemma length_prune: "length (snd (prune q nonce)) \<le> length q"
proof (induction q nonce rule: prune.induct)
  case (1 q nonce)
  show ?case
  proof (cases "q = [] \<or> nonce \<le> t_Nonce (q ! 0)")
    case True
    then show ?thesis by (auto simp: prune.simps [of q] accountQueue_peek_def)
  next
    case False
    then have "length (snd (prune (snd (heap_Pop minNonceQueue_Less q)) nonce)) \<le> length q - 1"
      using 1 [of "q ! 0"] by (simp add: accountQueue_peek_def accountQueue_pop_def case_prod_beta)
    then show ?thesis using False
      by (simp add: prune.simps [of q] accountQueue_peek_def accountQueue_pop_def case_prod_beta)
  qed
qed

text \<open>The loop of \<open>promote\<close>: promoted and pruned transactions, the queues, the next nonce.\<close>

function promote_loop :: "accountQueue \<Rightarrow> accountQueue \<Rightarrow> uint64 \<Rightarrow>
    Transaction list \<times> Transaction list \<times> accountQueue \<times> accountQueue \<times> uint64" where
  "promote_loop enqueued promoted nextNonce =
     (case accountQueue_peek enqueued of
        None \<Rightarrow> ([], [], enqueued, promoted, nextNonce)
      | Some tx \<Rightarrow>
          if t_Nonce tx \<noteq> nextNonce then ([], [], enqueued, promoted, nextNonce)
          else let (popped, enqueued) = accountQueue_pop enqueued;
                   tx = the popped;
                   promoted = accountQueue_push promoted tx;
                   nextNonce = t_Nonce tx + 1;
                   (pruned, enqueued) = prune enqueued nextNonce;
                   (ps, prs, r) = promote_loop enqueued promoted nextNonce
               in (tx # ps, pruned @ prs, r))"
  by pat_completeness auto
termination
proof (relation "measure (length \<circ> fst)", goal_cases)
  case (2 enq prom nonce tx y popped enq' tx' prom' nonce' z pruned enq'')
  then have "length enq'' \<le> length enq'" using length_prune [of enq' nonce'] by (metis snd_conv)
  moreover have "length enq' < length enq" using 2
    by (auto simp: accountQueue_peek_def accountQueue_pop_def case_prod_beta split: if_splits)
  ultimately show ?case by simp
qed simp

declare promote_loop.simps [simp del]

definition account_promote :: "account \<Rightarrow> Transaction list \<times> Transaction list \<times> account" where
  "account_promote a =
     (case accountQueue_peek (pa_enqueued a) of
        None \<Rightarrow> ([], [], a)
      | Some first \<Rightarrow>
          if pa_nextNonce a < t_Nonce first then ([], [], a)
          else let (promoted, pruned, enq, prom, nextNonce) =
                     promote_loop (pa_enqueued a) (pa_promoted a) (t_Nonce first);
                   a' = a\<lparr>pa_enqueued := enq, pa_promoted := prom\<rparr>
               in (promoted, pruned,
                   if pa_nextNonce a < nextNonce then a'\<lparr>pa_nextNonce := nextNonce\<rparr> else a'))"

definition getLowestTx :: "account \<Rightarrow> Transaction option" where
  "getLowestTx a =
     (case accountQueue_peek (pa_promoted a) of
        Some firstPromoted \<Rightarrow> Some firstPromoted
      | None \<Rightarrow> accountQueue_peek (pa_enqueued a))"

subsection \<open>\<^verbatim>\<open>slotGauge\<close> and \<^verbatim>\<open>lookupMap\<close>\<close>

text \<open>
  \<^verbatim>\<open>Transaction.Size\<close> caches the length of the encoding, whose fields do not change once the
  transaction is in the pool.
\<close>

definition Transaction_Size :: "sig_lib \<Rightarrow> Transaction \<Rightarrow> uint64" where
  "Transaction_Size S tx = word_of_nat (length (Transaction_MarshalRLP S tx))"

definition txSlotSize :: uint64 where
  "txSlotSize = 32 * 1024"

definition txMaxSize :: uint64 where
  "txMaxSize = 128 * 1024"

record slotGauge =
  sg_height :: uint64
  sg_max :: uint64

definition gauge_increase :: "uint64 \<Rightarrow> slotGauge \<Rightarrow> slotGauge" where
  "gauge_increase slots g = g\<lparr>sg_height := sg_height g + slots\<rparr>"

definition gauge_decrease :: "uint64 \<Rightarrow> slotGauge \<Rightarrow> slotGauge" where
  "gauge_decrease slots g = g\<lparr>sg_height := sg_height g + NOT (slots - 1)\<rparr>"

definition highPressure :: "slotGauge \<Rightarrow> bool" where
  "highPressure g \<longleftrightarrow> (80 * sg_max g) div 100 < sg_height g"

definition slotsRequired :: "sig_lib \<Rightarrow> Transaction list \<Rightarrow> uint64" where
  "slotsRequired S txs =
     foldl (\<lambda>slots tx. slots + (Transaction_Size S tx + txSlotSize - 1) div txSlotSize) 0 txs"

type_synonym lookupMap = "Hash \<rightharpoonup> Transaction"

definition index_add :: "Transaction \<Rightarrow> lookupMap \<Rightarrow> lookupMap option" where
  "index_add tx m = (if m (t_Hash tx) \<noteq> None then None else Some (m(t_Hash tx \<mapsto> tx)))"

definition index_remove :: "Transaction list \<Rightarrow> lookupMap \<Rightarrow> lookupMap" where
  "index_remove txs m = foldl (\<lambda>m tx. m(t_Hash tx := None)) m txs"

lemma gauge_decrease: "gauge_decrease slots g = g\<lparr>sg_height := sg_height g - slots\<rparr>"
  by (simp add: gauge_decrease_def not_eq_complement)

lemma slotsRequired_mset:
  "slotsRequired S txs = (\<Sum>tx \<in># mset txs. (Transaction_Size S tx + txSlotSize - 1) div txSlotSize)"
proof -
  have "foldl (\<lambda>slots tx. slots + f tx) n txs = n + (\<Sum>tx \<in># mset txs. f tx)" for f :: "Transaction \<Rightarrow> uint64" and n
    by (induction txs arbitrary: n) (simp_all add: algebra_simps)
  then show ?thesis by (simp add: slotsRequired_def)
qed

lemma slotsRequired_Nil [simp]: "slotsRequired S [] = 0"
  by (simp add: slotsRequired_mset)

lemma index_remove: "index_remove txs m h = (if h \<in> t_Hash ` set txs then None else m h)"
  by (induction txs arbitrary: m) (auto simp: index_remove_def)

subsection \<open>What the queues hold\<close>

lemma accountQueue_push [simp]:
  "mset (accountQueue_push q tx) = add_mset tx (mset q)"
  "nonces.valid q \<Longrightarrow> nonces.valid (accountQueue_push q tx)"
  by (simp_all add: accountQueue_push_def nonces.heap_Push_valid)

lemma set_accountQueue_push [simp]: "set (accountQueue_push q tx) = insert tx (set q)"
  using accountQueue_push(1) [of q tx] by (metis set_mset_mset set_mset_add_mset_insert)

lemma accountQueue_popE:
  assumes "accountQueue_pop q = (popped, q')" and "q \<noteq> []"
  obtains "popped = Some (q ! 0)" and "mset q = add_mset (q ! 0) (mset q')"
    and "nonces.valid q \<Longrightarrow> nonces.valid q'"
  using assms heap_Pop_eq [of q minNonceQueue_Less] nonces.heap_Pop_valid [of q]
  by (auto simp: accountQueue_pop_def case_prod_beta)

lemma valid_head:
  assumes "nonces.valid q" and "accountQueue_peek q = Some tx" and "t \<in> set q"
  shows "t_Nonce tx \<le> t_Nonce t" and "t_Nonce t = t_Nonce tx \<Longrightarrow> t_GasPrice t \<le> t_GasPrice tx"
  using nonces.valid_min [OF assms(1,3)] assms(2) nonces_le_Nonce nonces_le_GasPrice
  by (auto simp: accountQueue_peek_def split: if_splits)

lemma prune_spec:
  assumes "nonces.valid q"
  shows "nonces.valid (snd (prune q n)) \<and>
    mset (fst (prune q n)) = filter_mset (\<lambda>t. t_Nonce t < n) (mset q) \<and>
    mset (snd (prune q n)) = filter_mset (\<lambda>t. n \<le> t_Nonce t) (mset q)"
  using assms
proof (induction q n rule: prune.induct)
  case (1 q n)
  show ?case
  proof (cases "q = [] \<or> n \<le> t_Nonce (q ! 0)")
    case True
    have "n \<le> t_Nonce t" if "t \<in> set q" for t
      using True that valid_head(1) [OF "1.prems" _ that, of "q ! 0"]
      by (cases "q = []") (simp_all add: accountQueue_peek_def)
    then have "mset (filter (\<lambda>t. t_Nonce t < n) q) = {#}" "mset (filter (\<lambda>t. n \<le> t_Nonce t) q) = mset q"
      by (auto simp del: mset_filter simp: filter_empty_conv leD)
    moreover have "prune q n = ([], q)" using True by (auto simp: prune.simps [of q] accountQueue_peek_def)
    ultimately show ?thesis using "1.prems" by simp
  next
    case False
    obtain popped q' where pop: "accountQueue_pop q = (popped, q')" by fastforce
    obtain "popped = Some (q ! 0)" and q: "mset q = add_mset (q ! 0) (mset q')" and "nonces.valid q'"
      using accountQueue_popE [OF pop] False "1.prems" by blast
    moreover have "prune q n = (q ! 0 # fst (prune q' n), snd (prune q' n))"
      using False pop \<open>popped = _\<close> by (simp add: prune.simps [of q] accountQueue_peek_def case_prod_beta)
    ultimately show ?thesis using False "1.IH" [of "q ! 0"] pop
      by (simp add: accountQueue_peek_def q not_le)
  qed
qed

lemma prune_valid [simp]: "nonces.valid q \<Longrightarrow> nonces.valid (snd (prune q n))"
  using prune_spec by blast

lemma mset_prune:
  assumes "nonces.valid q"
  shows "mset q = mset (fst (prune q n)) + mset (snd (prune q n))"
  using prune_spec [OF assms, of n] multiset_partition [of "mset q" "\<lambda>t. t_Nonce t < n"] by (simp add: not_less)

lemma set_prune:
  assumes "nonces.valid q"
  shows "set (fst (prune q n)) = {t \<in> set q. t_Nonce t < n}" and "set (snd (prune q n)) = {t \<in> set q. n \<le> t_Nonce t}"
  using prune_spec [OF assms, of n] by (metis set_mset_filter set_mset_mset)+

subsection \<open>The invariant of an account\<close>

text \<open>
  The queue of waiting transactions has nothing below the next nonce; the nonces of the promoted
  transactions are a run that ends just below it, each once. The largest nonce, after which
  \<^verbatim>\<open>tx.Nonce + 1\<close> wraps to 0, is left out.
\<close>

abbreviation last_nonce :: uint64 where
  "last_nonce \<equiv> 0xFFFFFFFFFFFFFFFF"

definition account_inv :: "Address \<Rightarrow> account \<Rightarrow> bool" where
  "account_inv addr a \<longleftrightarrow>
     nonces.valid (pa_enqueued a) \<and> nonces.valid (pa_promoted a) \<and>
     (\<forall>t \<in> set (pa_enqueued a) \<union> set (pa_promoted a). t_From t = addr \<and> t_Nonce t \<noteq> last_nonce) \<and>
     (\<forall>t \<in> set (pa_enqueued a). pa_nextNonce a \<le> t_Nonce t) \<and>
     (\<exists>m \<le> unat (pa_nextNonce a).
        image_mset (unat \<circ> t_Nonce) (mset (pa_promoted a)) = mset [m..<unat (pa_nextNonce a)])"

lemma nonce_Suc: "n \<noteq> last_nonce \<Longrightarrow> unat (n + 1) = Suc (unat n)"
proof -
  assume "n \<noteq> last_nonce"
  then have "unat n \<noteq> 2 ^ 64 - 1" by (simp add: word_unat_eq_iff)
  then have "unat n + 1 < 2 ^ 64" using unat_uint64_less [of n] by linarith
  then show ?thesis by (simp add: unat_word_ariths)
qed

lemma promote_loop_spec:
  assumes "nonces.valid enq" and "nonces.valid prom" and "\<forall>t \<in> set enq. n \<le> t_Nonce t \<and> t_Nonce t \<noteq> last_nonce"
    and "promote_loop enq prom n = (ps, prs, enq', prom', n')"
  shows "nonces.valid enq' \<and> nonces.valid prom' \<and> n \<le> n' \<and> map (unat \<circ> t_Nonce) ps = [unat n..<unat n'] \<and>
    mset prom' = mset prom + mset ps \<and> mset enq = mset ps + mset prs + mset enq' \<and>
    (\<forall>t \<in> set enq'. n' < t_Nonce t) \<and>
    (\<forall>t \<in> set prs. \<exists>u \<in> set ps. t_Nonce u = t_Nonce t \<and> t_GasPrice t \<le> t_GasPrice u)"
  using assms
proof (induction enq prom n arbitrary: ps prs rule: promote_loop.induct)
  case (1 enq prom n)
  show ?case
  proof (cases "enq = [] \<or> t_Nonce (enq ! 0) \<noteq> n")
    case True
    then have r: "promote_loop enq prom n = ([], [], enq, prom, n)"
      by (auto simp: promote_loop.simps [of enq] accountQueue_peek_def)
    have "n < t_Nonce t" if t: "t \<in> set enq" for t
    proof -
      have "enq \<noteq> []" and "enq ! 0 \<in> set enq" using t by (cases enq; auto)+
      then have "n < t_Nonce (enq ! 0)" using True "1.prems"(3) by (auto simp: order_less_le)
      then show ?thesis using valid_head(1) [OF "1.prems"(1) _ t, of "enq ! 0"] \<open>enq \<noteq> []\<close>
        by (simp add: accountQueue_peek_def)
    qed
    then show ?thesis using "1.prems" r by auto
  next
    case False
    then have peek: "accountQueue_peek enq = Some (enq ! 0)" and n: "t_Nonce (enq ! 0) = n" and in': "enq ! 0 \<in> set enq"
      by (auto simp: accountQueue_peek_def)
    obtain popped q where pop: "accountQueue_pop enq = (popped, q)" by fastforce
    obtain popped': "popped = Some (enq ! 0)" and q: "mset enq = add_mset (enq ! 0) (mset q)" and "nonces.valid q"
      using accountQueue_popE [OF pop] False "1.prems" by blast
    obtain pruned q' where prune: "prune q (n + 1) = (pruned, q')" by fastforce
    obtain ps' prs' r where loop: "promote_loop q' (accountQueue_push prom (enq ! 0)) (n + 1) = (ps', prs', r)"
      using prod_cases3 by blast
    have ps: "r = (enq', prom', n')" "ps = enq ! 0 # ps'" "prs = pruned @ prs'"
      using "1.prems"(4) False pop popped' n prune loop
      by (simp_all add: promote_loop.simps [of enq] peek Let_def)
    have max: "n \<noteq> last_nonce" using "1.prems"(3) in' n by blast
    have q'_set: "set q' = {t \<in> set q. n + 1 \<le> t_Nonce t}" "set pruned = {t \<in> set q. t_Nonce t < n + 1}"
      using set_prune [OF \<open>nonces.valid q\<close>, of "n + 1"] prune by simp_all
    have sub: "set q \<subseteq> set enq" using q by (metis set_mset_mset set_mset_add_mset_insert subset_insertI)
    have ih: "nonces.valid enq' \<and> nonces.valid prom' \<and> n + 1 \<le> n' \<and> map (unat \<circ> t_Nonce) ps' = [unat (n + 1)..<unat n'] \<and>
      mset prom' = mset (accountQueue_push prom (enq ! 0)) + mset ps' \<and> mset q' = mset ps' + mset prs' + mset enq' \<and>
      (\<forall>t \<in> set enq'. n' < t_Nonce t) \<and>
      (\<forall>t \<in> set prs'. \<exists>u \<in> set ps'. t_Nonce u = t_Nonce t \<and> t_GasPrice t \<le> t_GasPrice u)"
    proof (rule "1.IH" [OF peek _ pop [symmetric] HOL.refl HOL.refl])
      show "\<not> t_Nonce (enq ! 0) \<noteq> n" using n by simp
    qed (use prune \<open>nonces.valid q\<close> prune_valid [of q "n + 1"] popped' n q'_set sub "1.prems" loop ps(1) in auto)
    have same: "t_Nonce t = n \<and> t_GasPrice t \<le> t_GasPrice (enq ! 0)" if "t \<in> set pruned" for t
    proof -
      have t: "t \<in> set enq" "t_Nonce t < n + 1" using that q'_set sub by auto
      then have "unat (t_Nonce t) < Suc (unat n)" "n \<le> t_Nonce t"
        using nonce_Suc [OF max] "1.prems"(3) by (auto simp: word_less_nat_alt)
      then have "t_Nonce t = n" by (simp add: word_le_nat_alt word_unat_eq_iff)
      then show ?thesis using valid_head(2) [OF "1.prems"(1) peek t(1)] n by simp
    qed
    have "unat n < unat n'" using ih nonce_Suc [OF max] by (simp add: word_le_nat_alt)
    then have "[unat n..<unat n'] = unat n # [unat (n + 1)..<unat n']"
      by (simp add: upt_conv_Cons nonce_Suc [OF max])
    moreover have "mset q = mset pruned + mset q'" using mset_prune [OF \<open>nonces.valid q\<close>, of "n + 1"] prune by simp
    ultimately show ?thesis using ih ps n same q \<open>unat n < unat n'\<close>
      by (auto simp: word_le_nat_alt comp_def)
  qed
qed

lemma account_inv_promote:
  assumes inv: "account_inv addr a" and promote: "account_promote a = (ps, prs, a')"
  shows "account_inv addr a' \<and> map (unat \<circ> t_Nonce) ps = [unat (pa_nextNonce a)..<unat (pa_nextNonce a')] \<and>
    mset (pa_promoted a') = mset (pa_promoted a) + mset ps \<and>
    mset (pa_enqueued a) = mset ps + mset prs + mset (pa_enqueued a') \<and>
    (\<forall>t \<in> set (pa_enqueued a'). pa_nextNonce a' < t_Nonce t) \<and>
    (\<forall>t \<in> set prs. \<exists>u \<in> set ps. t_Nonce u = t_Nonce t \<and> t_GasPrice t \<le> t_GasPrice u)"
proof -
  let ?N = "pa_nextNonce a"
  show ?thesis
  proof (cases "pa_enqueued a = [] \<or> ?N < t_Nonce (pa_enqueued a ! 0)")
    case True
    then have r: "ps = []" "prs = []" "a' = a"
      using promote by (auto simp: account_promote_def accountQueue_peek_def split: if_splits option.splits)
    have "?N < t_Nonce t" if t: "t \<in> set (pa_enqueued a)" for t
    proof -
      have "pa_enqueued a \<noteq> []" using t by auto
      then have "t_Nonce (pa_enqueued a ! 0) \<le> t_Nonce t"
        using inv t by (intro valid_head(1)) (simp_all add: account_inv_def accountQueue_peek_def)
      then show ?thesis using True \<open>pa_enqueued a \<noteq> []\<close> by auto
    qed
    then show ?thesis using inv r by simp
  next
    case False
    then have "pa_enqueued a ! 0 \<in> set (pa_enqueued a)" by simp
    then have "?N \<le> t_Nonce (pa_enqueued a ! 0)" using inv unfolding account_inv_def by blast
    then have N: "t_Nonce (pa_enqueued a ! 0) = ?N" using False by auto
    obtain enq prom n where loop: "promote_loop (pa_enqueued a) (pa_promoted a) ?N = (ps, prs, enq, prom, n)"
      and a': "a' = (if ?N < n then a\<lparr>pa_enqueued := enq, pa_promoted := prom, pa_nextNonce := n\<rparr>
        else a\<lparr>pa_enqueued := enq, pa_promoted := prom\<rparr>)"
      using promote False N
      by (auto simp: account_promote_def accountQueue_peek_def Let_def split: prod.splits)
    have spec: "nonces.valid enq" "nonces.valid prom" "?N \<le> n" "map (unat \<circ> t_Nonce) ps = [unat ?N..<unat n]"
      "mset prom = mset (pa_promoted a) + mset ps" "mset (pa_enqueued a) = mset ps + mset prs + mset enq"
      "\<forall>t \<in> set enq. n < t_Nonce t"
      "\<forall>t \<in> set prs. \<exists>u \<in> set ps. t_Nonce u = t_Nonce t \<and> t_GasPrice t \<le> t_GasPrice u"
      using promote_loop_spec [OF _ _ _ loop] inv by (auto simp: account_inv_def)
    have a'_eq: "pa_enqueued a' = enq" "pa_promoted a' = prom" "pa_nextNonce a' = n"
      using a' spec(3) by auto
    have sets: "set (pa_enqueued a) = set ps \<union> set prs \<union> set enq" "set prom = set (pa_promoted a) \<union> set ps"
      using spec(5,6) by (metis set_mset_mset set_mset_union)+
    obtain m where m: "m \<le> unat ?N" "image_mset (unat \<circ> t_Nonce) (mset (pa_promoted a)) = mset [m..<unat ?N]"
      using inv by (auto simp: account_inv_def)
    have "[m..<unat n] = [m..<unat ?N] @ [unat ?N..<unat n]"
      using m(1) spec(3) by (metis le_add_diff_inverse upt_add_eq_append word_le_nat_alt)
    then have "image_mset (unat \<circ> t_Nonce) (mset prom) = mset [m..<unat n]"
      using m(2) spec(4,5) by (metis image_mset_union mset_append mset_map)
    then have "\<exists>m \<le> unat n. image_mset (unat \<circ> t_Nonce) (mset prom) = mset [m..<unat n]"
      using m(1) spec(3) by (metis le_trans word_le_nat_alt)
    then have "account_inv addr a'"
      using inv spec(1,2,7) sets unfolding account_inv_def a'_eq by (auto simp: order_less_imp_le)
    then show ?thesis using spec by (simp add: a'_eq)
  qed
qed

lemma run_prune:
  assumes "m \<le> N" and "M = mset [m..<N]" and "n \<le> N"
  shows "\<exists>m' \<le> N. filter_mset (\<lambda>k. n \<le> k) M = mset [m'..<N]"
proof (intro exI conjI)
  show "max m n \<le> N" using assms by simp
  have "filter (\<lambda>k. n \<le> k) [m..<N] = [max m n..<N]"
    using assms(1) by (induction N) (auto simp: le_Suc_eq max_def)
  then show "filter_mset (\<lambda>k. n \<le> k) M = mset [max m n..<N]" using assms(2) by (metis mset_filter)
qed

lemma account_inv_reset:
  assumes inv: "account_inv addr a" and reset: "account_reset n a = (pp, pe, sig, a')"
  shows "account_inv addr a' \<and> mset (pa_promoted a) = mset pp + mset (pa_promoted a') \<and>
    mset (pa_enqueued a) = mset pe + mset (pa_enqueued a') \<and>
    pa_nextNonce a' = max n (pa_nextNonce a) \<and> (\<forall>t \<in> set (pa_promoted a'). n \<le> t_Nonce t)"
proof -
  let ?N = "pa_nextNonce a"
  have v: "nonces.valid (pa_enqueued a)" "nonces.valid (pa_promoted a)" using inv by (auto simp: account_inv_def)
  note sets = set_prune [OF v(1), of n] set_prune [OF v(2), of n]
  obtain m where m: "m \<le> unat ?N" "image_mset (unat \<circ> t_Nonce) (mset (pa_promoted a)) = mset [m..<unat ?N]"
    using inv by (auto simp: account_inv_def)
  have prom: "image_mset (unat \<circ> t_Nonce) (mset (snd (prune (pa_promoted a) n))) =
      filter_mset (\<lambda>k. unat n \<le> k) (image_mset (unat \<circ> t_Nonce) (mset (pa_promoted a)))"
    using prune_spec [OF v(2), of n] by (simp add: filter_mset_image_mset word_le_nat_alt comp_def)
  show ?thesis
  proof (cases "n \<le> ?N")
    case True
    then have r: "pp = fst (prune (pa_promoted a) n)" "pe = []" "a' = a\<lparr>pa_promoted := snd (prune (pa_promoted a) n)\<rparr>"
      using reset by (auto simp: account_reset_def case_prod_beta Let_def)
    have "\<exists>m' \<le> unat ?N. image_mset (unat \<circ> t_Nonce) (mset (pa_promoted a')) = mset [m'..<unat ?N]"
      using run_prune [OF m(1) m(2) [symmetric, THEN sym], of "unat n"] True prom r by (simp add: word_le_nat_alt)
    then have "account_inv addr a'" using inv sets v r by (auto simp: account_inv_def)
    then show ?thesis using r sets True mset_prune [OF v(2), of n] by (simp add: max_def)
  next
    case False
    then have r: "pp = fst (prune (pa_promoted a) n)" "pe = fst (prune (pa_enqueued a) n)"
        "a' = a\<lparr>pa_promoted := snd (prune (pa_promoted a) n), pa_enqueued := snd (prune (pa_enqueued a) n), pa_nextNonce := n\<rparr>"
      using reset by (auto simp: account_reset_def case_prod_beta Let_def)
    have "filter (\<lambda>k. unat n \<le> k) [m..<unat ?N] = []"
      using False by (auto simp: word_le_nat_alt filter_empty_conv)
    then have "filter_mset (\<lambda>k. unat n \<le> k) (mset [m..<unat ?N]) = {#}" by (metis mset_filter mset.simps(1))
    then have "mset (snd (prune (pa_promoted a) n)) = {#}" using prom m(2) by simp
    then have "account_inv addr a'" using inv sets v r by (auto simp: account_inv_def)
    then show ?thesis using r sets False mset_prune [OF v(2), of n] mset_prune [OF v(1), of n] by (simp add: max_def)
  qed
qed

lemma account_inv_enqueue:
  assumes "account_inv addr a" and "account_enqueue tx a = Inr a'" and "t_From tx = addr" and "t_Nonce tx \<noteq> last_nonce"
  shows "account_inv addr a' \<and> a' = a\<lparr>pa_enqueued := accountQueue_push (pa_enqueued a) tx\<rparr>"
  using assms by (auto simp: account_inv_def account_enqueue_def split: if_splits)

lemma account_inv_head:
  assumes inv: "account_inv addr a" and ne: "pa_promoted a \<noteq> []"
  defines "m \<equiv> unat (t_Nonce (pa_promoted a ! 0))"
  shows "m < unat (pa_nextNonce a)"
    and "image_mset (unat \<circ> t_Nonce) (mset (pa_promoted a)) = mset [m..<unat (pa_nextNonce a)]"
proof -
  let ?h = "pa_promoted a ! 0"
  let ?N = "pa_nextNonce a"
  obtain l where l: "l \<le> unat ?N" "image_mset (unat \<circ> t_Nonce) (mset (pa_promoted a)) = mset [l..<unat ?N]"
    using inv by (auto simp: account_inv_def)
  have "[l..<unat ?N] \<noteq> []" using l(2) ne by (metis image_mset_is_empty_iff mset_zero_iff)
  then have lt: "l < unat ?N" by simp
  have "m = l"
  proof (rule antisym)
    have "m \<in># image_mset (unat \<circ> t_Nonce) (mset (pa_promoted a))" using ne by (simp add: m_def)
    then show "l \<le> m" unfolding l(2) by simp
    have "l \<in># image_mset (unat \<circ> t_Nonce) (mset (pa_promoted a))" unfolding l(2) using lt by simp
    then obtain t where "t \<in> set (pa_promoted a)" "l = unat (t_Nonce t)" by auto
    then show "m \<le> l" using valid_head(1) [of "pa_promoted a" ?h t] inv ne
      by (simp add: m_def account_inv_def accountQueue_peek_def word_le_nat_alt)
  qed
  then show "m < unat ?N" and "image_mset (unat \<circ> t_Nonce) (mset (pa_promoted a)) = mset [m..<unat ?N]"
    using lt l(2) by simp_all
qed

lemma account_inv_pop:
  assumes inv: "account_inv addr a" and pop: "accountQueue_pop (pa_promoted a) = (popped, q)"
  shows "account_inv addr (a\<lparr>pa_promoted := q\<rparr>)"
proof (cases "pa_promoted a = []")
  case True
  then show ?thesis using inv pop by (simp add: accountQueue_pop_def account_inv_def)
next
  case False
  let ?m = "unat (t_Nonce (pa_promoted a ! 0))"
  obtain q: "mset (pa_promoted a) = add_mset (pa_promoted a ! 0) (mset q)" and v: "nonces.valid q"
    using accountQueue_popE [OF pop False] inv by (auto simp: account_inv_def)
  note head = account_inv_head [OF inv False]
  have "image_mset (unat \<circ> t_Nonce) (mset q) = mset [Suc ?m..<unat (pa_nextNonce a)]"
    using head(2) q upt_conv_Cons [OF head(1)] by (simp del: mset_upt)
  moreover have "set q \<subseteq> set (pa_promoted a)" using q by (metis set_mset_mset set_mset_add_mset_insert subset_insertI)
  ultimately show ?thesis using inv v head(1) by (auto simp: account_inv_def intro: exI [of _ "Suc ?m"])
qed

text \<open>
  What holds whatever the nonces are: both queues are heaps of transactions of the owner. \<open>account_ok K\<close> adds the
  invariant when \<open>K\<close> holds, that is when the last nonce was never used.
\<close>

definition queues_ok :: "Address \<Rightarrow> account \<Rightarrow> bool" where
  "queues_ok addr a \<longleftrightarrow> nonces.valid (pa_enqueued a) \<and> nonces.valid (pa_promoted a) \<and>
     (\<forall>t \<in> set (pa_enqueued a) \<union> set (pa_promoted a). t_From t = addr)"

definition account_ok :: "bool \<Rightarrow> Address \<Rightarrow> account \<Rightarrow> bool" where
  "account_ok K addr a \<longleftrightarrow> queues_ok addr a \<and> (K \<longrightarrow> account_inv addr a)"

lemma promote_loop_queues:
  assumes "nonces.valid enq" and "nonces.valid prom" and "promote_loop enq prom n = (ps, prs, enq', prom', n')"
  shows "nonces.valid enq' \<and> nonces.valid prom' \<and> mset prom' = mset prom + mset ps \<and> mset enq = mset ps + mset prs + mset enq'"
  using assms
proof (induction enq prom n arbitrary: ps prs rule: promote_loop.induct)
  case (1 enq prom n)
  show ?case
  proof (cases "enq = [] \<or> t_Nonce (enq ! 0) \<noteq> n")
    case True
    then have "promote_loop enq prom n = ([], [], enq, prom, n)"
      by (auto simp: promote_loop.simps [of enq] accountQueue_peek_def)
    then show ?thesis using "1.prems" by auto
  next
    case False
    then have peek: "accountQueue_peek enq = Some (enq ! 0)" and n: "t_Nonce (enq ! 0) = n" by (auto simp: accountQueue_peek_def)
    obtain r q where pop: "accountQueue_pop enq = (r, q)" by fastforce
    obtain r: "r = Some (enq ! 0)" and q: "mset enq = add_mset (enq ! 0) (mset q)" and v: "nonces.valid q"
      using accountQueue_popE [OF pop] False "1.prems"(1) by blast
    obtain pruned q' where prune: "prune q (n + 1) = (pruned, q')" by fastforce
    obtain ps' prs' e where loop: "promote_loop q' (accountQueue_push prom (enq ! 0)) (n + 1) = (ps', prs', e)"
      using prod_cases3 by blast
    have ps: "e = (enq', prom', n')" "ps = enq ! 0 # ps'" "prs = pruned @ prs'"
      using "1.prems"(3) False pop r n prune loop by (simp_all add: promote_loop.simps [of enq] peek Let_def)
    have "nonces.valid q'" "mset q = mset pruned + mset q'"
      using prune_valid [OF v, of "n + 1"] mset_prune [OF v, of "n + 1"] prune by simp_all
    moreover have "nonces.valid enq' \<and> nonces.valid prom' \<and> mset prom' = mset (accountQueue_push prom (enq ! 0)) + mset ps' \<and>
        mset q' = mset ps' + mset prs' + mset enq'"
      by (rule "1.IH" [OF peek _ pop [symmetric] HOL.refl HOL.refl])
        (use n r prune calculation "1.prems" loop ps(1) in auto)
    ultimately show ?thesis using ps q by simp
  qed
qed

lemma queues_ok_sub:
  assumes "queues_ok addr a" and "nonces.valid (pa_enqueued a')" and "nonces.valid (pa_promoted a')"
    and "set (pa_enqueued a') \<union> set (pa_promoted a') \<subseteq> set (pa_enqueued a) \<union> set (pa_promoted a)"
  shows "queues_ok addr a'"
  using assms unfolding queues_ok_def by blast

lemma account_ok_promote:
  assumes "account_ok K addr a" and promote: "account_promote a = (ps, prs, a')"
  shows "account_ok K addr a' \<and> mset (pa_promoted a') = mset (pa_promoted a) + mset ps \<and>
    mset (pa_enqueued a) = mset ps + mset prs + mset (pa_enqueued a')"
proof -
  have q: "queues_ok addr a" using assms(1) by (simp add: account_ok_def)
  have m: "nonces.valid (pa_enqueued a') \<and> nonces.valid (pa_promoted a') \<and> mset (pa_promoted a') = mset (pa_promoted a) + mset ps \<and>
      mset (pa_enqueued a) = mset ps + mset prs + mset (pa_enqueued a')"
  proof (cases "pa_enqueued a = [] \<or> pa_nextNonce a < t_Nonce (pa_enqueued a ! 0)")
    case True
    then show ?thesis using promote q by (auto simp: account_promote_def accountQueue_peek_def queues_ok_def split: if_splits option.splits)
  next
    case False
    obtain ps' prs' enq prom n
      where loop: "promote_loop (pa_enqueued a) (pa_promoted a) (t_Nonce (pa_enqueued a ! 0)) = (ps', prs', enq, prom, n)"
      using prod_cases5 by blast
    then have "ps = ps'" "prs = prs'" "pa_enqueued a' = enq" "pa_promoted a' = prom"
      using promote False by (auto simp: account_promote_def accountQueue_peek_def Let_def)
    then show ?thesis using promote_loop_queues [OF _ _ loop] q by (simp add: queues_ok_def)
  qed
  then have "set (pa_promoted a') = set (pa_promoted a) \<union> set ps" "set (pa_enqueued a) = set ps \<union> set prs \<union> set (pa_enqueued a')"
    by (metis set_mset_mset set_mset_union)+
  then have "queues_ok addr a'" using m by (intro queues_ok_sub [OF q]) auto
  then show ?thesis using m assms(1) account_inv_promote [OF _ promote] by (auto simp: account_ok_def)
qed

lemma account_ok_reset:
  assumes "account_ok K addr a" and reset: "account_reset n a = (pp, pe, sig, a')"
  shows "account_ok K addr a' \<and> mset (pa_promoted a) = mset pp + mset (pa_promoted a') \<and>
    mset (pa_enqueued a) = mset pe + mset (pa_enqueued a')"
proof -
  have q: "queues_ok addr a" using assms(1) by (simp add: account_ok_def)
  then have v: "nonces.valid (pa_enqueued a)" "nonces.valid (pa_promoted a)" by (simp_all add: queues_ok_def)
  have m: "nonces.valid (pa_enqueued a') \<and> nonces.valid (pa_promoted a') \<and> mset (pa_promoted a) = mset pp + mset (pa_promoted a') \<and>
      mset (pa_enqueued a) = mset pe + mset (pa_enqueued a')"
    using reset v mset_prune [OF v(1), of n] mset_prune [OF v(2), of n]
    by (auto simp: account_reset_def case_prod_beta Let_def split: if_splits)
  then have "set (pa_promoted a) = set pp \<union> set (pa_promoted a')" "set (pa_enqueued a) = set pe \<union> set (pa_enqueued a')"
    by (metis set_mset_mset set_mset_union)+
  then have "queues_ok addr a'" using m by (intro queues_ok_sub [OF q]) auto
  then show ?thesis using m assms(1) account_inv_reset [OF _ reset] by (auto simp: account_ok_def)
qed

lemma account_ok_enqueue:
  assumes "account_ok K addr a" and "account_enqueue tx a = Inr a'" and "t_From tx = addr" and "K \<Longrightarrow> t_Nonce tx \<noteq> last_nonce"
  shows "account_ok K addr a' \<and> a' = a\<lparr>pa_enqueued := accountQueue_push (pa_enqueued a) tx\<rparr>"
proof -
  have a': "a' = a\<lparr>pa_enqueued := accountQueue_push (pa_enqueued a) tx\<rparr>"
    using assms(2) by (auto simp: account_enqueue_def split: if_splits)
  moreover have "queues_ok addr a'" using assms(1,3) by (auto simp: a' account_ok_def queues_ok_def)
  ultimately show ?thesis using assms account_inv_enqueue [OF _ assms(2,3)] by (auto simp: account_ok_def)
qed

lemma account_ok_pop:
  assumes "account_ok K addr a" and pop: "accountQueue_pop (pa_promoted a) = (r, q)"
  shows "account_ok K addr (a\<lparr>pa_promoted := q\<rparr>) \<and> r = accountQueue_peek (pa_promoted a) \<and>
    mset (pa_promoted a) = mset (case r of None \<Rightarrow> [] | Some tx \<Rightarrow> [tx]) + mset q"
proof -
  have qs: "queues_ok addr a" using assms(1) by (simp add: account_ok_def)
  have m: "nonces.valid q \<and> r = accountQueue_peek (pa_promoted a) \<and> mset (pa_promoted a) = mset (case r of None \<Rightarrow> [] | Some tx \<Rightarrow> [tx]) + mset q"
  proof (cases "pa_promoted a = []")
    case True
    then show ?thesis using qs pop by (auto simp: accountQueue_pop_def accountQueue_peek_def queues_ok_def)
  next
    case False
    obtain "r = Some (pa_promoted a ! 0)" "mset (pa_promoted a) = add_mset (pa_promoted a ! 0) (mset q)" "nonces.valid q"
      using accountQueue_popE [OF pop False] qs by (metis queues_ok_def)
    then show ?thesis using False by (simp add: accountQueue_peek_def)
  qed
  then have "set q \<subseteq> set (pa_promoted a)" by (metis set_mset_mset set_mset_union sup_ge2)
  then have "queues_ok addr (a\<lparr>pa_promoted := q\<rparr>)" using m qs by (auto simp: queues_ok_def)
  then show ?thesis using m assms(1) account_inv_pop [OF _ pop] by (auto simp: account_ok_def)
qed

lemma account_ok_counters [simp]:
  "account_ok K addr (a\<lparr>pa_demotions := k\<rparr>) \<longleftrightarrow> account_ok K addr a"
  "account_ok K addr (a\<lparr>pa_skips := k\<rparr>) \<longleftrightarrow> account_ok K addr a"
  by (simp_all add: account_ok_def queues_ok_def account_inv_def)

lemma account_ok_empty [simp]: "pa_enqueued a = [] \<Longrightarrow> pa_promoted a = [] \<Longrightarrow> account_ok K addr a"
  by (auto simp: account_ok_def queues_ok_def account_inv_def)

lemma account_ok_clear: "account_ok K addr a \<Longrightarrow> account_ok K addr (a\<lparr>pa_enqueued := []\<rparr>)"
  by (auto simp: account_ok_def queues_ok_def account_inv_def)

subsection \<open>Properties\<close>

text \<open>C13. promoting an account that satisfies the invariant keeps it, and promotes exactly one transaction
  for every nonce from the next nonce up to the first nonce nobody has sent: what stays in the waiting queue
  is strictly above the new next nonce. Nothing is lost: a waiting transaction is promoted, still waits,
  or was replaced by one with the same nonce that pays at least as much.\<close>

theorem account_promote_correct:
  assumes "account_inv addr a" and "account_promote a = (promoted, pruned, a')"
  shows "account_inv addr a' \<and>
    map (unat \<circ> t_Nonce) promoted = [unat (pa_nextNonce a)..<unat (pa_nextNonce a')] \<and>
    (\<forall>t \<in> set (pa_enqueued a'). pa_nextNonce a' < t_Nonce t) \<and>
    mset (pa_promoted a') = mset (pa_promoted a) + mset promoted \<and>
    mset (pa_enqueued a) = mset promoted + mset pruned + mset (pa_enqueued a') \<and>
    (\<forall>t \<in> set pruned. \<exists>u \<in> set promoted. t_Nonce u = t_Nonce t \<and> t_GasPrice t \<le> t_GasPrice u)"
  using account_inv_promote [OF assms] by blast

text \<open>Four transactions, two of them with the same nonce and one beyond a gap.\<close>

definition plain_pool_tx :: "uint64 \<Rightarrow> int \<Rightarrow> Transaction" where
  "plain_pool_tx n price = \<lparr>t_Nonce = n, t_GasPrice = price, t_Gas = 21000, t_To = Some 7, t_Value = 0, t_Input = [],
     t_V = None, t_R = None, t_S = None, t_Hash = 0, t_From = 5\<rparr>"

definition plain_account :: account where
  "plain_account = \<lparr>pa_enqueued = foldl accountQueue_push []
       [plain_pool_tx 6 1, plain_pool_tx 3 1, plain_pool_tx 4 2, plain_pool_tx 3 9],
     pa_promoted = [], pa_nextNonce = 3, pa_demotions = 0, pa_skips = 0, pa_maxEnqueued = 128\<rparr>"

lemma plain_account_inv: "account_inv 5 plain_account"
  by (auto simp: account_inv_def plain_account_def plain_pool_tx_def intro: exI [of _ 3])

lemma plain_account_promote:
  "(\<lambda>(ps, prs, a). (map t_Nonce ps, map t_GasPrice ps, map t_GasPrice prs, map t_Nonce (pa_enqueued a), pa_nextNonce a))
     (account_promote plain_account) = ([3, 4], [9, 2], [1], [6], 5)"
  by code_simp

theorem account_promote_correct_witness:
  "\<exists>ps prs a. account_promote plain_account = (ps, prs, a) \<and> account_inv 5 a \<and>
     map (unat \<circ> t_Nonce) ps = [unat (pa_nextNonce plain_account)..<unat (pa_nextNonce a)] \<and> pa_nextNonce a = 5"
proof -
  obtain ps prs a where r: "account_promote plain_account = (ps, prs, a)" by (metis prod_cases3)
  show ?thesis
    using account_promote_correct [OF plain_account_inv r] plain_account_promote r by auto
qed

text \<open>
  Two limits of the code. After the last nonce the counter wraps to 0, so the next nonce is not moved:
  it stays at the nonce of a transaction that is already promoted. A price of \<open>2 ^ 64\<close> and more is
  compared by its low 64 bits, so it can lose against a price of 1.
\<close>

lemma promote_last_nonce:
  "(\<lambda>(ps, prs, a). (map t_Nonce (pa_promoted a), pa_nextNonce a))
     (account_promote (plain_account\<lparr>pa_enqueued := [plain_pool_tx (last_nonce - 1) 1, plain_pool_tx last_nonce 1],
        pa_nextNonce := last_nonce - 1\<rparr>)) = ([last_nonce - 1, last_nonce], last_nonce - 1)"
  by code_simp

lemma price_wraps: "maxPriceQueue_Less (plain_pool_tx 0 1) (plain_pool_tx 0 (2 ^ 64))"
  by (simp add: maxPriceQueue_Less_def plain_pool_tx_def Uint64_def)

end
