(* ===== verification/Hex.thy ===== *)
theory Hex
  imports Types EVM
begin

section \<open>Hexadecimal text (\<^verbatim>\<open>helper/hex\<close>, \<^verbatim>\<open>types/types.go\<close>, \<^verbatim>\<open>types/encoding.go\<close>)\<close>

text \<open>
  How hashes, addresses, numbers and bytes are written in JSON, in configuration files and in the keys of
  maps, and how they are read back. A Go string is a \<^typ>\<open>string\<close>; the conversion to bytes takes the
  code of every character. An error is \<^const>\<open>None\<close>.
\<close>

subsection \<open>\<^verbatim>\<open>encoding/hex\<close> and \<^verbatim>\<open>strconv\<close>\<close>

definition hex_digit :: "nat \<Rightarrow> char" where
  "hex_digit n = ''0123456789abcdef'' ! n"

definition EncodeToString :: "bytes \<Rightarrow> string" where
  "EncodeToString bs = concat (map (\<lambda>b. [hex_digit (unat b div 16), hex_digit (unat b mod 16)]) bs)"

definition fromHexChar :: "char \<Rightarrow> nat option" where
  "fromHexChar c =
     (let k = of_char c :: nat in
      if 48 \<le> k \<and> k \<le> 57 then Some (k - 48)
      else if 97 \<le> k \<and> k \<le> 102 then Some (k - 87)
      else if 65 \<le> k \<and> k \<le> 70 then Some (k - 55)
      else None)"

text \<open>The bytes decoded before an error are returned with it; the flag says that there was none.\<close>

fun DecodeString :: "string \<Rightarrow> bytes \<times> bool" where
  "DecodeString [] = ([], True)"
| "DecodeString [c] = ([], False)"
| "DecodeString (c # d # cs) =
     (case (fromHexChar c, fromHexChar d) of
        (Some a, Some b) \<Rightarrow> let (bs, ok) = DecodeString cs in (word_of_nat (16 * a + b) # bs, ok)
      | _ \<Rightarrow> ([], False))"

fun digits_value :: "nat \<Rightarrow> nat \<Rightarrow> string \<Rightarrow> nat option" where
  "digits_value base n [] = Some n"
| "digits_value base n (c # cs) =
     (case fromHexChar c of
        None \<Rightarrow> None
      | Some d \<Rightarrow> if d < base then digits_value base (n * base + d) cs else None)"

definition ParseUint :: "nat \<Rightarrow> string \<Rightarrow> uint64 option" where
  "ParseUint base s =
     (if s = [] then None
      else case digits_value base 0 s of
        None \<Rightarrow> None
      | Some n \<Rightarrow> if n < 2 ^ 64 then Some (word_of_nat n) else None)"

text \<open>\<^verbatim>\<open>big.Int.SetString\<close>, with an optional sign, and \<^verbatim>\<open>big.Int.Text(16)\<close>.\<close>

definition parse_nat :: "nat \<Rightarrow> string \<Rightarrow> int option" where
  "parse_nat base s = (if s = [] then None else map_option int (digits_value base 0 s))"

fun SetString :: "nat \<Rightarrow> string \<Rightarrow> int option" where
  "SetString base [] = None"
| "SetString base (c # s) =
     (if c = CHR ''-'' then map_option uminus (parse_nat base s)
      else if c = CHR ''+'' then parse_nat base s
      else parse_nat base (c # s))"

fun hex_digits :: "nat \<Rightarrow> string" where
  "hex_digits n = (if n < 16 then [hex_digit n] else hex_digits (n div 16) @ [hex_digit (n mod 16)])"

declare hex_digits.simps [simp del]

definition big_Text :: "int \<Rightarrow> string" where
  "big_Text x = (if x < 0 then ''-'' else []) @ hex_digits (nat \<bar>x\<bar>)"

definition HasPrefix :: "string \<Rightarrow> string \<Rightarrow> bool" where
  "HasPrefix s p \<longleftrightarrow> take (length p) s = p"

definition TrimPrefix :: "string \<Rightarrow> string \<Rightarrow> string" where
  "TrimPrefix s p = (if HasPrefix s p then drop (length p) s else s)"

subsection \<open>\<^verbatim>\<open>helper/hex\<close>\<close>

definition EncodeToHex :: "bytes \<Rightarrow> string" where
  "EncodeToHex str = ''0x'' @ EncodeToString str"

definition DecodeHex :: "string \<Rightarrow> bytes \<times> bool" where
  "DecodeHex str = DecodeString (TrimPrefix str ''0x'')"

definition MustDecodeHex :: "string \<Rightarrow> bytes option" where
  "MustDecodeHex str = (let (buf, ok) = DecodeHex str in if ok then Some buf else None)"

definition hex_EncodeUint64 :: "uint64 \<Rightarrow> string" where
  "hex_EncodeUint64 i = ''0x'' @ hex_digits (unat i)"

definition DecodeUint64 :: "string \<Rightarrow> uint64 option" where
  "DecodeUint64 hexStr = (let cleaned = TrimPrefix hexStr ''0x'' in ParseUint 16 cleaned)"

definition BadNibble :: uint64 where
  "BadNibble = NOT 0"

definition DecodeNibble :: "byte \<Rightarrow> uint64" where
  "DecodeNibble in' =
     (if 48 \<le> in' \<and> in' \<le> 57 then ucast (in' - 48)
      else if 65 \<le> in' \<and> in' \<le> 70 then ucast (in' - 65 + 10)
      else if 97 \<le> in' \<and> in' \<le> 102 then ucast (in' - 97 + 10)
      else BadNibble)"

text \<open>\<^verbatim>\<open>%#x\<close> writes the sign before the prefix.\<close>

definition EncodeBig :: "int \<Rightarrow> string" where
  "EncodeBig x = (if BitLen x = 0 then ''0x0'' else (if x < 0 then ''-'' else []) @ ''0x'' @ hex_digits (nat \<bar>x\<bar>))"

definition DropHexPrefix :: "bytes \<Rightarrow> bytes option" where
  "DropHexPrefix input = (if length input < 2 then None else Some (drop 2 input))"

subsection \<open>\<^verbatim>\<open>types/types.go\<close>\<close>

definition Hash_String :: "Hash \<Rightarrow> string" where
  "Hash_String h = EncodeToHex (Hash_Bytes h)"

text \<open>The loop of \<open>checksumEncode\<close>; it panics when the hash is too short.\<close>

definition char_digit :: "char \<Rightarrow> bool" where
  "char_digit c \<longleftrightarrow> 48 \<le> (of_char c :: nat) \<and> (of_char c :: nat) \<le> 57"

definition ToUpper :: "char \<Rightarrow> char" where
  "ToUpper c = (if 97 \<le> (of_char c :: nat) \<and> (of_char c :: nat) \<le> 122 then char_of (of_char c - 32 :: nat) else c)"

fun checksum_loop :: "string \<Rightarrow> string \<Rightarrow> string option" where
  "checksum_loop [] hashedAddress = Some []"
| "checksum_loop (ch # chs) hashedAddress =
     (case checksum_loop chs (drop 1 hashedAddress) of
        None \<Rightarrow> None
      | Some result \<Rightarrow>
          if char_digit ch then Some (ch # result)
          else case hashedAddress of
            [] \<Rightarrow> None
          | h # _ \<Rightarrow> if 48 \<le> (of_char h :: nat) \<and> (of_char h :: nat) \<le> 55 then Some (ch # result)
                    else Some (ToUpper ch # result))"

definition checksumEncode :: "crypto_lib \<Rightarrow> Address \<Rightarrow> string option" where
  "checksumEncode L a =
     (let addrBytes = Address_Bytes a;
          lowercaseHex = EncodeToString addrBytes;
          hashedAddress = EncodeToString (Keccak256 L (map of_char lowercaseHex))
      in map_option (\<lambda>result. ''0x'' @ result) (checksum_loop lowercaseHex hashedAddress))"

definition Address_String :: "crypto_lib \<Rightarrow> Address \<Rightarrow> string option" where
  "Address_String L a = checksumEncode L a"

definition stringToBytes :: "string \<Rightarrow> bytes" where
  "stringToBytes str =
     (let str = TrimPrefix str ''0x'';
          str = (if length str mod 2 = 1 then ''0'' @ str else str)
      in fst (DecodeString str))"

definition StringToHash :: "string \<Rightarrow> Hash" where
  "StringToHash str = BytesToHash (stringToBytes str)"

definition StringToAddress :: "string \<Rightarrow> Address" where
  "StringToAddress str = BytesToAddress (stringToBytes str)"

definition Hash_UnmarshalText :: "string \<Rightarrow> Hash" where
  "Hash_UnmarshalText input = BytesToHash (stringToBytes input)"

definition Address_UnmarshalText :: "string \<Rightarrow> Address option" where
  "Address_UnmarshalText input =
     (let buf = stringToBytes input in if length buf \<noteq> 20 then None else Some (BytesToAddress buf))"

subsection \<open>\<^verbatim>\<open>types/encoding.go\<close>\<close>

definition ParseUint64orHex :: "string option \<Rightarrow> uint64 option" where
  "ParseUint64orHex val =
     (case val of
        None \<Rightarrow> Some 0
      | Some str \<Rightarrow> if HasPrefix str ''0x'' then ParseUint 16 (drop 2 str) else ParseUint 10 str)"

text \<open>The result is a pointer: \<open>Some None\<close> is the nil pointer without an error.\<close>

definition ParseUint256orHex :: "string option \<Rightarrow> int option option" where
  "ParseUint256orHex val =
     (case val of
        None \<Rightarrow> Some None
      | Some str \<Rightarrow> map_option Some (if HasPrefix str ''0x'' then SetString 16 (drop 2 str) else SetString 10 str))"

definition ParseInt64orHex :: "string option \<Rightarrow> int option" where
  "ParseInt64orHex val = map_option sint (ParseUint64orHex val)"

definition ParseBytes :: "string option \<Rightarrow> bytes option" where
  "ParseBytes val =
     (case val of
        None \<Rightarrow> Some []
      | Some str \<Rightarrow> let (buf, ok) = DecodeString (TrimPrefix str ''0x'') in if ok then Some buf else None)"

definition EncodeUint64 :: "uint64 \<Rightarrow> string" where
  "EncodeUint64 b = ''0x'' @ hex_digits (unat b)"

definition EncodeBytes :: "bytes \<Rightarrow> string" where
  "EncodeBytes b = ''0x'' @ EncodeToString b"

definition EncodeBigInt :: "int \<Rightarrow> string" where
  "EncodeBigInt b = ''0x'' @ big_Text b"

subsection \<open>Round trips\<close>

lemma fromHexChar_digit [simp]: "n < 16 \<Longrightarrow> fromHexChar (hex_digit n) = Some n"
  by (auto simp: fromHexChar_def hex_digit_def less_Suc_eq numeral_eq_Suc)

lemma of_char_ToUpper:
  "(of_char (ToUpper c) :: nat) =
     (if 97 \<le> (of_char c :: nat) \<and> (of_char c :: nat) \<le> 122 then of_char c - 32 else of_char c)"
  by (auto simp: ToUpper_def of_char_of intro!: mod_less)

lemma fromHexChar_upper: "n < 16 \<Longrightarrow> fromHexChar (ToUpper (hex_digit n)) = Some n"
  by (auto simp: fromHexChar_def of_char_ToUpper hex_digit_def less_Suc_eq numeral_eq_Suc)

lemma DecodeString_Encode [simp]: "DecodeString (EncodeToString bs) = (bs, True)"
proof (induction bs)
  case (Cons b bs)
  have "unat b div 16 < 16" using unat_byte_less [of b] by linarith
  then show ?case using Cons by (simp add: EncodeToString_def)
qed (simp add: EncodeToString_def)

lemma length_EncodeToString [simp]: "length (EncodeToString bs) = 2 * length bs"
  by (induction bs) (simp_all add: EncodeToString_def)

text \<open>The case of a digit does not matter to the reader.\<close>

abbreviation same_digits :: "string \<Rightarrow> string \<Rightarrow> bool" where
  "same_digits \<equiv> list_all2 (\<lambda>c d. fromHexChar c = fromHexChar d)"

lemma DecodeString_same: "same_digits s t \<Longrightarrow> DecodeString s = DecodeString t"
proof (induction s arbitrary: t rule: DecodeString.induct)
  case (3 c d cs)
  then obtain c' d' cs' where t: "t = c' # d' # cs'" "same_digits cs cs'"
      "fromHexChar c = fromHexChar c'" "fromHexChar d = fromHexChar d'"
    by (auto simp: list_all2_Cons1)
  show ?case using 3 t by (auto split: option.splits)
qed (auto simp: list_all2_Cons1)

lemma checksum_loop_same:
  assumes "\<forall>c \<in> set s. \<exists>n < 16. c = hex_digit n" and "length s \<le> length h"
  shows "\<exists>r. checksum_loop s h = Some r \<and> same_digits r s"
  using assms
proof (induction s arbitrary: h)
  case (Cons c s)
  then obtain d h' where h: "h = d # h'" and "length s \<le> length h'" by (cases h) auto
  then obtain r where r: "checksum_loop s h' = Some r" "same_digits r s" using Cons by fastforce
  obtain n where n: "n < 16" "c = hex_digit n" using Cons.prems(1) by auto
  then show ?case using h r fromHexChar_upper [OF n(1)] by auto
qed simp

lemma EncodeToString_digits: "\<forall>c \<in> set (EncodeToString bs). \<exists>n < 16. c = hex_digit n"
proof -
  have "unat b div 16 < 16" for b :: byte using unat_byte_less [of b] by linarith
  then show ?thesis by (auto simp: EncodeToString_def) (metis mod_less_divisor zero_less_numeral)
qed

lemma stringToBytes_prefixed: "even (length s) \<Longrightarrow> stringToBytes (''0x'' @ s) = fst (DecodeString s)"
  by (simp add: stringToBytes_def TrimPrefix_def HasPrefix_def even_iff_mod_2_eq_zero)

lemma Address_text:
  assumes "length (Keccak256 L (map of_char (EncodeToString (Address_Bytes a)))) = 32"
  shows "\<exists>s. Address_String L a = Some s \<and> Address_UnmarshalText s = Some a"
proof -
  let ?s = "EncodeToString (Address_Bytes a)"
  obtain r where r: "checksum_loop ?s (EncodeToString (Keccak256 L (map of_char ?s))) = Some r" "same_digits r ?s"
    using checksum_loop_same [OF EncodeToString_digits, of "Address_Bytes a"
        "EncodeToString (Keccak256 L (map of_char ?s))"] assms by auto
  then have "DecodeString r = (Address_Bytes a, True)" "length r = 40"
    using DecodeString_same [OF r(2)] list_all2_lengthD [OF r(2)] by auto
  then show ?thesis
    using r by (simp add: Address_String_def checksumEncode_def Address_UnmarshalText_def stringToBytes_prefixed
        del: append_Cons append_Nil)
qed

lemma digits_value_hex: "digits_value 16 m (hex_digits n) = Some (m * 16 ^ length (hex_digits n) + n)"
proof (induction n arbitrary: m rule: hex_digits.induct)
  case (1 n)
  have snoc: "digits_value 16 m (s @ [c]) =
      (case digits_value 16 m s of None \<Rightarrow> None | Some k \<Rightarrow> digits_value 16 k [c])" for s m c
    by (induction s arbitrary: m) (auto split: option.splits)
  show ?case
  proof (cases "n < 16")
    case True
    then show ?thesis by (simp add: hex_digits.simps [of n])
  next
    case False
    then have "digits_value 16 m (hex_digits (n div 16)) = Some (m * 16 ^ length (hex_digits (n div 16)) + n div 16)"
      using 1 by blast
    then show ?thesis using False
      by (simp add: hex_digits.simps [of n] snoc algebra_simps)
  qed
qed

lemma hex_digits_hd: "\<exists>d s. d < 16 \<and> hex_digits n = hex_digit d # s"
proof (induction n rule: hex_digits.induct)
  case (1 n)
  then show ?case by (cases "n < 16") (auto simp: hex_digits.simps [of n])
qed

lemma hex_digit_no_sign: "n < 16 \<Longrightarrow> hex_digit n \<noteq> CHR ''-'' \<and> hex_digit n \<noteq> CHR ''+''"
  by (auto simp: hex_digit_def less_Suc_eq numeral_eq_Suc)

lemma parse_nat_hex: "parse_nat 16 (hex_digits n) = Some (int n)"
  using hex_digits_hd [of n] by (auto simp: parse_nat_def digits_value_hex)

lemma SetString_Text: "SetString 16 (big_Text x) = Some x"
proof (cases "x < 0")
  case True
  then show ?thesis by (simp add: big_Text_def parse_nat_hex)
next
  case False
  obtain d s where "d < 16" "hex_digits (nat x) = hex_digit d # s" using hex_digits_hd by blast
  then show ?thesis using False hex_digit_no_sign [of d] parse_nat_hex [of "nat x"] by (simp add: big_Text_def)
qed

lemma ParseUint_hex: "ParseUint 16 (hex_digits (unat n)) = Some n"
proof -
  obtain d s where "hex_digits (unat n) = hex_digit d # s" using hex_digits_hd by blast
  then have "hex_digits (unat n) \<noteq> []" by simp
  then show ?thesis using unat_uint64_less [of n] by (simp add: ParseUint_def digits_value_hex)
qed

text \<open>C31. what is written as text is read back: an address in the mixed case of EIP-55 (whatever digest decides
  the case, as long as it has 32 bytes), a hash, a 64-bit number, a number of any size and sign, bytes.\<close>

theorem text_roundtrip:
  assumes "\<And>m. length (Keccak256 L m) = 32"
  shows "(\<exists>s. Address_String L a = Some s \<and> Address_UnmarshalText s = Some a) \<and>
    Hash_UnmarshalText (Hash_String h) = h \<and>
    ParseUint64orHex (Some (EncodeUint64 n)) = Some n \<and> DecodeUint64 (hex_EncodeUint64 n) = Some n \<and>
    ParseUint256orHex (Some (EncodeBigInt x)) = Some (Some x) \<and>
    ParseBytes (Some (EncodeBytes bs)) = Some bs \<and> MustDecodeHex (EncodeToHex bs) = Some bs"
proof (intro conjI)
  show "\<exists>s. Address_String L a = Some s \<and> Address_UnmarshalText s = Some a" using assms by (rule Address_text)
  show "Hash_UnmarshalText (Hash_String h) = h"
    by (simp add: Hash_UnmarshalText_def Hash_String_def EncodeToHex_def stringToBytes_prefixed del: append_Cons append_Nil)
  show "ParseUint64orHex (Some (EncodeUint64 n)) = Some n"
    by (simp add: ParseUint64orHex_def EncodeUint64_def HasPrefix_def ParseUint_hex)
  show "DecodeUint64 (hex_EncodeUint64 n) = Some n"
    by (simp add: DecodeUint64_def hex_EncodeUint64_def TrimPrefix_def HasPrefix_def ParseUint_hex)
  show "ParseUint256orHex (Some (EncodeBigInt x)) = Some (Some x)"
    by (simp add: ParseUint256orHex_def EncodeBigInt_def HasPrefix_def SetString_Text)
  show "ParseBytes (Some (EncodeBytes bs)) = Some bs"
    by (simp add: ParseBytes_def EncodeBytes_def TrimPrefix_def HasPrefix_def)
  show "MustDecodeHex (EncodeToHex bs) = Some bs"
    by (simp add: MustDecodeHex_def EncodeToHex_def DecodeHex_def TrimPrefix_def HasPrefix_def)
qed

theorem text_roundtrip_witness:
  "\<exists>s. Address_String (plain_crypto\<lparr>Keccak256 := \<lambda>m. replicate 32 0x8f\<rparr>) 0xabcdef = Some s \<and>
     Address_UnmarshalText s = Some 0xabcdef"
  using text_roundtrip [where L = "plain_crypto\<lparr>Keccak256 := \<lambda>m. replicate 32 0x8f\<rparr>" and a = "0xabcdef"] by simp

text \<open>The comment on \<open>EncodeBig\<close> says that the sign is ignored.\<close>

lemma EncodeBig_sign: "EncodeBig (-26) = ''-0x1a'' \<and> EncodeBigInt (-26) = ''0x-1a''"
  using BitLen_pos_iff [of "- 26"]
  by (simp add: EncodeBig_def EncodeBigInt_def big_Text_def hex_digits.simps [of 26] hex_digits.simps [of "Suc 0"] hex_digit_def)

end
