(* ===== verification/TxPool.thy ===== *)
theory TxPool
  imports TxQueue Transition Hex
begin

section \<open>The transaction pool (\<^verbatim>\<open>txpool/txpool.go\<close>, \<^verbatim>\<open>query.go\<close>)\<close>

text \<open>
  The pool validates transactions, keeps them in the queues of their senders, and hands the best
  priced one to the block builder. Its goroutines talk over channels: \<open>addTx\<close> sends a request to the
  main loop, which starts a handler for it. In the model the requests that were sent and not yet
  handled are part of the state, and a handler takes any of them; what a goroutine does to the pool from
  the request to the end of its handler is one step. The chain the pool reads (the \<^verbatim>\<open>store\<close>
  interface) is an argument of every operation, so it may change between two steps. A loop over a Go
  map has no fixed order: it takes the order as an argument. A nil account, on which the
  code panics, is \<^const>\<open>None\<close>.
\<close>

subsection \<open>State\<close>

datatype txOrigin = local | gossip | reorg

datatype EventType = ADDED | ENQUEUED | PROMOTED | DROPPED | DEMOTED | PRUNED_PROMOTED | PRUNED_ENQUEUED

text \<open>The store, the signer, the forks, and the libraries below them.\<close>

record pool_env =
  po_crypto :: crypto_lib
  po_sig :: sig_lib
  po_signer :: TxSigner
  po_forks :: ForksInTime
  po_Header :: Header
  po_GetNonce :: "Hash \<Rightarrow> Address \<Rightarrow> uint64"
  po_GetBalance :: "Hash \<Rightarrow> Address \<Rightarrow> int option"
  po_GetBlockByHash :: "Hash \<Rightarrow> bool \<Rightarrow> Block option"

record pool_Config =
  cfg_PriceLimit :: uint64
  cfg_MaxSlots :: uint64
  cfg_MaxAccountEnqueued :: uint64
  cfg_DeploymentWhitelist :: "Address list"

record accountsMap =
  am_accounts :: "Address \<rightharpoonup> account"
  am_count :: uint64
  am_maxEnqueuedLimit :: uint64

text \<open>
  The goroutine that prunes waits for a signal, prunes, and sleeps; a signal sent while it does not
  wait is lost (the \<^verbatim>\<open>default\<close> branch of \<open>signalPruning\<close>).
\<close>

datatype prune_loop = Waiting | Signalled | Cooldown

text \<open>
  \<open>p_events\<close> are the calls of \<open>signalEvent\<close> and \<open>p_published\<close> what was sent to the gossip topic, in
  order.
\<close>

record TxPool =
  p_accounts :: accountsMap
  p_executables :: pricedQueue
  p_index :: lookupMap
  p_gauge :: slotGauge
  p_priceLimit :: uint64
  p_enqueueReqs :: "Transaction list"
  p_promoteReqs :: "Address list"
  p_pruning :: prune_loop
  p_sealing :: bool
  p_topic :: bool
  p_whitelist :: "string list"
  p_pending :: uint64
  p_events :: "(EventType \<times> Hash list) list"
  p_published :: "bytes list"

subsection \<open>\<^verbatim>\<open>accountsMap\<close>\<close>

text \<open>
  \<^verbatim>\<open>LoadOrStore\<close> followed by \<^verbatim>\<open>init.Do\<close> is one step here. In the sources another goroutine can see the stored account
  before its queues, its limit and its next nonce are set.
\<close>

definition initOnce :: "Address \<Rightarrow> uint64 \<Rightarrow> accountsMap \<Rightarrow> accountsMap" where
  "initOnce addr nonce m =
     (case am_accounts m addr of
        Some a \<Rightarrow> m
      | None \<Rightarrow>
          let newAccount = \<lparr>pa_enqueued = [], pa_promoted = [], pa_nextNonce = nonce, pa_demotions = 0,
                pa_skips = 0, pa_maxEnqueued = am_maxEnqueuedLimit m\<rparr>
          in m\<lparr>am_accounts := (am_accounts m)(addr \<mapsto> newAccount), am_count := am_count m + 1\<rparr>)"

definition accounts_exists :: "Address \<Rightarrow> accountsMap \<Rightarrow> bool" where
  "accounts_exists addr m \<longleftrightarrow> am_accounts m addr \<noteq> None"

fun getPrimaries :: "Address list \<Rightarrow> accountsMap \<Rightarrow> Transaction list" where
  "getPrimaries [] m = []"
| "getPrimaries (addr # order) m =
     (case am_accounts m addr of
        None \<Rightarrow> getPrimaries order m
      | Some a \<Rightarrow>
          case accountQueue_peek (pa_promoted a) of
            None \<Rightarrow> getPrimaries order m
          | Some tx \<Rightarrow> tx # getPrimaries order m)"

definition accounts_promoted :: "Address list \<Rightarrow> accountsMap \<Rightarrow> uint64" where
  "accounts_promoted order m =
     foldl (\<lambda>total addr. case am_accounts m addr of
              None \<Rightarrow> total | Some a \<Rightarrow> total + accountQueue_length (pa_promoted a)) 0 order"

definition allTxs ::
  "bool \<Rightarrow> accountsMap \<Rightarrow> (Address \<rightharpoonup> Transaction list) \<times> (Address \<rightharpoonup> Transaction list)" where
  "allTxs includeEnqueued m =
     (\<lambda>addr. case am_accounts m addr of None \<Rightarrow> None | Some a \<Rightarrow> if pa_promoted a = [] then None else Some (pa_promoted a),
      \<lambda>addr. case am_accounts m addr of
               None \<Rightarrow> None
             | Some a \<Rightarrow> if \<not> includeEnqueued \<or> pa_enqueued a = [] then None else Some (pa_enqueued a))"

subsection \<open>Small updates\<close>

definition set_account :: "Address \<Rightarrow> account \<Rightarrow> TxPool \<Rightarrow> TxPool" where
  "set_account addr a p = p\<lparr>p_accounts := (p_accounts p)\<lparr>am_accounts := (am_accounts (p_accounts p))(addr \<mapsto> a)\<rparr>\<rparr>"

abbreviation get_account :: "TxPool \<Rightarrow> Address \<rightharpoonup> account" where
  "get_account p \<equiv> am_accounts (p_accounts p)"

definition signalEvent :: "EventType \<Rightarrow> Hash list \<Rightarrow> TxPool \<Rightarrow> TxPool" where
  "signalEvent e hashes p = p\<lparr>p_events := p_events p @ [(e, hashes)]\<rparr>"

definition updatePending :: "int \<Rightarrow> TxPool \<Rightarrow> TxPool" where
  "updatePending i p = p\<lparr>p_pending := p_pending p + word_of_int i\<rparr>"

definition toHash :: "Transaction list \<Rightarrow> Hash list" where
  "toHash txs = map t_Hash txs"

text \<open>Removing transactions from the index and from the gauge, as several operations do.\<close>

definition release :: "sig_lib \<Rightarrow> Transaction list \<Rightarrow> TxPool \<Rightarrow> TxPool" where
  "release S txs p =
     p\<lparr>p_index := index_remove txs (p_index p), p_gauge := gauge_decrease (slotsRequired S txs) (p_gauge p)\<rparr>"

subsection \<open>The deployment whitelist\<close>

definition deploymentWhitelist_allowed :: "crypto_lib \<Rightarrow> string list \<Rightarrow> Address \<Rightarrow> bool option" where
  "deploymentWhitelist_allowed L w addr =
     (if w = [] then Some True else map_option (\<lambda>s. s \<in> set w) (Address_String L addr))"

fun newDeploymentWhitelist :: "crypto_lib \<Rightarrow> Address list \<Rightarrow> string list option" where
  "newDeploymentWhitelist L [] = Some []"
| "newDeploymentWhitelist L (addr # raw) =
     (case (Address_String L addr, newDeploymentWhitelist L raw) of
        (Some s, Some w) \<Rightarrow> Some (s # w)
      | _ \<Rightarrow> None)"

definition NewTxPool :: "crypto_lib \<Rightarrow> bool \<Rightarrow> pool_Config \<Rightarrow> TxPool option" where
  "NewTxPool L network config =
     (case newDeploymentWhitelist L (cfg_DeploymentWhitelist config) of
        None \<Rightarrow> None
      | Some w \<Rightarrow> Some \<lparr>
          p_accounts = \<lparr>am_accounts = Map.empty, am_count = 0, am_maxEnqueuedLimit = cfg_MaxAccountEnqueued config\<rparr>,
          p_executables = [], p_index = Map.empty, p_gauge = \<lparr>sg_height = 0, sg_max = cfg_MaxSlots config\<rparr>,
          p_priceLimit = cfg_PriceLimit config, p_enqueueReqs = [], p_promoteReqs = [], p_pruning = Waiting,
          p_sealing = False, p_topic = network, p_whitelist = w, p_pending = 0, p_events = [], p_published = []\<rparr>)"

definition SetSealing :: "bool \<Rightarrow> TxPool \<Rightarrow> TxPool" where
  "SetSealing sealing p = p\<lparr>p_sealing := sealing\<rparr>"

subsection \<open>Admission\<close>

text \<open>The checks after the sender is known.\<close>

definition validate_state :: "pool_env \<Rightarrow> TxPool \<Rightarrow> Transaction \<Rightarrow> pool_error + Transaction" where
  "validate_state E p tx =
     (if IsUnderpriced tx (p_priceLimit p) then Inl ErrUnderpriced
      else let stateRoot = hd_StateRoot (po_Header E) in
        if t_Nonce tx < po_GetNonce E stateRoot (t_From tx) then Inl ErrNonceTooLow
        else case po_GetBalance E stateRoot (t_From tx) of
          None \<Rightarrow> Inl ErrInvalidAccountState
        | Some accountBalance \<Rightarrow>
            if accountBalance < Cost tx then Inl ErrInsufficientFunds
            else case TransactionGasCost tx (Homestead (po_forks E)) (Istanbul (po_forks E)) of
              None \<Rightarrow> Inl ErrGasCost
            | Some intrinsicGas \<Rightarrow>
                if t_Gas tx < intrinsicGas then Inl ErrIntrinsicGas
                else if hd_GasLimit (po_Header E) < t_Gas tx then Inl ErrBlockLimitExceeded
                else Inr tx)"

definition validateTx :: "pool_env \<Rightarrow> TxPool \<Rightarrow> Transaction \<Rightarrow> (pool_error + Transaction) option" where
  "validateTx E p tx =
     (if txMaxSize < word_of_nat (length (Transaction_MarshalRLP (po_sig E) tx)) then Some (Inl ErrOversizedData)
      else if t_Value tx < 0 then Some (Inl ErrNegativeValue)
      else case Sender (po_crypto E) (po_sig E) (po_signer E) tx of
        None \<Rightarrow> None
      | Some (Inl err) \<Rightarrow> Some (Inl ErrExtractSignature)
      | Some (Inr from) \<Rightarrow>
          if t_From tx \<noteq> 0 \<and> t_From tx \<noteq> from then Some (Inl ErrInvalidSender)
          else let tx = (if t_From tx = 0 then tx\<lparr>t_From := from\<rparr> else tx) in
            if IsContractCreation tx
            then case deploymentWhitelist_allowed (po_crypto E) (p_whitelist p) (t_From tx) of
                None \<Rightarrow> None
              | Some ok \<Rightarrow> if \<not> ok then Some (Inl ErrSmartContractRestricted) else Some (validate_state E p tx)
            else Some (validate_state E p tx))"

definition signalPruning :: "TxPool \<Rightarrow> TxPool" where
  "signalPruning p = (if p_pruning p = Waiting then p\<lparr>p_pruning := Signalled\<rparr> else p)"

definition createAccountOnce :: "pool_env \<Rightarrow> Address \<Rightarrow> TxPool \<Rightarrow> TxPool" where
  "createAccountOnce E newAddr p =
     (if accounts_exists newAddr (p_accounts p) then p
      else let stateNonce = po_GetNonce E (hd_StateRoot (po_Header E)) newAddr
           in p\<lparr>p_accounts := initOnce newAddr stateNonce (p_accounts p)\<rparr>)"

text \<open>The result is the error, if there is one, and the pool.\<close>

definition addTx :: "pool_env \<Rightarrow> txOrigin \<Rightarrow> Transaction \<Rightarrow> TxPool \<Rightarrow> (pool_error option \<times> TxPool) option" where
  "addTx E origin tx p =
     (case validateTx E p tx of
        None \<Rightarrow> None
      | Some (Inl err) \<Rightarrow> Some (Some err, p)
      | Some (Inr tx) \<Rightarrow>
          let pressure = highPressure (p_gauge p);
              p = (if pressure then signalPruning p else p)
          in if pressure \<and> (case get_account p (t_From tx) of None \<Rightarrow> False | Some a \<Rightarrow> pa_nextNonce a < t_Nonce tx)
             then Some (Some ErrRejectFutureTx, p)
             else if sg_max (p_gauge p) < sg_height (p_gauge p) + slotsRequired (po_sig E) [tx]
             then Some (Some ErrTxPoolOverflow, p)
             else let tx = Transaction_ComputeHash (po_crypto E) (po_sig E) tx in
               case index_add tx (p_index p) of
                 None \<Rightarrow> Some (Some ErrAlreadyKnown, p)
               | Some index \<Rightarrow>
                   let p = createAccountOnce E (t_From tx) (p\<lparr>p_index := index\<rparr>);
                       p = p\<lparr>p_enqueueReqs := p_enqueueReqs p @ [tx]\<rparr>
                   in Some (None, signalEvent ADDED [t_Hash tx] p))"

definition AddTx :: "pool_env \<Rightarrow> Transaction \<Rightarrow> TxPool \<Rightarrow> (pool_error option \<times> TxPool) option" where
  "AddTx E tx p =
     (case addTx E local tx p of
        None \<Rightarrow> None
      | Some (Some err, p) \<Rightarrow> Some (Some err, p)
      | Some (None, p) \<Rightarrow>
          Some (None, if p_topic p then p\<lparr>p_published := p_published p @ [Transaction_MarshalRLP (po_sig E) tx]\<rparr> else p))"

datatype gossip_msg = NotTxn | EmptyTxn | RawTxn bytes

definition addGossipTx :: "pool_env \<Rightarrow> 'v rlp_lib \<Rightarrow> gossip_msg \<Rightarrow> TxPool \<Rightarrow> TxPool option" where
  "addGossipTx E R obj p =
     (if \<not> p_sealing p then Some p
      else case obj of
        NotTxn \<Rightarrow> Some p
      | EmptyTxn \<Rightarrow> Some p
      | RawTxn value \<Rightarrow>
          case UnmarshalRlp R (Transaction_UnmarshalRLPFrom R) value of
            None \<Rightarrow> Some p
          | Some tx \<Rightarrow> map_option snd (addTx E gossip tx p))"

subsection \<open>The handlers\<close>

definition handleEnqueueRequest :: "pool_env \<Rightarrow> Transaction \<Rightarrow> TxPool \<Rightarrow> TxPool option" where
  "handleEnqueueRequest E tx p =
     (let addr = t_From tx in
      case get_account p addr of
        None \<Rightarrow> None
      | Some a \<Rightarrow>
          case account_enqueue tx a of
            Inl err \<Rightarrow> Some (p\<lparr>p_index := index_remove [tx] (p_index p)\<rparr>)
          | Inr a \<Rightarrow>
              let p = set_account addr a p;
                  p = p\<lparr>p_gauge := gauge_increase (slotsRequired (po_sig E) [tx]) (p_gauge p)\<rparr>;
                  p = signalEvent ENQUEUED [t_Hash tx] p
              in Some (if pa_nextNonce a < t_Nonce tx then p
                       else p\<lparr>p_promoteReqs := p_promoteReqs p @ [addr]\<rparr>))"

definition handlePromoteRequest :: "pool_env \<Rightarrow> Address \<Rightarrow> TxPool \<Rightarrow> TxPool option" where
  "handlePromoteRequest E addr p =
     (case get_account p addr of
        None \<Rightarrow> None
      | Some a \<Rightarrow>
          let (promoted, pruned, a) = account_promote a;
              p = release (po_sig E) pruned (set_account addr a p);
              p = updatePending (int (length promoted)) p
          in Some (signalEvent PROMOTED (toHash promoted) p))"

definition pruneAccount :: "pool_env \<Rightarrow> Address \<Rightarrow> TxPool \<Rightarrow> TxPool" where
  "pruneAccount E addr p =
     (case get_account p addr of
        None \<Rightarrow> p
      | Some a \<Rightarrow>
          case accountQueue_peek (pa_enqueued a) of
            None \<Rightarrow> p
          | Some firstTx \<Rightarrow>
              if t_Nonce firstTx = pa_nextNonce a then p
              else let (removed, enqueued) = clear (pa_enqueued a)
                   in release (po_sig E) removed (set_account addr (a\<lparr>pa_enqueued := enqueued\<rparr>) p))"

definition pruneAccountsWithNonceHoles :: "pool_env \<Rightarrow> Address list \<Rightarrow> TxPool \<Rightarrow> TxPool" where
  "pruneAccountsWithNonceHoles E order p = foldl (\<lambda>p addr. pruneAccount E addr p) p order"

subsection \<open>Block building\<close>

definition Prepare :: "Address list \<Rightarrow> TxPool \<Rightarrow> TxPool" where
  "Prepare order p =
     (let p = p\<lparr>p_executables := []\<rparr>;
          primaries = getPrimaries order (p_accounts p)
      in p\<lparr>p_executables := foldl pricedQueue_push (p_executables p) primaries\<rparr>)"

definition Peek :: "TxPool \<Rightarrow> Transaction option \<times> TxPool" where
  "Peek p = (let (tx, q) = pricedQueue_pop (p_executables p) in (tx, p\<lparr>p_executables := q\<rparr>))"

definition Pop :: "pool_env \<Rightarrow> Transaction \<Rightarrow> TxPool \<Rightarrow> TxPool option" where
  "Pop E tx p =
     (case get_account p (t_From tx) of
        None \<Rightarrow> None
      | Some a \<Rightarrow>
          let (_, promoted) = accountQueue_pop (pa_promoted a);
              a = a\<lparr>pa_promoted := promoted, pa_demotions := 0\<rparr>;
              p = set_account (t_From tx) a p;
              p = p\<lparr>p_gauge := gauge_decrease (slotsRequired (po_sig E) [tx]) (p_gauge p)\<rparr>;
              p = updatePending (- 1) p
          in Some (case accountQueue_peek promoted of
                     None \<Rightarrow> p
                   | Some tx \<Rightarrow> p\<lparr>p_executables := pricedQueue_push (p_executables p) tx\<rparr>))"

definition Drop :: "pool_env \<Rightarrow> Transaction \<Rightarrow> TxPool \<Rightarrow> TxPool option" where
  "Drop E tx p =
     (case get_account p (t_From tx) of
        None \<Rightarrow> None
      | Some a \<Rightarrow>
          let nextNonce = t_Nonce tx;
              (promoted, q1) = clear (pa_promoted a);
              p = release (po_sig E) promoted p;
              p = updatePending (- int (length promoted)) p;
              (enqueued, q2) = clear (pa_enqueued a);
              p = release (po_sig E) enqueued p;
              p = set_account (t_From tx) (a\<lparr>pa_nextNonce := nextNonce, pa_promoted := q1, pa_enqueued := q2\<rparr>) p
          in Some (signalEvent DROPPED [t_Hash tx] p))"

definition maxAccountDemotions :: uint64 where
  "maxAccountDemotions = 10"

definition maxAccountSkips :: uint64 where
  "maxAccountSkips = 10"

definition map_account :: "(account \<Rightarrow> account) \<Rightarrow> Address \<Rightarrow> TxPool \<Rightarrow> TxPool" where
  "map_account f addr p = (case get_account p addr of None \<Rightarrow> p | Some a \<Rightarrow> set_account addr (f a) p)"

definition Demote :: "pool_env \<Rightarrow> Transaction \<Rightarrow> TxPool \<Rightarrow> TxPool option" where
  "Demote E tx p =
     (case get_account p (t_From tx) of
        None \<Rightarrow> None
      | Some a \<Rightarrow>
          if maxAccountDemotions \<le> pa_demotions a
          then map_option (map_account (pa_demotions_update (\<lambda>_. 0)) (t_From tx)) (Drop E tx p)
          else Some (signalEvent DEMOTED [t_Hash tx]
                 (set_account (t_From tx) (a\<lparr>pa_demotions := pa_demotions a + 1\<rparr>) p)))"

subsection \<open>New blocks\<close>

text \<open>The loop of \<open>resetAccounts\<close> over the new nonces.\<close>

fun reset_loop :: "(Address \<times> uint64) list \<Rightarrow> TxPool \<Rightarrow> Transaction list \<times> Transaction list \<times> TxPool" where
  "reset_loop [] p = ([], [], p)"
| "reset_loop ((addr, newNonce) # nonces) p =
     (case get_account p addr of
        None \<Rightarrow> reset_loop nonces p
      | Some a \<Rightarrow>
          let (prunedPromoted, prunedEnqueued, signal, a) = account_reset newNonce a;
              p = set_account addr (a\<lparr>pa_demotions := 0\<rparr>) p;
              p = (case signal of None \<Rightarrow> p | Some from \<Rightarrow> p\<lparr>p_promoteReqs := p_promoteReqs p @ [from]\<rparr>);
              (pp, pe, p) = reset_loop nonces p
          in (prunedPromoted @ pp, prunedEnqueued @ pe, p))"

definition resetAccounts :: "pool_env \<Rightarrow> (Address \<times> uint64) list \<Rightarrow> TxPool \<Rightarrow> TxPool" where
  "resetAccounts E stateNonces p =
     (if stateNonces = [] then p
      else let (allPrunedPromoted, allPrunedEnqueued, p) = reset_loop stateNonces p;
               p = (if allPrunedPromoted \<noteq> []
                    then updatePending (- int (length allPrunedPromoted))
                           (signalEvent PRUNED_PROMOTED (toHash allPrunedPromoted)
                             (release (po_sig E) allPrunedPromoted p))
                    else p)
           in if allPrunedEnqueued \<noteq> []
              then signalEvent PRUNED_ENQUEUED (toHash allPrunedEnqueued) (release (po_sig E) allPrunedEnqueued p)
              else p)"

definition updateAccountSkips :: "pool_env \<Rightarrow> Address set \<Rightarrow> Address \<Rightarrow> TxPool \<Rightarrow> TxPool option" where
  "updateAccountSkips E latestActiveAccounts address p =
     (case get_account p address of
        None \<Rightarrow> Some p
      | Some a \<Rightarrow>
          if address \<in> latestActiveAccounts then Some (set_account address (a\<lparr>pa_skips := 0\<rparr>) p)
          else case getLowestTx a of
            None \<Rightarrow> Some p
          | Some firstTx \<Rightarrow>
              let a = a\<lparr>pa_skips := pa_skips a + 1\<rparr>; p = set_account address a p
              in if pa_skips a < maxAccountSkips then Some p
                 else map_option (map_account (pa_skips_update (\<lambda>_. 0)) address) (Drop E firstTx p))"

fun updateAccountSkipsCounts :: "pool_env \<Rightarrow> Address list \<Rightarrow> Address set \<Rightarrow> TxPool \<Rightarrow> TxPool option" where
  "updateAccountSkipsCounts E [] latestActiveAccounts p = Some p"
| "updateAccountSkipsCounts E (address # order) latestActiveAccounts p =
     (case updateAccountSkips E latestActiveAccounts address p of
        None \<Rightarrow> None
      | Some p \<Rightarrow> updateAccountSkipsCounts E order latestActiveAccounts p)"

text \<open>The order of the three loops over maps.\<close>

record range_order =
  ro_oldTxs :: "Hash list"
  ro_nonces :: "Address list"
  ro_accounts :: "Address list"

fun old_txs :: "pool_env \<Rightarrow> Header list \<Rightarrow> (Hash \<rightharpoonup> Transaction) \<Rightarrow> (Hash \<rightharpoonup> Transaction)" where
  "old_txs E [] oldTxs = oldTxs"
| "old_txs E (header # headers) oldTxs =
     (case po_GetBlockByHash E (hd_Hash header) True of
        None \<Rightarrow> old_txs E headers oldTxs
      | Some block \<Rightarrow> old_txs E headers (foldl (\<lambda>m tx. m(t_Hash tx \<mapsto> tx)) oldTxs (b_Transactions block)))"

fun collect_nonces :: "pool_env \<Rightarrow> Hash \<Rightarrow> Transaction list \<Rightarrow> (Address \<rightharpoonup> uint64) \<Rightarrow> (Hash \<rightharpoonup> Transaction) \<Rightarrow>
    ((Address \<rightharpoonup> uint64) \<times> (Hash \<rightharpoonup> Transaction)) option" where
  "collect_nonces E stateRoot [] stateNonces oldTxs = Some (stateNonces, oldTxs)"
| "collect_nonces E stateRoot (tx # txs) stateNonces oldTxs =
     (case (if t_From tx \<noteq> 0 then Some (Inr (t_From tx)) else Sender (po_crypto E) (po_sig E) (po_signer E) tx) of
        None \<Rightarrow> None
      | Some (Inl err) \<Rightarrow> collect_nonces E stateRoot txs stateNonces oldTxs
      | Some (Inr addr) \<Rightarrow>
          if stateNonces addr \<noteq> None then collect_nonces E stateRoot txs stateNonces oldTxs
          else collect_nonces E stateRoot txs
                 (stateNonces(addr \<mapsto> po_GetNonce E stateRoot addr)) (oldTxs(t_Hash tx := None)))"

fun collect_blocks :: "pool_env \<Rightarrow> Hash \<Rightarrow> Header list \<Rightarrow> (Address \<rightharpoonup> uint64) \<Rightarrow> (Hash \<rightharpoonup> Transaction) \<Rightarrow> TxPool \<Rightarrow>
    ((Address \<rightharpoonup> uint64) \<times> (Hash \<rightharpoonup> Transaction) \<times> TxPool) option" where
  "collect_blocks E stateRoot [] stateNonces oldTxs p = Some (stateNonces, oldTxs, p)"
| "collect_blocks E stateRoot (header # headers) stateNonces oldTxs p =
     (case po_GetBlockByHash E (hd_Hash header) True of
        None \<Rightarrow> collect_blocks E stateRoot headers stateNonces oldTxs p
      | Some block \<Rightarrow>
          let p = p\<lparr>p_index := index_remove (b_Transactions block) (p_index p)\<rparr>
          in case collect_nonces E stateRoot (b_Transactions block) stateNonces oldTxs of
               None \<Rightarrow> None
             | Some (stateNonces, oldTxs) \<Rightarrow> collect_blocks E stateRoot headers stateNonces oldTxs p)"

fun add_reorged :: "pool_env \<Rightarrow> Hash list \<Rightarrow> (Hash \<rightharpoonup> Transaction) \<Rightarrow> TxPool \<Rightarrow> TxPool option" where
  "add_reorged E [] oldTxs p = Some p"
| "add_reorged E (h # order) oldTxs p =
     (case oldTxs h of
        None \<Rightarrow> add_reorged E order oldTxs p
      | Some tx \<Rightarrow>
          case addTx E reorg tx p of
            None \<Rightarrow> None
          | Some (err, p) \<Rightarrow> add_reorged E order oldTxs p)"

definition processEvent :: "pool_env \<Rightarrow> range_order \<Rightarrow> Header list \<Rightarrow> Header list \<Rightarrow> TxPool \<Rightarrow> TxPool option" where
  "processEvent E ro OldChain NewChain p =
     (let oldTxs = old_txs E OldChain Map.empty;
          stateRoot = hd_StateRoot (po_Header E)
      in case collect_blocks E stateRoot NewChain Map.empty oldTxs p of
           None \<Rightarrow> None
         | Some (stateNonces, oldTxs, p) \<Rightarrow>
             case add_reorged E (ro_oldTxs ro) oldTxs p of
               None \<Rightarrow> None
             | Some p \<Rightarrow>
                 let p = resetAccounts E
                       (List.map_filter (\<lambda>addr. map_option (Pair addr) (stateNonces addr)) (ro_nonces ro)) p
                 in if \<not> p_sealing p then updateAccountSkipsCounts E (ro_accounts ro) (dom stateNonces) p else Some p)"

definition ResetWithHeaders :: "pool_env \<Rightarrow> range_order \<Rightarrow> Header list \<Rightarrow> TxPool \<Rightarrow> TxPool option" where
  "ResetWithHeaders E ro headers p = processEvent E ro [] headers p"

subsection \<open>Queries (\<^verbatim>\<open>query.go\<close>)\<close>

definition pool_GetNonce :: "pool_env \<Rightarrow> Address \<Rightarrow> TxPool \<Rightarrow> uint64" where
  "pool_GetNonce E addr p =
     (case get_account p addr of
        None \<Rightarrow> po_GetNonce E (hd_StateRoot (po_Header E)) addr
      | Some a \<Rightarrow> pa_nextNonce a)"

definition GetCapacity :: "TxPool \<Rightarrow> uint64 \<times> uint64" where
  "GetCapacity p = (sg_height (p_gauge p), sg_max (p_gauge p))"

definition GetPendingTx :: "Hash \<Rightarrow> TxPool \<Rightarrow> Transaction option" where
  "GetPendingTx txHash p = p_index p txHash"

definition GetTxs :: "bool \<Rightarrow> TxPool \<Rightarrow> (Address \<rightharpoonup> Transaction list) \<times> (Address \<rightharpoonup> Transaction list)" where
  "GetTxs inclQueued p = allTxs inclQueued (p_accounts p)"

definition pool_Length :: "Address list \<Rightarrow> TxPool \<Rightarrow> uint64" where
  "pool_Length order p = accounts_promoted order (p_accounts p)"

subsection \<open>The pool as a state machine\<close>

text \<open>
  The reachable pools. The steps are what the goroutines of the pool and its users do between them, in any order:
  transactions are added from the RPC and from gossip, the two request handlers and the pruning loop of \<^verbatim>\<open>Start\<close> run,
  the consensus prepares a block, peeks, pops, drops and demotes, and the syncer resets the pool with new headers. A
  step is what a goroutine does while it holds the locks of the accounts it works on. The history of a pool records the
  transactions that were added, and for every call of \<open>Pop\<close> the transaction it was given and the one that
  it took from the queue: \<open>Pop\<close> takes the first of the queue and does not look at it.
\<close>

datatype pool_call = Added Transaction | Popped Transaction "Transaction option"

inductive pool_reachable :: "crypto_lib \<Rightarrow> sig_lib \<Rightarrow> pool_call list \<Rightarrow> TxPool \<Rightarrow> bool" for L S where
  start: "NewTxPool L network config = Some p \<Longrightarrow> pool_reachable L S [] p"
| add: "pool_reachable L S h p \<Longrightarrow> po_sig E = S \<Longrightarrow>
    addTx E origin tx p = Some (err, p') \<Longrightarrow> pool_reachable L S (h @ [Added tx]) p'"
| enqueue: "pool_reachable L S h p \<Longrightarrow> po_sig E = S \<Longrightarrow> p_enqueueReqs p = before @ tx # after \<Longrightarrow>
    handleEnqueueRequest E tx (p\<lparr>p_enqueueReqs := before @ after\<rparr>) = Some p' \<Longrightarrow> pool_reachable L S h p'"
| promote: "pool_reachable L S h p \<Longrightarrow> po_sig E = S \<Longrightarrow> p_promoteReqs p = before @ addr # after \<Longrightarrow>
    handlePromoteRequest E addr (p\<lparr>p_promoteReqs := before @ after\<rparr>) = Some p' \<Longrightarrow> pool_reachable L S h p'"
| prune: "pool_reachable L S h p \<Longrightarrow> po_sig E = S \<Longrightarrow> p_pruning p = Signalled \<Longrightarrow>
    pool_reachable L S h ((pruneAccountsWithNonceHoles E order p)\<lparr>p_pruning := Cooldown\<rparr>)"
| wake: "pool_reachable L S h p \<Longrightarrow> p_pruning p = Cooldown \<Longrightarrow> pool_reachable L S h (p\<lparr>p_pruning := Waiting\<rparr>)"
| prepare: "pool_reachable L S h p \<Longrightarrow> pool_reachable L S h (Prepare order p)"
| peek: "pool_reachable L S h p \<Longrightarrow> Peek p = (tx, p') \<Longrightarrow> pool_reachable L S h p'"
| pop: "pool_reachable L S h p \<Longrightarrow> po_sig E = S \<Longrightarrow> get_account p (t_From tx) = Some a \<Longrightarrow> Pop E tx p = Some p' \<Longrightarrow>
    pool_reachable L S (h @ [Popped tx (accountQueue_peek (pa_promoted a))]) p'"
| drop: "pool_reachable L S h p \<Longrightarrow> po_sig E = S \<Longrightarrow> Drop E tx p = Some p' \<Longrightarrow> pool_reachable L S h p'"
| demote: "pool_reachable L S h p \<Longrightarrow> po_sig E = S \<Longrightarrow> Demote E tx p = Some p' \<Longrightarrow> pool_reachable L S h p'"
| reset: "pool_reachable L S h p \<Longrightarrow> po_sig E = S \<Longrightarrow> ResetWithHeaders E ro headers p = Some p' \<Longrightarrow>
    pool_reachable L S h p'"
| sealing: "pool_reachable L S h p \<Longrightarrow> pool_reachable L S h (SetSealing b p)"

text \<open>What the calls of \<open>Pop\<close> that took another transaction than the one they were given did to the books.\<close>

fun slots_drift :: "sig_lib \<Rightarrow> pool_call list \<Rightarrow> uint64" where
  "slots_drift S [] = 0"
| "slots_drift S (Added tx # h) = slots_drift S h"
| "slots_drift S (Popped tx r # h) =
     slotsRequired S (case r of None \<Rightarrow> [] | Some u \<Rightarrow> [u]) - slotsRequired S [tx] + slots_drift S h"

fun pending_drift :: "pool_call list \<Rightarrow> uint64" where
  "pending_drift [] = 0"
| "pending_drift (Added tx # h) = pending_drift h"
| "pending_drift (Popped tx r # h) = (if r = None then - 1 else 0) + pending_drift h"

lemma drift_append [simp]:
  "slots_drift S (h @ h') = slots_drift S h + slots_drift S h'" "pending_drift (h @ h') = pending_drift h + pending_drift h'"
  by (induction h rule: slots_drift.induct) simp_all

lemma no_drift:
  "(\<forall>tx r. Popped tx r \<in> set h \<longrightarrow> r = Some tx) \<Longrightarrow> slots_drift S h = 0 \<and> pending_drift h = 0"
proof (induction h rule: slots_drift.induct)
  case (3 S tx r h)
  have "r = Some tx" "\<forall>tx r. Popped tx r \<in> set h \<longrightarrow> r = Some tx" using "3.prems" by simp_all
  then show ?case using "3.IH" by simp
qed simp_all

text \<open>No transaction with the last nonce was added, see \<open>TxQueue.promote_last_nonce\<close>.\<close>

definition nonces_below :: "pool_call list \<Rightarrow> bool" where
  "nonces_below h \<longleftrightarrow> (\<forall>tx. Added tx \<in> set h \<longrightarrow> t_Nonce tx \<noteq> last_nonce)"

lemma nonces_below_append [simp]: "nonces_below (h @ h') \<longleftrightarrow> nonces_below h \<and> nonces_below h'"
  by (auto simp: nonces_below_def)

lemma nonces_below_Added [simp]: "nonces_below [Added tx] \<longleftrightarrow> t_Nonce tx \<noteq> last_nonce" "nonces_below [Popped tx r]"
  by (auto simp: nonces_below_def)

subsection \<open>The books of the pool\<close>

text \<open>
  \<open>total f m\<close> adds \<open>f\<close> over all accounts. A pool is \<open>pool_ok\<close> up to \<open>d\<close> slots and \<open>n\<close> transactions
  when the queues of every account are sound, the gauge is \<open>d\<close> above the slots of all queued
  transactions, and the counter of pending transactions is \<open>n\<close> above the number of promoted ones. The invariant of
  the nonces is part of it if \<open>K\<close> holds.
\<close>

definition total :: "(account \<Rightarrow> uint64) \<Rightarrow> (Address \<rightharpoonup> account) \<Rightarrow> uint64" where
  "total f m = (\<Sum>addr \<in> dom m. f (the (m addr)))"

definition account_slots :: "sig_lib \<Rightarrow> account \<Rightarrow> uint64" where
  "account_slots S a = slotsRequired S (pa_enqueued a) + slotsRequired S (pa_promoted a)"

definition pool_ok :: "sig_lib \<Rightarrow> bool \<Rightarrow> uint64 \<Rightarrow> uint64 \<Rightarrow> TxPool \<Rightarrow> bool" where
  "pool_ok S K d n p \<longleftrightarrow>
     finite (dom (get_account p)) \<and> (\<forall>addr a. get_account p addr = Some a \<longrightarrow> account_ok K addr a) \<and>
     sg_height (p_gauge p) = total (account_slots S) (get_account p) + d \<and>
     p_pending p = total (accountQueue_length \<circ> pa_promoted) (get_account p) + n \<and>
     (\<forall>tx \<in> set (p_enqueueReqs p). (K \<longrightarrow> t_Nonce tx \<noteq> last_nonce) \<and> get_account p (t_From tx) \<noteq> None) \<and>
     (\<forall>addr \<in> set (p_promoteReqs p). get_account p addr \<noteq> None) \<and> prices.valid (p_executables p)"

lemma total_upd:
  assumes "finite (dom m)"
  shows "total f (m(addr \<mapsto> a')) = total f m - (case m addr of None \<Rightarrow> 0 | Some a \<Rightarrow> f a) + f a'"
proof -
  have "(\<Sum>b \<in> dom m - {addr}. f (the ((m(addr \<mapsto> a')) b))) = (\<Sum>b \<in> dom m - {addr}. f (the (m b)))"
    by (rule sum.cong) auto
  moreover have "total f (m(addr \<mapsto> a')) = f a' + (\<Sum>b \<in> dom m - {addr}. f (the ((m(addr \<mapsto> a')) b)))"
    using assms by (simp add: total_def sum.insert_remove)
  moreover have "total f m = (case m addr of None \<Rightarrow> 0 | Some a \<Rightarrow> f a) + (\<Sum>b \<in> dom m - {addr}. f (the (m b)))"
    using assms sum.remove [of "dom m" addr "\<lambda>b. f (the (m b))"] 
    by (cases "m addr") (simp_all add: total_def domIff)
  ultimately show ?thesis by simp
qed

lemma get_set_account [simp]: "get_account (set_account addr a p) = (get_account p)(addr \<mapsto> a)"
  by (simp add: set_account_def)

lemma set_account_sel [simp]:
  "p_gauge (set_account addr a p) = p_gauge p" "p_pending (set_account addr a p) = p_pending p"
  "p_enqueueReqs (set_account addr a p) = p_enqueueReqs p" "p_promoteReqs (set_account addr a p) = p_promoteReqs p"
  "p_executables (set_account addr a p) = p_executables p" "p_pruning (set_account addr a p) = p_pruning p"
  by (simp_all add: set_account_def)

lemma pool_ok_set:
  assumes "pool_ok S K d n p" and "get_account p addr = Some a" and "account_ok K addr a'"
    and "d' = d + account_slots S a - account_slots S a'"
    and "n' = n + accountQueue_length (pa_promoted a) - accountQueue_length (pa_promoted a')"
  shows "pool_ok S K d' n' (set_account addr a' p)"
  using assms by (auto simp: pool_ok_def total_upd)

lemma pool_ok_release:
  assumes "pool_ok S K d n p"
  shows "pool_ok S K (d - slotsRequired S txs) n (release S txs p)"
  using assms by (simp add: pool_ok_def release_def gauge_decrease)

lemma pool_ok_pending:
  assumes "pool_ok S K d n p"
  shows "pool_ok S K d (n + word_of_int i) (updatePending i p)"
  using assms by (simp add: pool_ok_def updatePending_def)

lemma pool_ok_signal [simp]: "pool_ok S K d n (signalEvent e hs p) \<longleftrightarrow> pool_ok S K d n p"
  by (simp add: pool_ok_def signalEvent_def)

lemma pool_ok_mono: "pool_ok S K d n p \<Longrightarrow> (K' \<Longrightarrow> K) \<Longrightarrow> pool_ok S K' d n p"
  by (auto simp: pool_ok_def account_ok_def)

lemma pool_ok_index [simp]: "pool_ok S K d n (p\<lparr>p_index := m\<rparr>) \<longleftrightarrow> pool_ok S K d n p"
  by (simp add: pool_ok_def)

lemma pool_ok_pruning [simp]: "pool_ok S K d n (p\<lparr>p_pruning := l\<rparr>) \<longleftrightarrow> pool_ok S K d n p"
  by (simp add: pool_ok_def)

lemma pool_ok_executables: "pool_ok S K d n p \<Longrightarrow> prices.valid q \<Longrightarrow> pool_ok S K d n (p\<lparr>p_executables := q\<rparr>)"
  by (simp add: pool_ok_def)

lemma pool_ok_enqueueReq:
  "pool_ok S K d n p \<Longrightarrow> (K \<Longrightarrow> t_Nonce tx \<noteq> last_nonce) \<Longrightarrow> get_account p (t_From tx) \<noteq> None \<Longrightarrow>
    pool_ok S K d n (p\<lparr>p_enqueueReqs := p_enqueueReqs p @ [tx]\<rparr>)"
  by (auto simp: pool_ok_def)

lemma pool_ok_promoteReq:
  "pool_ok S K d n p \<Longrightarrow> get_account p addr \<noteq> None \<Longrightarrow> pool_ok S K d n (p\<lparr>p_promoteReqs := p_promoteReqs p @ [addr]\<rparr>)"
  by (auto simp: pool_ok_def)

lemma slotsRequired_same: "mset xs = mset ys \<Longrightarrow> slotsRequired S xs = slotsRequired S ys"
  by (simp add: slotsRequired_mset)

lemma slotsRequired_append [simp]: "slotsRequired S (xs @ ys) = slotsRequired S xs + slotsRequired S ys"
  by (simp add: slotsRequired_mset)

lemma slotsRequired_union: "mset xs = mset ys + mset zs \<Longrightarrow> slotsRequired S xs = slotsRequired S ys + slotsRequired S zs"
  by (simp add: slotsRequired_mset)

lemma length_union: "mset xs = mset ys + mset zs \<Longrightarrow> length xs = length ys + length zs"
  by (metis size_mset size_union)

lemma accountQueue_length_union:
  "mset xs = mset ys + mset zs \<Longrightarrow> accountQueue_length xs = word_of_nat (length ys) + accountQueue_length zs"
  by (simp add: accountQueue_length_def length_union)

lemma account_slots_counters [simp]:
  "account_slots S (a\<lparr>pa_demotions := k\<rparr>) = account_slots S a" "account_slots S (a\<lparr>pa_skips := k\<rparr>) = account_slots S a"
  by (simp_all add: account_slots_def)

lemma pool_okD: "pool_ok S K d n p \<Longrightarrow> get_account p addr = Some a \<Longrightarrow> account_ok K addr a"
  by (simp add: pool_ok_def)

lemma pool_ok_new:
  assumes "NewTxPool L network config = Some p"
  shows "pool_ok S K 0 0 p"
  using assms by (auto simp: NewTxPool_def pool_ok_def total_def split: option.splits)

lemma pool_ok_create:
  assumes "pool_ok S K d n p"
  shows "pool_ok S K d n (createAccountOnce E addr p) \<and> get_account (createAccountOnce E addr p) addr \<noteq> None"
  using assms
  by (auto simp: createAccountOnce_def accounts_exists_def initOnce_def Let_def pool_ok_def total_upd
      account_slots_def accountQueue_length_def split: option.splits)

lemma validateTx_Nonce: "validateTx E p tx = Some (Inr tx') \<Longrightarrow> t_Nonce tx' = t_Nonce tx"
  by (auto simp: validateTx_def validate_state_def Let_def split: if_splits option.splits sum.splits)

lemma pool_ok_add:
  assumes ok: "pool_ok S K d n p" and tx: "K \<Longrightarrow> t_Nonce tx \<noteq> last_nonce" and add: "addTx E origin tx p = Some (err, p')"
  shows "pool_ok S K d n p'"
proof -
  obtain r where r: "validateTx E p tx = Some r" using add by (auto simp: addTx_def split: option.splits)
  show ?thesis
  proof (cases r)
    case (Inl e)
    then show ?thesis using add r ok by (simp add: addTx_def)
  next
    case (Inr tx')
    define p1 where "p1 = (if highPressure (p_gauge p) then signalPruning p else p)"
    have p1: "pool_ok S K d n p1" using ok by (simp add: p1_def signalPruning_def)
    define tx2 where "tx2 = Transaction_ComputeHash (po_crypto E) (po_sig E) tx'"
    have tx2: "K \<Longrightarrow> t_Nonce tx2 \<noteq> last_nonce" "t_From tx2 = t_From tx'"
      using validateTx_Nonce [of E p tx tx'] r Inr tx by (simp_all add: tx2_def Transaction_ComputeHash_def)
    have eq: "addTx E origin tx p =
      (if highPressure (p_gauge p) \<and> (case get_account p1 (t_From tx') of None \<Rightarrow> False | Some a \<Rightarrow> pa_nextNonce a < t_Nonce tx')
       then Some (Some ErrRejectFutureTx, p1)
       else if sg_max (p_gauge p1) < sg_height (p_gauge p1) + slotsRequired (po_sig E) [tx']
       then Some (Some ErrTxPoolOverflow, p1)
       else case index_add tx2 (p_index p1) of
           None \<Rightarrow> Some (Some ErrAlreadyKnown, p1)
         | Some index \<Rightarrow>
             let q = createAccountOnce E (t_From tx2) (p1\<lparr>p_index := index\<rparr>)
             in Some (None, signalEvent ADDED [t_Hash tx2] (q\<lparr>p_enqueueReqs := p_enqueueReqs q @ [tx2]\<rparr>)))"
      by (simp only: addTx_def r Inr option.case sum.case Let_def p1_def tx2_def)
    consider "p' = p1" | index where "p' = signalEvent ADDED [t_Hash tx2]
        ((createAccountOnce E (t_From tx2) (p1\<lparr>p_index := index\<rparr>))\<lparr>p_enqueueReqs :=
          p_enqueueReqs (createAccountOnce E (t_From tx2) (p1\<lparr>p_index := index\<rparr>)) @ [tx2]\<rparr>)"
      using add unfolding eq Let_def by (auto split: if_splits option.splits)
    then show ?thesis
    proof cases
      case 2
      have "pool_ok S K d n (createAccountOnce E (t_From tx2) (p1\<lparr>p_index := index\<rparr>))"
        "get_account (createAccountOnce E (t_From tx2) (p1\<lparr>p_index := index\<rparr>)) (t_From tx2) \<noteq> None"
        using pool_ok_create p1 by simp_all
      then show ?thesis using 2 tx2 by (simp add: pool_ok_enqueueReq)
    qed (simp add: p1)
  qed
qed

lemma pool_ok_enqueue:
  assumes ok: "pool_ok S K d n p" and "po_sig E = S" and reqs: "p_enqueueReqs p = before @ tx # after"
    and h: "handleEnqueueRequest E tx (p\<lparr>p_enqueueReqs := before @ after\<rparr>) = Some p'"
  shows "pool_ok S K d n p'"
proof -
  let ?p = "p\<lparr>p_enqueueReqs := before @ after\<rparr>"
  have ok': "pool_ok S K d n ?p" using ok reqs by (simp add: pool_ok_def)
  have tx: "K \<Longrightarrow> t_Nonce tx \<noteq> last_nonce" using ok reqs by (simp add: pool_ok_def)
  obtain a where a: "get_account p (t_From tx) = Some a" 
    using h by (auto simp: handleEnqueueRequest_def Let_def split: option.splits)
  show ?thesis
  proof (cases "account_enqueue tx a")
    case (Inl e)
    then show ?thesis using h a ok' by (auto simp: handleEnqueueRequest_def)
  next
    case (Inr a')
    have inv: "account_ok K (t_From tx) a'" and a': "a' = a\<lparr>pa_enqueued := accountQueue_push (pa_enqueued a) tx\<rparr>"
      using account_ok_enqueue [OF pool_okD [OF ok a] Inr HOL.refl tx] by auto
    have "pool_ok S K (d + account_slots S a - account_slots S a') n (set_account (t_From tx) a' ?p)"
      using pool_ok_set [OF ok' _ inv HOL.refl HOL.refl] a a' by simp
    moreover have "account_slots S a' = account_slots S a + slotsRequired S [tx]"
      using a' by (simp add: account_slots_def slotsRequired_mset)
    ultimately have "pool_ok S K d n ((set_account (t_From tx) a' ?p)\<lparr>p_gauge :=
        gauge_increase (slotsRequired S [tx]) (p_gauge p)\<rparr>)"
      by (simp add: pool_ok_def gauge_increase_def)
    moreover define q where "q = signalEvent ENQUEUED [t_Hash tx] ((set_account (t_From tx) a' ?p)\<lparr>p_gauge :=
        gauge_increase (slotsRequired S [tx]) (p_gauge p)\<rparr>)"
    ultimately have q: "pool_ok S K d n q" "get_account q (t_From tx) = Some a'"
      by simp (simp add: q_def signalEvent_def)
    have "p' = (if pa_nextNonce a' < t_Nonce tx then q else q\<lparr>p_promoteReqs := p_promoteReqs q @ [t_From tx]\<rparr>)"
      using h a Inr \<open>po_sig E = S\<close> by (auto simp: handleEnqueueRequest_def Let_def q_def split: if_splits)
    then show ?thesis using q by (simp add: pool_ok_promoteReq)
  qed
qed

lemma pool_ok_promote:
  assumes ok: "pool_ok S K d n p" and "po_sig E = S" and reqs: "p_promoteReqs p = before @ addr # after"
    and h: "handlePromoteRequest E addr (p\<lparr>p_promoteReqs := before @ after\<rparr>) = Some p'"
  shows "pool_ok S K d n p'"
proof -
  let ?p = "p\<lparr>p_promoteReqs := before @ after\<rparr>"
  have ok': "pool_ok S K d n ?p" using ok reqs by (simp add: pool_ok_def)
  obtain a where a: "get_account p addr = Some a" using h by (auto simp: handlePromoteRequest_def split: option.splits)
  obtain ps prs a' where r: "account_promote a = (ps, prs, a')" using prod_cases3 by blast
  have inv: "account_ok K addr a'" "mset (pa_promoted a') = mset ps + mset (pa_promoted a)"
      "mset (pa_enqueued a) = mset ps + mset (prs @ pa_enqueued a')"
    using account_ok_promote [OF pool_okD [OF ok a] r] by (simp_all add: ac_simps)
  have "pool_ok S K (d + account_slots S a - account_slots S a')
      (n + accountQueue_length (pa_promoted a) - accountQueue_length (pa_promoted a')) (set_account addr a' ?p)"
    using pool_ok_set [OF ok' _ inv(1) HOL.refl HOL.refl] a by simp
  moreover have "account_slots S a = account_slots S a' + slotsRequired S prs"
    using slotsRequired_union [OF inv(2)] slotsRequired_union [OF inv(3)] by (simp add: account_slots_def)
  moreover have "accountQueue_length (pa_promoted a') = word_of_nat (length ps) + accountQueue_length (pa_promoted a)"
    using inv(2) by (rule accountQueue_length_union)
  ultimately have "pool_ok S K (d + slotsRequired S prs) (n - word_of_nat (length ps)) (set_account addr a' ?p)" by simp
  from pool_ok_pending [OF pool_ok_release [OF this, of prs], of "int (length ps)"]
  have "pool_ok S K d n (updatePending (int (length ps)) (release S prs (set_account addr a' ?p)))" by simp
  then show ?thesis using h a r \<open>po_sig E = S\<close> by (auto simp: handlePromoteRequest_def Let_def)
qed

lemma pool_ok_pruneAccount: "pool_ok S K d n p \<Longrightarrow> po_sig E = S \<Longrightarrow> pool_ok S K d n (pruneAccount E addr p)"
proof -
  assume ok: "pool_ok S K d n p" and E: "po_sig E = S"
  have "pruneAccount E addr p = p \<or> (\<exists>a. get_account p addr = Some a \<and>
      pruneAccount E addr p = release S (pa_enqueued a) (set_account addr (a\<lparr>pa_enqueued := []\<rparr>) p))"
    using E by (auto simp: pruneAccount_def clear_def split: option.split)
  then consider "pruneAccount E addr p = p" | a where "get_account p addr = Some a"
      "pruneAccount E addr p = release S (pa_enqueued a) (set_account addr (a\<lparr>pa_enqueued := []\<rparr>) p)" by blast
  then show ?thesis
  proof cases
    case 2
    have "account_ok K addr (a\<lparr>pa_enqueued := []\<rparr>)" using pool_okD [OF ok 2(1)] by (rule account_ok_clear)
    from pool_ok_set [OF ok 2(1) this HOL.refl HOL.refl]
    have "pool_ok S K (d + slotsRequired S (pa_enqueued a)) n (set_account addr (a\<lparr>pa_enqueued := []\<rparr>) p)"
      by (simp add: account_slots_def)
    from pool_ok_release [OF this, of "pa_enqueued a"] show ?thesis using 2 by simp
  qed (simp add: ok)
qed

lemma pool_ok_prune: "pool_ok S K d n p \<Longrightarrow> po_sig E = S \<Longrightarrow> pool_ok S K d n (pruneAccountsWithNonceHoles E order p)"
  unfolding pruneAccountsWithNonceHoles_def by (induction order arbitrary: p) (simp_all add: pool_ok_pruneAccount)

lemma pricedQueue_push_valid [simp]: "prices.valid q \<Longrightarrow> prices.valid (pricedQueue_push q tx)"
  by (simp add: pricedQueue_push_def prices.heap_Push_valid)

lemma push_all_valid: "prices.valid q \<Longrightarrow> prices.valid (foldl pricedQueue_push q txs)"
  by (induction txs arbitrary: q) simp_all

lemma pool_ok_Prepare: "pool_ok S K d n p \<Longrightarrow> pool_ok S K d n (Prepare order p)"
  by (simp add: Prepare_def Let_def pool_ok_executables push_all_valid)

lemma pool_ok_Peek: "pool_ok S K d n p \<Longrightarrow> Peek p = (tx, p') \<Longrightarrow> pool_ok S K d n p'"
  using prices.heap_Pop_valid [of "p_executables p"]
  by (auto simp: Peek_def pricedQueue_pop_def case_prod_beta pool_ok_def)

lemma pool_ok_Pop:
  assumes ok: "pool_ok S K d n p" and "po_sig E = S" and a: "get_account p (t_From tx) = Some a" and pop: "Pop E tx p = Some p'"
  defines "r \<equiv> accountQueue_peek (pa_promoted a)"
  shows "pool_ok S K (d + slots_drift S [Popped tx r]) (n + pending_drift [Popped tx r]) p'"
proof -
  obtain u q where q: "accountQueue_pop (pa_promoted a) = (u, q)" by fastforce
  define a' where "a' = a\<lparr>pa_promoted := q, pa_demotions := 0\<rparr>"
  note aq = account_ok_pop [OF pool_okD [OF ok a] q, folded r_def]
  have inv: "account_ok K (t_From tx) a'" using aq by (simp add: a'_def)
  have m: "mset (pa_promoted a) = mset (case r of None \<Rightarrow> [] | Some u \<Rightarrow> [u]) + mset q" using aq by blast
  from pool_ok_set [OF ok a inv HOL.refl HOL.refl]
  have "pool_ok S K (d + slotsRequired S (case r of None \<Rightarrow> [] | Some u \<Rightarrow> [u])) (n + (if r = None then 0 else 1)) (set_account (t_From tx) a' p)"
    using slotsRequired_union [OF m] accountQueue_length_union [OF m] by (simp add: a'_def account_slots_def split: option.splits)
  then have "pool_ok S K (d + slots_drift S [Popped tx r]) (n + (if r = None then 0 else 1)) ((set_account (t_From tx) a' p)\<lparr>p_gauge :=
      gauge_decrease (slotsRequired S [tx]) (p_gauge (set_account (t_From tx) a' p))\<rparr>)"
    by (simp add: pool_ok_def gauge_decrease)
  from pool_ok_pending [OF this, of "- 1"]
  have ok': "pool_ok S K (d + slots_drift S [Popped tx r]) (n + pending_drift [Popped tx r]) (updatePending (- 1) ((set_account (t_From tx) a' p)\<lparr>p_gauge :=
      gauge_decrease (slotsRequired S [tx]) (p_gauge (set_account (t_From tx) a' p))\<rparr>))" by (cases r) simp_all
  have "\<exists>es. p' = (updatePending (- 1) ((set_account (t_From tx) a' p)\<lparr>p_gauge :=
      gauge_decrease (slotsRequired S [tx]) (p_gauge (set_account (t_From tx) a' p))\<rparr>))\<lparr>p_executables := es\<rparr> \<and>
      (prices.valid (p_executables p) \<longrightarrow> prices.valid es)"
    using pop a q \<open>po_sig E = S\<close>
    by (cases "accountQueue_peek q") (auto simp: Pop_def a'_def Let_def updatePending_def intro!: exI)
  moreover have "prices.valid (p_executables p)" using ok by (simp add: pool_ok_def)
  ultimately show ?thesis using ok' pool_ok_executables by blast
qed

lemma pool_ok_Drop:
  assumes ok: "pool_ok S K d n p" and "po_sig E = S" and drop: "Drop E tx p = Some p'"
  shows "pool_ok S K d n p'"
proof -
  obtain a where a: "get_account p (t_From tx) = Some a" using drop by (auto simp: Drop_def split: option.splits)
  define a' where "a' = a\<lparr>pa_nextNonce := t_Nonce tx, pa_promoted := [], pa_enqueued := []\<rparr>"
  define q where "q = release S (pa_enqueued a) (updatePending (- int (length (pa_promoted a))) (release S (pa_promoted a) p))"
  have p': "p' = signalEvent DROPPED [t_Hash tx] (set_account (t_From tx) a' q)"
    using drop a \<open>po_sig E = S\<close> by (simp add: Drop_def clear_def Let_def a'_def q_def)
  have "pool_ok S K (d - account_slots S a) (n - accountQueue_length (pa_promoted a)) q"
    using pool_ok_release [OF pool_ok_pending [OF pool_ok_release [OF ok, of "pa_promoted a"],
        of "- int (length (pa_promoted a))"], of "pa_enqueued a"]
    by (simp add: q_def account_slots_def accountQueue_length_def algebra_simps)
  moreover have "get_account q (t_From tx) = Some a" using a by (simp add: q_def release_def updatePending_def)
  moreover have "account_ok K (t_From tx) a'" by (simp add: a'_def)
  moreover have "account_slots S a' = 0" "accountQueue_length (pa_promoted a') = 0"
    by (simp_all add: a'_def account_slots_def accountQueue_length_def)
  ultimately show ?thesis unfolding p' pool_ok_signal by (intro pool_ok_set) auto
qed

lemma pool_ok_map_account:
  assumes "pool_ok S K d n p" and "\<And>a. account_ok K addr a \<Longrightarrow> account_ok K addr (f a)"
    and "\<And>a. account_slots S (f a) = account_slots S a" and "\<And>a. pa_promoted (f a) = pa_promoted a"
  shows "pool_ok S K d n (map_account f addr p)"
proof (cases "get_account p addr")
  case (Some a)
  then show ?thesis
    unfolding map_account_def using assms by (auto intro!: pool_ok_set [OF assms(1) Some] dest: pool_okD)
qed (simp add: map_account_def assms(1))

lemma pool_ok_Demote:
  assumes ok: "pool_ok S K d n p" and "po_sig E = S" and demote: "Demote E tx p = Some p'"
  shows "pool_ok S K d n p'"
proof -
  obtain a where a: "get_account p (t_From tx) = Some a" using demote by (auto simp: Demote_def split: option.splits)
  show ?thesis
  proof (cases "maxAccountDemotions \<le> pa_demotions a")
    case True
    then obtain q where q: "Drop E tx p = Some q" "p' = map_account (pa_demotions_update (\<lambda>_. 0)) (t_From tx) q"
      using demote a by (auto simp: Demote_def)
    show ?thesis unfolding q(2) using pool_ok_Drop [OF ok assms(2) q(1)] by (rule pool_ok_map_account) simp_all
  next
    case False
    then show ?thesis using demote a pool_okD [OF ok a]
      by (auto simp: Demote_def intro!: pool_ok_set [OF ok a])
  qed
qed

lemma peek_in_set: "accountQueue_peek q = Some tx \<Longrightarrow> tx \<in> set q"
  by (auto simp: accountQueue_peek_def split: if_splits)

lemma account_reset_signal:
  assumes "account_ok K addr a" and "account_reset nonce a = (pp, pe, Some from, a')"
  shows "from = addr"
proof -
  obtain first where first: "accountQueue_peek (pa_enqueued a') = Some first" "t_From first = from"
    using assms(2) by (auto simp: account_reset_def Let_def case_prod_beta split: if_splits option.splits)
  then have "first \<in> set (pa_enqueued a')" by (simp add: peek_in_set)
  then show ?thesis using account_ok_reset [OF assms] first by (auto simp: account_ok_def queues_ok_def)
qed

lemma pool_ok_reset_loop:
  assumes "pool_ok S K d n p" and "reset_loop nonces p = (pp, pe, p')"
  shows "pool_ok S K (d + slotsRequired S pp + slotsRequired S pe) (n + word_of_nat (length pp)) p'"
  using assms
proof (induction nonces p arbitrary: d n pp pe p' rule: reset_loop.induct)
  case (2 addr newNonce nonces p)
  show ?case
  proof (cases "get_account p addr")
    case None
    then show ?thesis using 2 by simp
  next
    case (Some a)
    obtain pp1 pe1 signal a' where r: "account_reset newNonce a = (pp1, pe1, signal, a')" using prod_cases4 by blast
    define p1 where "p1 = set_account addr (a'\<lparr>pa_demotions := 0\<rparr>) p"
    have "get_account p1 addr \<noteq> None" by (simp add: p1_def)
    define p2 where "p2 = (case signal of None \<Rightarrow> p1 | Some from \<Rightarrow> p1\<lparr>p_promoteReqs := p_promoteReqs p1 @ [from]\<rparr>)"
    have inv: "account_ok K addr a" using pool_okD [OF "2.prems"(1) Some] .
    have a': "account_ok K addr a'" "mset (pa_promoted a) = mset pp1 + mset (pa_promoted a')"
        "mset (pa_enqueued a) = mset pe1 + mset (pa_enqueued a')"
      using account_ok_reset [OF inv r] by blast+
    have "pool_ok S K (d + slotsRequired S pp1 + slotsRequired S pe1) (n + word_of_nat (length pp1)) p1"
      unfolding p1_def
      by (rule pool_ok_set [OF "2.prems"(1) Some])
        (simp_all add: a'(1) account_slots_def slotsRequired_union [OF a'(2)] slotsRequired_union [OF a'(3)]
          accountQueue_length_union [OF a'(2)])
    then have p2: "pool_ok S K (d + slotsRequired S pp1 + slotsRequired S pe1) (n + word_of_nat (length pp1)) p2"
      using account_reset_signal [OF inv, of newNonce pp1 pe1 _ a'] r \<open>get_account p1 addr \<noteq> None\<close>
      by (cases signal) (simp_all add: p2_def pool_ok_promoteReq)
    obtain pp2 pe2 q where loop': "reset_loop nonces p2 = (pp2, pe2, q)" using prod_cases3 by blast
    then have "q = p'" "pp = pp1 @ pp2" "pe = pe1 @ pe2"
      using "2.prems"(2) Some r unfolding p2_def p1_def by (simp_all add: Let_def)
    then have loop: "reset_loop nonces p2 = (pp2, pe2, p')" using loop' by simp
    have "pool_ok S K (d + slotsRequired S pp1 + slotsRequired S pe1 + slotsRequired S pp2 + slotsRequired S pe2)
        (n + word_of_nat (length pp1) + word_of_nat (length pp2)) p'"
      by (rule "2.IH"(2) [OF Some r [symmetric] HOL.refl HOL.refl HOL.refl p1_def p2_def p2 loop])
    then show ?thesis using \<open>pp = _\<close> \<open>pe = _\<close> by (simp add: ac_simps)
  qed
qed simp

lemma pool_ok_resetAccounts:
  assumes "pool_ok S K d n p" and "po_sig E = S"
  shows "pool_ok S K d n (resetAccounts E stateNonces p)"
proof (cases "stateNonces = []")
  case False
  obtain pp pe q where loop: "reset_loop stateNonces p = (pp, pe, q)" using prod_cases3 by blast
  have 1: "pool_ok S K (d + slotsRequired S pp + slotsRequired S pe) (n + word_of_nat (length pp)) q"
    using pool_ok_reset_loop [OF assms(1) loop] .
  define r where "r = (if pp \<noteq> [] then updatePending (- int (length pp))
      (signalEvent PRUNED_PROMOTED (toHash pp) (release S pp q)) else q)"
  have 2: "pool_ok S K (d + slotsRequired S pe) n r"
    using 1 pool_ok_pending [of S K _ _ "signalEvent PRUNED_PROMOTED (toHash pp) (release S pp q)" "- int (length pp)"]
      pool_ok_release [OF 1, of pp] by (fastforce simp: r_def)
  have "resetAccounts E stateNonces p =
      (if pe \<noteq> [] then signalEvent PRUNED_ENQUEUED (toHash pe) (release S pe r) else r)"
    using False loop assms(2) by (simp add: resetAccounts_def r_def Let_def)
  then show ?thesis using 2 pool_ok_release [OF 2, of pe] by auto
qed (simp add: resetAccounts_def assms(1))

lemma pool_ok_skips:
  assumes ok: "pool_ok S K d n p" and E: "po_sig E = S" and skips: "updateAccountSkips E act addr p = Some p'"
  shows "pool_ok S K d n p'"
proof (cases "get_account p addr")
  case None
  then show ?thesis using ok skips by (simp add: updateAccountSkips_def)
next
  case (Some a)
  have set: "pool_ok S K d n (set_account addr (a\<lparr>pa_skips := k\<rparr>) p)" for k
    using pool_okD [OF ok Some] by (intro pool_ok_set [OF ok Some]) simp_all
  consider "p' = p" | k where "p' = set_account addr (a\<lparr>pa_skips := k\<rparr>) p"
    | k tx q where "Drop E tx (set_account addr (a\<lparr>pa_skips := k\<rparr>) p) = Some q"
        "p' = map_account (pa_skips_update (\<lambda>_. 0)) addr q"
    using skips Some by (auto simp: updateAccountSkips_def Let_def split: if_splits option.splits)
  then show ?thesis
  proof cases
    case 3
    show ?thesis unfolding 3(2) using pool_ok_Drop [OF set E 3(1)] by (rule pool_ok_map_account) simp_all
  qed (use ok set in auto)
qed

lemma pool_ok_skipsCounts:
  "pool_ok S K d n p \<Longrightarrow> po_sig E = S \<Longrightarrow> updateAccountSkipsCounts E order act p = Some p' \<Longrightarrow> pool_ok S K d n p'"
proof (induction order arbitrary: p)
  case (Cons addr order)
  then obtain q where "updateAccountSkips E act addr p = Some q" "updateAccountSkipsCounts E order act q = Some p'"
    by (auto split: option.splits)
  then show ?case using Cons pool_ok_skips by blast
qed simp

lemma pool_ok_collect:
  "collect_blocks E root hs nonces old p = Some (nonces', old', p') \<Longrightarrow> pool_ok S K d n p' = pool_ok S K d n p \<and>
    (\<forall>h. old h = None \<longrightarrow> old' h = None)"
proof (induction hs arbitrary: nonces old p)
  case (Cons h hs)
  have nonces: "collect_nonces E root txs ns o1 = Some (ns', o2) \<Longrightarrow> (\<forall>h. o1 h = None \<longrightarrow> o2 h = None)" for txs ns o1 ns' o2
    by (induction txs arbitrary: ns o1) (auto split: if_splits option.splits sum.splits)
  show ?case
  proof (cases "po_GetBlockByHash E (hd_Hash h) True")
    case (Some block)
    then obtain ns o1 where 1: "collect_nonces E root (b_Transactions block) nonces old = Some (ns, o1)"
        "collect_blocks E root hs ns o1 (p\<lparr>p_index := index_remove (b_Transactions block) (p_index p)\<rparr>) = Some (nonces', old', p')"
      using Cons.prems by (auto simp: Let_def split: option.splits)
    then show ?thesis using Cons.IH [OF 1(2)] nonces [OF 1(1)] by auto
  qed (use Cons in simp)
qed simp

lemma add_reorged_none: "(\<forall>h. old h = None) \<Longrightarrow> add_reorged E order old p = Some p"
  by (induction order) auto

lemma pool_ok_Reset:
  assumes ok: "pool_ok S K d n p" and E: "po_sig E = S" and reset: "ResetWithHeaders E ro headers p = Some p'"
  shows "pool_ok S K d n p'"
proof -
  obtain nonces old q where q: "collect_blocks E (hd_StateRoot (po_Header E)) headers Map.empty Map.empty p = Some (nonces, old, q)"
    using reset by (auto simp: ResetWithHeaders_def processEvent_def split: option.splits)
  have old: "add_reorged E (ro_oldTxs ro) old q = Some q" and "pool_ok S K d n q"
    using pool_ok_collect [OF q] ok by (simp_all add: add_reorged_none)
  define r where "r = resetAccounts E
      (List.map_filter (\<lambda>addr. map_option (Pair addr) (nonces addr)) (ro_nonces ro)) q"
  have r: "pool_ok S K d n r" unfolding r_def using \<open>pool_ok S K d n q\<close> E by (rule pool_ok_resetAccounts)
  have "p' = r \<or> updateAccountSkipsCounts E (ro_accounts ro) (dom nonces) r = Some p'"
    using reset q old by (auto simp: ResetWithHeaders_def processEvent_def Let_def r_def split: if_splits)
  then show ?thesis using r pool_ok_skipsCounts E by blast
qed

lemma pool_reachable_ok: "pool_reachable L S h p \<Longrightarrow> pool_ok S (nonces_below h) (slots_drift S h) (pending_drift h) p"
proof (induction rule: pool_reachable.induct)
  case (start network config p)
  then show ?case by (simp add: pool_ok_new)
next
  case (add h p E origin tx err p')
  have "pool_ok S (nonces_below (h @ [Added tx])) (slots_drift S h) (pending_drift h) p"
    using add.IH by (rule pool_ok_mono) simp
  from pool_ok_add [OF this _ add.hyps(3)] show ?case by simp
next
  case (enqueue h p E before tx after p')
  then show ?case using pool_ok_enqueue by blast
next
  case (promote h p E before addr after p')
  then show ?case using pool_ok_promote by blast
next
  case (prune h p E order)
  then show ?case by (simp add: pool_ok_prune)
next
  case (prepare h p order)
  then show ?case by (simp add: pool_ok_Prepare)
next
  case (peek h p tx p')
  then show ?case using pool_ok_Peek by blast
next
  case (pop h p E tx a p')
  then show ?case using pool_ok_Pop [OF pop.IH pop.hyps(2,3,4)] by simp
next
  case (drop h p E tx p')
  then show ?case using pool_ok_Drop by blast
next
  case (demote h p E tx p')
  then show ?case using pool_ok_Demote by blast
next
  case (reset h p E ro headers p')
  then show ?case using pool_ok_Reset by blast
next
  case (sealing h p b)
  then show ?case by (simp add: SetSealing_def pool_ok_def)
qed simp

subsection \<open>Properties\<close>

text \<open>C8. In every reachable pool each account satisfies its invariant, whatever the interleaving of the steps: both queues
  are heaps, the waiting transactions are not below the next nonce, and the promoted ones are a gapless run of nonces that
  ends just below it, all of them sent by the owner of the account. The one condition is that no transaction with the
  last nonce was added, after which \<^verbatim>\<open>tx.Nonce + 1\<close> wraps.\<close>

theorem pool_accounts_ok:
  assumes "pool_reachable L S h p" and "\<forall>tx. Added tx \<in> set h \<longrightarrow> t_Nonce tx \<noteq> 0xFFFFFFFFFFFFFFFF"
    and "am_accounts (p_accounts p) addr = Some a"
  shows "account_inv addr a"
  using pool_okD [OF pool_reachable_ok [OF assms(1)] assms(3)] assms(2) by (simp add: account_ok_def nonces_below_def)

lemma pool_Length_total:
  assumes "distinct order" and "set order = dom m"
  shows "foldl (\<lambda>n addr. case m addr of None \<Rightarrow> n | Some a \<Rightarrow> n + accountQueue_length (pa_promoted a)) 0 order =
    total (accountQueue_length \<circ> pa_promoted) m"
proof -
  have "foldl (\<lambda>n addr. case m addr of None \<Rightarrow> n | Some a \<Rightarrow> n + accountQueue_length (pa_promoted a)) k xs =
      k + (\<Sum>addr \<in> set xs. accountQueue_length (pa_promoted (the (m addr))))"
    if "distinct xs" and "set xs \<subseteq> dom m" for k xs
    using that by (induction xs arbitrary: k) (auto simp: ac_simps)
  then show ?thesis using assms by (simp add: total_def)
qed

text \<open>C9. The books of the pool, for every interleaving of the steps: the gauge is the slots of all queued
  transactions, and the counter of pending transactions is their number as \<open>Length\<close> counts it, up to exactly what the calls
  of \<open>Pop\<close> were wrong by. A call is wrong when the transaction it is given is no longer the first of its queue; if none
  was, the books are exact. No other step, in whatever order, disturbs them.\<close>

theorem pool_books:
  assumes "pool_reachable L S h p" and "distinct order" and "set order = dom (am_accounts (p_accounts p))"
  shows "fst (GetCapacity p) = total (account_slots S) (am_accounts (p_accounts p)) + slots_drift S h \<and>
    p_pending p = pool_Length order p + pending_drift h \<and>
    ((\<forall>tx r. Popped tx r \<in> set h \<longrightarrow> r = Some tx) \<longrightarrow>
      fst (GetCapacity p) = total (account_slots S) (am_accounts (p_accounts p)) \<and> p_pending p = pool_Length order p)"
proof -
  have "fst (GetCapacity p) = total (account_slots S) (am_accounts (p_accounts p)) + slots_drift S h"
    "p_pending p = pool_Length order p + pending_drift h"
    using pool_reachable_ok [OF assms(1)] pool_Length_total [OF assms(2,3)]
    by (simp_all add: pool_ok_def GetCapacity_def pool_Length_def accounts_promoted_def)
  then show ?thesis using no_drift [of h S] by simp
qed


lemma set_getPrimaries:
  "set (getPrimaries order m) = {tx. \<exists>addr a. addr \<in> set order \<and> am_accounts m addr = Some a \<and>
     accountQueue_peek (pa_promoted a) = Some tx}"
  by (induction order) (auto split: option.splits)

lemma set_push_all: "set (foldl pricedQueue_push q txs) = set q \<union> set txs"
proof (induction txs arbitrary: q)
  case (Cons tx txs)
  have "set (pricedQueue_push q tx) = insert tx (set q)"
    by (metis heap_Push_mset pricedQueue_push_def set_mset_add_mset_insert set_mset_mset)
  then show ?case using Cons by auto
qed simp

lemma Uint64_le:
  assumes "0 \<le> x" and "x < 2 ^ 64" and "0 \<le> y" and "y < 2 ^ 64"
  shows "Uint64 x \<le> Uint64 y \<longleftrightarrow> x \<le> y"
  using assms by (simp add: Uint64_def word_le_def take_bit_int_eq_self uint_word_of_int)

text \<open>C18. After \<open>Prepare\<close> the block builder gets, of the first transactions of all senders, one with the highest price,
  provided these prices fit into 64 bits, and none only when no sender has a promoted transaction. It is the one
  with the lowest nonce of its sender. The code compares the low 64 bits of the prices, so without the
  condition on the prices the first one need not be the best, see \<open>TxQueue.price_wraps\<close>.\<close>

theorem Peek_best:
  assumes "pool_reachable L S h p" and "set order = dom (am_accounts (p_accounts p))"
    and "\<forall>addr a u. am_accounts (p_accounts p) addr = Some a \<longrightarrow> accountQueue_peek (pa_promoted a) = Some u \<longrightarrow>
      0 \<le> t_GasPrice u \<and> t_GasPrice u < 2 ^ 64"
    and "Peek (Prepare order p) = (r, p')"
  shows "case r of
      None \<Rightarrow> \<forall>addr a. am_accounts (p_accounts p) addr = Some a \<longrightarrow> pa_promoted a = []
    | Some tx \<Rightarrow> \<exists>a. am_accounts (p_accounts p) (t_From tx) = Some a \<and> tx \<in> set (pa_promoted a) \<and>
        (\<forall>u \<in> set (pa_promoted a). t_Nonce tx \<le> t_Nonce u) \<and>
        (\<forall>addr a u. am_accounts (p_accounts p) addr = Some a \<longrightarrow> accountQueue_peek (pa_promoted a) = Some u \<longrightarrow>
           t_GasPrice u \<le> t_GasPrice tx)"
proof -
  let ?h = "foldl pricedQueue_push [] (getPrimaries order (p_accounts p))"
  have inv: "queues_ok addr a" if "get_account p addr = Some a" for addr a
    using pool_okD [OF pool_reachable_ok [OF assms(1)] that] by (simp add: account_ok_def)
  have set_h: "set ?h = {tx. \<exists>addr a. get_account p addr = Some a \<and> accountQueue_peek (pa_promoted a) = Some tx}"
    using assms(2) by (auto simp: set_push_all set_getPrimaries)
  have v: "prices.valid ?h" by (simp add: push_all_valid)
  have r: "r = (if ?h = [] then None else Some (?h ! 0))"
    using assms(4) heap_Pop_eq(1) [of ?h maxPriceQueue_Less]
    by (auto simp: Peek_def Prepare_def Let_def pricedQueue_pop_def case_prod_beta split: if_splits)
  show ?thesis
  proof (cases "?h = []")
    case True
    have "pa_promoted a = []" if "get_account p addr = Some a" for addr a
    proof (rule ccontr)
      assume "pa_promoted a \<noteq> []"
      then have "pa_promoted a ! 0 \<in> set ?h" unfolding set_h using that by (auto simp: accountQueue_peek_def)
      then show False using True by simp
    qed
    then show ?thesis using r True by simp
  next
    case False
    then have "?h ! 0 \<in> set ?h" by simp
    then obtain addr a where a: "get_account p addr = Some a" "accountQueue_peek (pa_promoted a) = Some (?h ! 0)"
      unfolding set_h by blast
    have "?h ! 0 \<in> set (pa_promoted a)" using peek_in_set [OF a(2)] .
    moreover have "t_From (?h ! 0) = addr" using inv [OF a(1)] calculation by (auto simp: queues_ok_def)
    moreover have "\<forall>u \<in> set (pa_promoted a). t_Nonce (?h ! 0) \<le> t_Nonce u"
      using valid_head(1) [OF _ a(2)] inv [OF a(1)] by (auto simp: queues_ok_def)
    moreover have "t_GasPrice u \<le> t_GasPrice (?h ! 0)"
      if u: "get_account p addr' = Some a'" "accountQueue_peek (pa_promoted a') = Some u" for addr' a' u
    proof -
      have "Uint64 (t_GasPrice u) \<le> Uint64 (t_GasPrice (?h ! 0))"
        using prices.valid_min [OF v, of u] set_h u by (auto simp: prices_le)
      then show ?thesis using assms(3) u a Uint64_le by blast
    qed
    ultimately show ?thesis using r False a(1) by auto
  qed
qed

subsection \<open>A pool with one transaction\<close>

definition plain_pool_sig :: sig_lib where
  "plain_pool_sig = plain_sig\<lparr>rlp_Marshal := \<lambda>_. [1, 2, 3]\<rparr>"

definition plain_pool_env :: pool_env where
  "plain_pool_env = \<lparr>po_crypto = plain_crypto, po_sig = plain_pool_sig, po_signer = FrontierSigner, po_forks = all_forks,
     po_Header = plain_uncle, po_GetNonce = (\<lambda>_ _. 0), po_GetBalance = (\<lambda>_ _. Some 1000000),
     po_GetBlockByHash = (\<lambda>_ _. None)\<rparr>"

definition plain_pool :: TxPool where
  "plain_pool = the (NewTxPool plain_crypto False \<lparr>cfg_PriceLimit = 0, cfg_MaxSlots = 4096, cfg_MaxAccountEnqueued = 128,
     cfg_DeploymentWhitelist = []\<rparr>)"


lemma plain_pool_env_simps [simp]:
  "po_crypto plain_pool_env = plain_crypto" "po_sig plain_pool_env = plain_pool_sig" "po_signer plain_pool_env = FrontierSigner"
  "po_Header plain_pool_env = plain_uncle" "po_GetNonce plain_pool_env r a = 0" "po_GetBalance plain_pool_env r a = Some 1000000"
  "rlp_Marshal plain_pool_sig v = [1, 2, 3]"
  by (simp_all add: plain_pool_env_def plain_pool_sig_def)

definition plain_sender :: Address where
  "plain_sender = PubKeyToAddress plain_crypto (1, 2)"

lemma small_Bytes: "Bytes 5 = [5]" "Bytes 6 = [6]" "Bytes 27 = [27]"
  by (simp_all add: Bytes_def nat_Bytes.simps [of 5] nat_Bytes.simps [of 6] nat_Bytes.simps [of 27] nat_Bytes.simps [of 0])

lemma plain_Sender: "Frontier_Sender plain_crypto plain_pool_sig (plain_tx 27 5 6) = Some (Inr plain_sender)"
  by (simp add: Frontier_Sender_def recoverSender_def encodeSignature_def ValidateSignatureValues_def small_Bytes
      plain_tx_def big_V_def big_byte_def Int64_def Uint64_def SetBytes_def nat_SetBytes_def secp256k1N_def
      Ecrecover_def RecoverPubkey_def plain_pool_sig_def plain_sig_def plain_sender_def PubKeyToAddress_def)

lemma plain_pool: "NewTxPool plain_crypto False \<lparr>cfg_PriceLimit = 0, cfg_MaxSlots = 4096, cfg_MaxAccountEnqueued = 128,
     cfg_DeploymentWhitelist = []\<rparr> = Some plain_pool"
  by (simp add: plain_pool_def NewTxPool_def)

definition pool_tx :: Transaction where
  "pool_tx = (plain_tx 27 5 6)\<lparr>t_From := plain_sender, t_Hash := BytesToHash (Keccak256 plain_crypto [1, 2, 3])\<rparr>"

lemma plain_validateTx: "validateTx plain_pool_env plain_pool (plain_tx 27 5 6) = Some (Inr ((plain_tx 27 5 6)\<lparr>t_From := plain_sender\<rparr>))"
  by (simp add: validateTx_def plain_Sender Transaction_MarshalRLP_def txMaxSize_def plain_tx_def IsContractCreation_def
    validate_state_def IsUnderpriced_def plain_pool_def NewTxPool_def Cost_def TransactionGasCost_def TxGas_def plain_uncle_def
    plain_Sender [unfolded plain_tx_def])

abbreviation plain_new_account :: account where
  "plain_new_account \<equiv> \<lparr>pa_enqueued = [], pa_promoted = [], pa_nextNonce = 0, pa_demotions = 0, pa_skips = 0, pa_maxEnqueued = 128\<rparr>"

definition pool_added :: TxPool where
  "pool_added = plain_pool\<lparr>p_index := [t_Hash pool_tx \<mapsto> pool_tx], p_enqueueReqs := [pool_tx],
     p_accounts := \<lparr>am_accounts = [plain_sender \<mapsto> plain_new_account], am_count = 1, am_maxEnqueuedLimit = 128\<rparr>,
     p_events := [(ADDED, [t_Hash pool_tx])]\<rparr>"

lemma one_slot: "slotsRequired plain_pool_sig [tx] = 1"
  by (simp add: slotsRequired_def Transaction_Size_def Transaction_MarshalRLP_def txSlotSize_def)

lemma plain_add: "addTx plain_pool_env local (plain_tx 27 5 6) plain_pool = Some (None, pool_added)"
  unfolding addTx_def plain_validateTx
  by (simp add: plain_pool_def NewTxPool_def highPressure_def one_slot pool_tx_def pool_added_def index_add_def Transaction_ComputeHash_def
    createAccountOnce_def accounts_exists_def initOnce_def signalEvent_def Let_def)

definition pool_enqueued :: TxPool where
  "pool_enqueued = pool_added\<lparr>p_enqueueReqs := [], p_gauge := \<lparr>sg_height = 1, sg_max = 4096\<rparr>, p_promoteReqs := [plain_sender],
     p_accounts := \<lparr>am_accounts = [plain_sender \<mapsto> plain_new_account\<lparr>pa_enqueued := [pool_tx]\<rparr>], am_count = 1, am_maxEnqueuedLimit = 128\<rparr>,
     p_events := [(ADDED, [t_Hash pool_tx]), (ENQUEUED, [t_Hash pool_tx])]\<rparr>"

lemma push_empty: "accountQueue_push [] tx = [tx]"
  by (simp add: accountQueue_push_def heap_Push_def up.simps [of _ "[tx]" 0])

lemma pool_tx_simps [simp]: "t_From pool_tx = plain_sender" "t_Nonce pool_tx = 0"
  by (simp_all add: pool_tx_def plain_tx_def)

lemma plain_enqueue: "handleEnqueueRequest plain_pool_env pool_tx (pool_added\<lparr>p_enqueueReqs := [] @ []\<rparr>) = Some pool_enqueued"
  by (simp add: handleEnqueueRequest_def Let_def pool_added_def plain_pool_def NewTxPool_def account_enqueue_def accountQueue_length_def
    push_empty set_account_def gauge_increase_def one_slot signalEvent_def pool_enqueued_def)

definition pool_promoted :: TxPool where
  "pool_promoted = pool_enqueued\<lparr>p_promoteReqs := [], p_pending := 1,
     p_accounts := \<lparr>am_accounts = [plain_sender \<mapsto> plain_new_account\<lparr>pa_promoted := [pool_tx], pa_nextNonce := 1\<rparr>], am_count = 1, am_maxEnqueuedLimit = 128\<rparr>,
     p_events := [(ADDED, [t_Hash pool_tx]), (ENQUEUED, [t_Hash pool_tx]), (PROMOTED, [t_Hash pool_tx])]\<rparr>"

lemma pop_single: "accountQueue_pop [tx] = (Some tx, [])"
  by (simp add: accountQueue_pop_def heap_Pop_def heap_swap_def down.simps [of _ "[tx]" 0 0])

lemma prune_empty: "prune [] n = ([], [])"
  by (simp add: prune.simps [of "[]"] accountQueue_peek_def)

lemma plain_promote: "handlePromoteRequest plain_pool_env plain_sender (pool_enqueued\<lparr>p_promoteReqs := [] @ []\<rparr>) = Some pool_promoted"
  by (simp add: handlePromoteRequest_def pool_enqueued_def pool_added_def plain_pool_def NewTxPool_def account_promote_def accountQueue_peek_def
    promote_loop.simps [of "[pool_tx]"] promote_loop.simps [of "[]"] pop_single push_empty prune_empty release_def index_remove_def gauge_decrease
    set_account_def updatePending_def signalEvent_def toHash_def pool_promoted_def)

lemma reachable_added: "pool_reachable plain_crypto plain_pool_sig [Added (plain_tx 27 5 6)] pool_added"
  using pool_reachable.add [OF pool_reachable.start [OF plain_pool] _ plain_add] by simp

lemma reachable_enqueued: "pool_reachable plain_crypto plain_pool_sig [Added (plain_tx 27 5 6)] pool_enqueued"
  by (rule pool_reachable.enqueue [OF reachable_added _ _ plain_enqueue]) (simp_all add: pool_added_def)

lemma reachable_promoted: "pool_reachable plain_crypto plain_pool_sig [Added (plain_tx 27 5 6)] pool_promoted"
  by (rule pool_reachable.promote [OF reachable_enqueued _ _ plain_promote]) (simp_all add: pool_enqueued_def)

lemma pool_promoted_accounts:
  "am_accounts (p_accounts pool_promoted) = [plain_sender \<mapsto> plain_new_account\<lparr>pa_promoted := [pool_tx], pa_nextNonce := 1\<rparr>]"
  by (simp add: pool_promoted_def)

theorem pool_accounts_ok_witness:
  "account_inv plain_sender (plain_new_account\<lparr>pa_promoted := [pool_tx], pa_nextNonce := 1\<rparr>)"
  using pool_accounts_ok [OF reachable_promoted, of plain_sender] by (simp add: pool_promoted_accounts plain_tx_def)

theorem pool_books_witness: "p_pending pool_promoted = pool_Length [plain_sender] pool_promoted \<and> fst (GetCapacity pool_promoted) = 1"
  using pool_books [OF reachable_promoted, of "[plain_sender]"]
  by (simp add: pool_promoted_accounts GetCapacity_def pool_promoted_def pool_enqueued_def)


theorem Peek_best_witness: "\<exists>p'. Peek (Prepare [plain_sender] pool_promoted) = (Some pool_tx, p')"
proof -
  obtain r p' where r: "Peek (Prepare [plain_sender] pool_promoted) = (r, p')" by fastforce
  have "set [plain_sender] = dom (am_accounts (p_accounts pool_promoted))" by (simp add: pool_promoted_accounts)
  moreover have "\<forall>addr a u. am_accounts (p_accounts pool_promoted) addr = Some a \<longrightarrow> accountQueue_peek (pa_promoted a) = Some u \<longrightarrow>
      0 \<le> t_GasPrice u \<and> t_GasPrice u < 2 ^ 64"
    by (simp add: pool_promoted_accounts accountQueue_peek_def pool_tx_def plain_tx_def)
  ultimately show ?thesis using r Peek_best [OF reachable_promoted _ _ r]
    by (cases r) (auto simp: pool_promoted_accounts split: if_splits dest: spec [of _ plain_sender])
qed

subsection \<open>A transaction that leaves the queue between \<^verbatim>\<open>Peek\<close> and \<^verbatim>\<open>Pop\<close>\<close>

text \<open>The chain after a block with the transaction, and the syncer's reset for it.\<close>

definition synced_env :: pool_env where
  "synced_env = plain_pool_env\<lparr>po_GetNonce := \<lambda>_ _. 1,
     po_GetBlockByHash := \<lambda>_ _. Some \<lparr>b_Header = plain_uncle, b_Transactions = [plain_tx 27 5 6], b_Uncles = []\<rparr>\<rparr>"

lemma synced_env_simps [simp]:
  "po_crypto synced_env = plain_crypto" "po_sig synced_env = plain_pool_sig" "po_signer synced_env = FrontierSigner"
  "po_GetNonce synced_env r a = 1"
  "po_GetBlockByHash synced_env h b = Some \<lparr>b_Header = plain_uncle, b_Transactions = [plain_tx 27 5 6], b_Uncles = []\<rparr>"
  by (simp_all add: synced_env_def)

lemma prune_single: "prune [pool_tx] 1 = ([pool_tx], [])"
  by (simp add: prune.simps [of "[pool_tx]"] accountQueue_peek_def pop_single prune_empty)

lemma single_price: "pricedQueue_push [] tx = [tx]" "pricedQueue_pop [tx] = (Some tx, [])"
  by (simp_all add: pricedQueue_push_def heap_Push_def up.simps [of _ "[tx]" 0] pricedQueue_pop_def heap_Pop_def heap_swap_def
      down.simps [of _ "[tx]" 0 0])

lemma plain_peek: "Peek (Prepare [plain_sender] pool_promoted) = (Some pool_tx, pool_promoted)"
  by (simp add: Prepare_def Peek_def pool_promoted_accounts accountQueue_peek_def single_price)
    (simp add: pool_promoted_def pool_enqueued_def pool_added_def plain_pool_def NewTxPool_def)

abbreviation sync_order :: range_order where
  "sync_order \<equiv> \<lparr>ro_oldTxs = [], ro_nonces = [plain_sender], ro_accounts = [plain_sender]\<rparr>"

definition pool_reset :: TxPool where
  "pool_reset = pool_promoted\<lparr>p_index := index_remove [pool_tx] (index_remove [plain_tx 27 5 6] (p_index pool_promoted)),
     p_accounts := (p_accounts pool_promoted)\<lparr>am_accounts := [plain_sender \<mapsto> plain_new_account\<lparr>pa_nextNonce := 1\<rparr>]\<rparr>,
     p_gauge := \<lparr>sg_height = 0, sg_max = 4096\<rparr>, p_pending := 0,
     p_events := p_events pool_promoted @ [(PRUNED_PROMOTED, [t_Hash pool_tx])]\<rparr>"

lemma plain_collect:
  "collect_blocks synced_env root [plain_uncle] Map.empty Map.empty p =
     Some ([plain_sender \<mapsto> 1], Map.empty, p\<lparr>p_index := index_remove [plain_tx 27 5 6] (p_index p)\<rparr>)"
proof -
  have "Sender plain_crypto plain_pool_sig FrontierSigner (plain_tx 27 5 6) = Some (Inr plain_sender)" by (simp add: plain_Sender)
  moreover have "t_From (plain_tx 27 5 6) = 0" by (simp add: plain_tx_def)
  ultimately show ?thesis by (simp add: fun_upd_idem)
qed

lemma pool_promoted_sel:
  "p_gauge pool_promoted = \<lparr>sg_height = 1, sg_max = 4096\<rparr>" "p_pending pool_promoted = 1" "p_sealing pool_promoted = False"
  by (simp_all add: pool_promoted_def pool_enqueued_def pool_added_def plain_pool_def NewTxPool_def)

lemma plain_resetAccounts:
  assumes "get_account p = [plain_sender \<mapsto> plain_new_account\<lparr>pa_promoted := [pool_tx], pa_nextNonce := 1\<rparr>]"
  shows "resetAccounts synced_env [(plain_sender, 1)] p =
    updatePending (- 1) (signalEvent PRUNED_PROMOTED [t_Hash pool_tx] (release plain_pool_sig [pool_tx]
      (set_account plain_sender (plain_new_account\<lparr>pa_nextNonce := 1\<rparr>) p)))"
  by (simp add: resetAccounts_def assms account_reset_def prune_single toHash_def Let_def)

lemma plain_reset: "ResetWithHeaders synced_env sync_order [plain_uncle] pool_promoted = Some pool_reset"
proof -
  let ?p = "pool_promoted\<lparr>p_index := index_remove [plain_tx 27 5 6] (p_index pool_promoted)\<rparr>"
  have acc: "get_account ?p = [plain_sender \<mapsto> plain_new_account\<lparr>pa_promoted := [pool_tx], pa_nextNonce := 1\<rparr>]"
    by (simp add: pool_promoted_accounts)
  show ?thesis
    by (simp add: ResetWithHeaders_def processEvent_def plain_collect map_filter_simps plain_resetAccounts [OF acc] updateAccountSkips_def
        release_def updatePending_def signalEvent_def set_account_def pool_promoted_sel pool_promoted_accounts gauge_decrease one_slot pool_reset_def
        del: collect_blocks.simps)
qed


end
