(* ===== verification/Builder.thy ===== *)
theory Builder
  imports TxPool Blocks
begin

text \<open>
  How a validator fills a block (\<^verbatim>\<open>consensus/ibft/consensus_backend.go\<close>): \<open>writeTransactions\<close> takes
  transactions from the pool of theory \<open>TxPool\<close> and writes them into the transition of theory \<open>Transition\<close>, until
  the pool has none left, the block is full, or the time for the block is over. The time is the number of iterations
  the loop can make. The pool is shared with other goroutines, whose work is an argument: \<open>before n\<close> and \<open>during n\<close> are
  what they do to the pool before a turn of the loop peeks, and between that and the call that pops, drops or demotes.
\<close>

subsection \<open>\<^verbatim>\<open>writeTransactions\<close>\<close>

datatype status = success | fail | skip

record txExeResult =
  er_tx :: Transaction
  er_status :: status

text \<open>\<^verbatim>\<open>ok\<close> is whether there is a result.\<close>

definition writeTransaction ::
    "pool_env \<Rightarrow> ('s, 't, 'c) tenv \<Rightarrow> Transaction option \<Rightarrow> uint64 \<Rightarrow> ('t, 'c) Transition \<Rightarrow> TxPool \<Rightarrow>
     (txExeResult option \<times> ('t, 'c) Transition \<times> TxPool) outcome" where
  "writeTransaction P E tx gasLimit t p =
     (case tx of
        None \<Rightarrow> Val (None, t, p)
      | Some tx \<Rightarrow>
          if ExceedsBlockGasLimit tx gasLimit
          then obind (of_option (Drop P tx p)) (\<lambda>p.
               obind (WriteFailedReceipt E t tx) (\<lambda>(_, t).
               Val (Some \<lparr>er_tx = tx, er_status = fail\<rparr>, t, p)))
          else obind (Write E t tx) (\<lambda>(err, t). case err of
            Some (GasLimitReachedTransitionApplicationError _) \<Rightarrow> Val (None, t, p)
          | Some (TransitionApplicationError _ recoverable) \<Rightarrow>
              if recoverable
              then obind (of_option (Demote P tx p)) (\<lambda>p. Val (Some \<lparr>er_tx = tx, er_status = skip\<rparr>, t, p))
              else obind (of_option (Drop P tx p)) (\<lambda>p. Val (Some \<lparr>er_tx = tx, er_status = fail\<rparr>, t, p))
          | None \<Rightarrow>
              obind (of_option (Pop P tx p)) (\<lambda>p. Val (Some \<lparr>er_tx = tx, er_status = success\<rparr>, t, p))))"

fun write_loop ::
    "pool_env \<Rightarrow> ('s, 't, 'c) tenv \<Rightarrow> (nat \<Rightarrow> TxPool \<Rightarrow> TxPool) \<Rightarrow> (nat \<Rightarrow> TxPool \<Rightarrow> TxPool) \<Rightarrow> uint64 \<Rightarrow> nat \<Rightarrow>
     Transaction list \<Rightarrow> ('t, 'c) Transition \<Rightarrow> TxPool \<Rightarrow> (Transaction list \<times> ('t, 'c) Transition \<times> TxPool) outcome" where
  "write_loop P E before during gasLimit 0 executed t p = Val (executed, t, p)"
| "write_loop P E before during gasLimit (Suc time) executed t p =
     (let (tx, p) = Peek (before time p) in
      obind (writeTransaction P E tx gasLimit t (during time p)) (\<lambda>(result, t, p). case result of
        None \<Rightarrow> Val (executed, t, p)
      | Some result \<Rightarrow>
          write_loop P E before during gasLimit time
            (case er_status result of success \<Rightarrow> executed @ [er_tx result] | fail \<Rightarrow> executed | skip \<Rightarrow> executed) t p))"

text \<open>\<open>order\<close> is the order in which \<^verbatim>\<open>Range\<close> visits the accounts of the pool.\<close>

definition writeTransactions ::
    "pool_env \<Rightarrow> ('s, 't, 'c) tenv \<Rightarrow> (nat \<Rightarrow> TxPool \<Rightarrow> TxPool) \<Rightarrow> (nat \<Rightarrow> TxPool \<Rightarrow> TxPool) \<Rightarrow> (uint64 \<Rightarrow> bool) \<Rightarrow> Address list \<Rightarrow>
     nat \<Rightarrow> uint64 \<Rightarrow> uint64 \<Rightarrow> ('t, 'c) Transition \<Rightarrow> TxPool \<Rightarrow> (Transaction list \<times> ('t, 'c) Transition \<times> TxPool) outcome" where
  "writeTransactions P E before during ShouldWriteTransactions order time gasLimit blockNumber t p =
     (if \<not> ShouldWriteTransactions blockNumber then Val ([], t, p)
      else write_loop P E before during gasLimit time [] t (Prepare order p))"

text \<open>No other goroutine touches the pool.\<close>

abbreviation alone :: "nat \<Rightarrow> TxPool \<Rightarrow> TxPool" where
  "alone \<equiv> (\<lambda>_ p. p)"

subsection \<open>What the loop does to the pool\<close>

text \<open>
  While a block is written the executables are the first promoted transactions of different accounts.
\<close>

definition heads_ok :: "TxPool \<Rightarrow> bool" where
  "heads_ok p \<longleftrightarrow> distinct (map t_From (p_executables p)) \<and>
     (\<forall>tx \<in> set (p_executables p). \<exists>a. get_account p (t_From tx) = Some a \<and> accountQueue_peek (pa_promoted a) = Some tx)"

text \<open>
  One turn of the loop takes a transaction of account \<open>addr\<close> out of the executables. Either it is popped, and the
  next transaction of the account takes its place, or the account leaves the executables. Other accounts are untouched.
\<close>

definition popped :: "Transaction \<Rightarrow> TxPool \<Rightarrow> TxPool \<Rightarrow> bool" where
  "popped tx p p' \<longleftrightarrow> (\<exists>a a'. get_account p (t_From tx) = Some a \<and> get_account p' = (get_account p)(t_From tx \<mapsto> a') \<and>
     snd (accountQueue_pop (pa_promoted a)) = pa_promoted a' \<and> pa_nextNonce a' = pa_nextNonce a \<and>
     mset (p_executables p') + {#tx#} = mset (p_executables p) +
       (case accountQueue_peek (pa_promoted a') of None \<Rightarrow> {#} | Some u \<Rightarrow> {#u#}))"

definition left :: "Transaction \<Rightarrow> TxPool \<Rightarrow> TxPool \<Rightarrow> bool" where
  "left tx p p' \<longleftrightarrow> (\<exists>a a'. get_account p (t_From tx) = Some a \<and> get_account p' = (get_account p)(t_From tx \<mapsto> a') \<and>
     (pa_promoted a' = pa_promoted a \<or> pa_promoted a' = []) \<and> mset (p_executables p') + {#tx#} = mset (p_executables p))"

lemma mset_pricedQueue_push [simp]: "mset (pricedQueue_push q tx) = add_mset tx (mset q)"
  by (simp add: pricedQueue_push_def)

lemma Peek_Some:
  assumes "Peek p = (Some tx, p')"
  shows "get_account p' = get_account p" and "add_mset tx (mset (p_executables p')) = mset (p_executables p)"
  using assms heap_Pop_eq [of "p_executables p" maxPriceQueue_Less]
  by (auto simp: Peek_def pricedQueue_pop_def case_prod_beta split: if_splits)

lemma Peek_None: "Peek p = (None, p') \<Longrightarrow> p' = p"
  by (auto simp: Peek_def pricedQueue_pop_def case_prod_beta split: if_splits)

lemma release_sel [simp]:
  "get_account (release S txs p) = get_account p" "p_executables (release S txs p) = p_executables p"
  "get_account (updatePending d p) = get_account p" "p_executables (updatePending d p) = p_executables p"
  "get_account (signalEvent e hs p) = get_account p" "p_executables (signalEvent e hs p) = p_executables p"
  by (simp_all add: release_def updatePending_def signalEvent_def)

lemma Pop_popped:
  assumes "Peek p = (Some tx, p1)" and "Pop P tx p1 = Some p'"
  shows "popped tx p p'"
proof -
  note pk = Peek_Some [OF assms(1)]
  obtain a where a: "get_account p (t_From tx) = Some a" using assms(2) pk(1) by (auto simp: Pop_def split: option.splits)
  obtain u q where q: "accountQueue_pop (pa_promoted a) = (u, q)" by fastforce
  show ?thesis unfolding popped_def using assms(2) a q pk(1) pk(2) [symmetric]
    by (intro exI [of _ a] exI [of _ "a\<lparr>pa_promoted := q, pa_demotions := 0\<rparr>"])
      (auto simp: Pop_def Let_def updatePending_def split: option.splits)
qed

lemma Drop_left:
  assumes "Peek p = (Some tx, p1)" and "Drop P tx p1 = Some p'"
  shows "left tx p p'"
  using Peek_Some [OF assms(1)] assms(2)
  by (auto simp: left_def Drop_def Let_def clear_def split: option.splits)

lemma Demote_left:
  assumes "Peek p = (Some tx, p1)" and "Demote P tx p1 = Some p'"
  shows "left tx p p'"
proof -
  obtain a where a: "get_account p1 (t_From tx) = Some a" using assms(2) by (auto simp: Demote_def split: option.splits)
  show ?thesis
  proof (cases "maxAccountDemotions \<le> pa_demotions a")
    case True
    then obtain q where q: "Drop P tx p1 = Some q" "p' = map_account (pa_demotions_update (\<lambda>_. 0)) (t_From tx) q"
      using assms(2) a by (auto simp: Demote_def)
    obtain a a' where "get_account p (t_From tx) = Some a" "get_account q = (get_account p)(t_From tx \<mapsto> a')"
        "pa_promoted a' = pa_promoted a \<or> pa_promoted a' = []" "mset (p_executables q) + {#tx#} = mset (p_executables p)"
      using Drop_left [OF assms(1) q(1)] by (auto simp: left_def)
    then show ?thesis
      by (auto simp: left_def q(2) map_account_def intro!: exI [of _ a] exI [of _ "a'\<lparr>pa_demotions := 0\<rparr>"])
  next
    case False
    then show ?thesis using assms(2) a Peek_Some [OF assms(1)] by (auto simp: Demote_def left_def)
  qed
qed

lemma writeTransaction_cases:
  assumes "writeTransaction P E r gasLimit t p1 = Val (result, t', p')"
  obtains (stop) "result = None" "p' = p1" "r = None \<longrightarrow> t' = t"
      "\<And>tx. r = Some tx \<Longrightarrow> \<not> ExceedsBlockGasLimit tx gasLimit \<and> (\<exists>e. Write E t tx = Val (Some e, t'))"
  | (pop) tx where "r = Some tx" "result = Some \<lparr>er_tx = tx, er_status = success\<rparr>" "Pop P tx p1 = Some p'"
      "Write E t tx = Val (None, t')"
  | (leave) tx st where "r = Some tx" "result = Some \<lparr>er_tx = tx, er_status = st\<rparr>" "st \<noteq> success"
      "Drop P tx p1 = Some p' \<or> Demote P tx p1 = Some p'"
      "ExceedsBlockGasLimit tx gasLimit \<or> (\<exists>e. Write E t tx = Val (Some e, t'))"
proof (cases r)
  case None
  then show ?thesis using stop assms by (simp add: writeTransaction_def)
next
  case (Some tx)
  show ?thesis
  proof (cases "ExceedsBlockGasLimit tx gasLimit")
    case True
    then show ?thesis using leave [of tx fail] Some assms by (auto simp: writeTransaction_def obind_eq_Val)
  next
    case False
    then obtain err t1 where w: "Write E t tx = Val (err, t1)" using assms Some by (auto simp: writeTransaction_def obind_eq_Val)
    show ?thesis
    proof (cases err)
      case None
      then show ?thesis using pop [of tx] w False Some assms by (auto simp: writeTransaction_def obind_eq_Val)
    next
      case e: (Some e)
      show ?thesis
      proof (cases e)
        case (TransitionApplicationError c b)
        then show ?thesis using leave [of tx skip] leave [of tx fail] w e False Some assms
          by (cases b) (auto simp: writeTransaction_def obind_eq_Val)
      next
        case (GasLimitReachedTransitionApplicationError c)
        then show ?thesis using stop w e False Some assms by (auto simp: writeTransaction_def obind_eq_Val)
      qed
    qed
  qed
qed

lemma leave_left:
  assumes "Peek p = (Some tx, p1)" and "Drop P tx p1 = Some p' \<or> Demote P tx p1 = Some p'"
  shows "left tx p p'"
  using assms Drop_left Demote_left by blast

lemma heads_okD:
  assumes "heads_ok p" and "Peek p = (Some tx, p1)"
  obtains a where "get_account p (t_From tx) = Some a" and "accountQueue_peek (pa_promoted a) = Some tx"
    and "heads_ok p1" and "t_From tx \<notin> t_From ` set (p_executables p1)"
    and "\<And>p'. left tx p p' \<Longrightarrow> heads_ok p' \<and> t_From ` set (p_executables p') = t_From ` set (p_executables p1)"
proof -
  note pk = Peek_Some [OF assms(2)]
  have in_p: "tx \<in> set (p_executables p)" "set (p_executables p1) \<subseteq> set (p_executables p)"
    using pk(2) by (metis set_mset_mset union_single_eq_member, metis set_mset_mset set_mset_add_mset_insert subset_insertI)
  then obtain a where a: "get_account p (t_From tx) = Some a" "accountQueue_peek (pa_promoted a) = Some tx"
    using assms(1) by (auto simp: heads_ok_def)
  have "mset (t_From tx # map t_From (p_executables p1)) = mset (map t_From (p_executables p))"
    using pk(2) by (metis list.simps(9) mset.simps(2) mset_map)
  then have d: "distinct (t_From tx # map t_From (p_executables p1))"
    using assms(1) mset_eq_imp_distinct_iff by (fastforce simp: heads_ok_def)
  have l: "heads_ok p' \<and> t_From ` set (p_executables p') = t_From ` set (p_executables p1)" if "left tx p p'" for p'
  proof -
    have m: "mset (p_executables p') = mset (p_executables p1)" using that pk(2) [symmetric] by (auto simp: left_def)
    then have "set (p_executables p') = set (p_executables p1)" by (metis set_mset_mset)
    moreover have "distinct (map t_From (p_executables p'))"
      using d m mset_eq_imp_distinct_iff [of "map t_From (p_executables p')" "map t_From (p_executables p1)"] by simp
    moreover have "get_account p' (t_From u) = get_account p (t_From u)" if "u \<in> set (p_executables p1)" for u
    proof -
      have "t_From u \<noteq> t_From tx" using that d by (metis distinct.simps(2) imageI list.set_map)
      then show ?thesis using \<open>left tx p p'\<close> by (auto simp: left_def)
    qed
    ultimately show ?thesis using assms(1) in_p(2) by (auto simp: heads_ok_def)
  qed
  have "heads_ok p1" using assms(1) d in_p pk(1) by (auto simp: heads_ok_def)
  then show ?thesis using that a d l by auto
qed

lemma popped_heads:
  assumes "heads_ok p" and pk: "Peek p = (Some tx, p1)" and "popped tx p p'" and ok: "pool_ok S K d n p"
  shows "heads_ok p'" and "t_From ` set (p_executables p') \<subseteq> insert (t_From tx) (t_From ` set (p_executables p1))"
    and "K \<Longrightarrow> get_account p' (t_From tx) = Some a' \<Longrightarrow> accountQueue_peek (pa_promoted a') = Some u \<Longrightarrow>
      unat (t_Nonce u) = Suc (unat (t_Nonce tx))"
proof -
  obtain a where a: "get_account p (t_From tx) = Some a" "accountQueue_peek (pa_promoted a) = Some tx"
    and h1: "heads_ok p1" and nin: "t_From tx \<notin> t_From ` set (p_executables p1)"
    using heads_okD [OF assms(1,2)] by metis
  obtain b where b: "get_account p' = (get_account p)(t_From tx \<mapsto> b)" "snd (accountQueue_pop (pa_promoted a)) = pa_promoted b"
      "pa_nextNonce b = pa_nextNonce a"
      "mset (p_executables p') + {#tx#} = mset (p_executables p) +
         (case accountQueue_peek (pa_promoted b) of None \<Rightarrow> {#} | Some u \<Rightarrow> {#u#})"
    using assms(3) a(1) by (auto simp: popped_def)
  have ne: "pa_promoted a \<noteq> []" "pa_promoted a ! 0 = tx" using a(2) by (auto simp: accountQueue_peek_def split: if_splits)
  obtain r where r: "accountQueue_pop (pa_promoted a) = (r, pa_promoted b)" using b(2) by (metis prod.collapse)
  have q: "mset (pa_promoted a) = add_mset tx (mset (pa_promoted b))" using accountQueue_popE [OF r ne(1)] ne(2) by metis
  have inv: "account_ok K (t_From tx) a" using pool_okD [OF ok a(1)] .
  have inv': "account_ok K (t_From tx) (a\<lparr>pa_promoted := pa_promoted b\<rparr>)" using account_ok_pop [OF inv r] by blast
  have fr: "t_From u = t_From tx" if "accountQueue_peek (pa_promoted b) = Some u" for u
    using inv' peek_in_set [OF that] by (simp add: account_ok_def queues_ok_def)
  have m: "mset (p_executables p') = mset (p_executables p1) + (case accountQueue_peek (pa_promoted b) of None \<Rightarrow> {#} | Some u \<Rightarrow> {#u#})"
    using b(4) Peek_Some(2) [OF pk, symmetric] by simp
  have ex: "set (p_executables p') = set (p_executables p1) \<union> set_option (accountQueue_peek (pa_promoted b))"
    using arg_cong [OF m, of set_mset] by (simp split: option.splits)
  then show "t_From ` set (p_executables p') \<subseteq> insert (t_From tx) (t_From ` set (p_executables p1))"
    using fr by (cases "accountQueue_peek (pa_promoted b)") auto
  have "mset (map t_From (p_executables p')) = mset (map t_From (p_executables p1 @
      (case accountQueue_peek (pa_promoted b) of None \<Rightarrow> [] | Some u \<Rightarrow> [u])))"
    unfolding mset_map m by (simp split: option.split)
  then have "distinct (map t_From (p_executables p'))"
    using mset_eq_imp_distinct_iff h1 nin fr by (fastforce simp: heads_ok_def split: option.splits)
  moreover have "get_account p' (t_From v) = get_account p1 (t_From v)" if "v \<in> set (p_executables p1)" for v
    using b(1) Peek_Some(1) [OF pk] nin imageI [OF that, of t_From] by auto
  moreover have "get_account p' (t_From tx) = Some b" using b(1) by simp
  ultimately show "heads_ok p'" using h1 ex fr by (auto simp: heads_ok_def)
  show "unat (t_Nonce u) = Suc (unat (t_Nonce tx))" if K "get_account p' (t_From tx) = Some a'" "accountQueue_peek (pa_promoted a') = Some u"
  proof -
    have inv: "account_inv (t_From tx) a" and inv': "account_inv (t_From tx) (a\<lparr>pa_promoted := pa_promoted b\<rparr>)"
      using inv inv' that(1) by (simp_all add: account_ok_def)
    have ne': "pa_promoted b \<noteq> []" "pa_promoted b ! 0 = u" using that b(1) by (auto simp: accountQueue_peek_def split: if_splits)
    have len: "length q = unat (pa_nextNonce x) - unat (t_Nonce (q ! 0))" "unat (t_Nonce (q ! 0)) < unat (pa_nextNonce x)"
      if "account_inv (t_From tx) x" "pa_promoted x = q" "q \<noteq> []" for x q
      using account_inv_head(1) [OF that(1)] arg_cong [where f = size, OF account_inv_head(2) [OF that(1)]] that(2,3)
      by (simp_all del: mset_upt)
    from len [OF inv HOL.refl ne(1)] len [OF inv' _ ne'(1)] show ?thesis using arg_cong [OF q, of size] ne(2) ne'(2) by simp
  qed
qed

text \<open>
  \<open>in_order p txs\<close>: the transactions of \<open>txs\<close> are promoted in \<open>p\<close>, and those of one sender carry consecutive nonces,
  from that of the sender's first promoted transaction on.
\<close>

abbreviation of_sender :: "Address \<Rightarrow> Transaction list \<Rightarrow> Transaction list" where
  "of_sender addr txs \<equiv> filter (\<lambda>tx. t_From tx = addr) txs"

definition first_of :: "account \<Rightarrow> Transaction list \<Rightarrow> bool" where
  "first_of a txs \<longleftrightarrow> set txs \<subseteq> set (pa_promoted a) \<and> pa_promoted a \<noteq> [] \<and>
     map (unat \<circ> t_Nonce) txs = [unat (t_Nonce (pa_promoted a ! 0))..<unat (t_Nonce (pa_promoted a ! 0)) + length txs]"

definition in_order :: "TxPool \<Rightarrow> Transaction list \<Rightarrow> bool" where
  "in_order p txs \<longleftrightarrow> (\<forall>addr. of_sender addr txs \<noteq> [] \<longrightarrow>
     (\<exists>a. get_account p addr = Some a \<and> first_of a (of_sender addr txs)))"

lemma in_order_left:
  assumes "in_order p' txs" and "left tx p p'" and "\<forall>u \<in> set txs. t_From u \<noteq> t_From tx"
  shows "in_order p txs"
  unfolding in_order_def
proof (intro allI impI)
  fix addr assume ne: "of_sender addr txs \<noteq> []"
  then have "addr \<noteq> t_From tx" using assms(3) by (auto simp: filter_empty_conv)
  then have "get_account p' addr = get_account p addr" using assms(2) by (auto simp: left_def)
  then show "\<exists>a. get_account p addr = Some a \<and> first_of a (of_sender addr txs)"
    using assms(1) ne by (metis in_order_def)
qed

lemma in_order_popped:
  assumes ord: "in_order p' txs" and pop: "popped tx p p'" and a: "get_account p (t_From tx) = Some a"
    and tx: "accountQueue_peek (pa_promoted a) = Some tx"
    and next_nonce: "\<And>a' u. get_account p' (t_From tx) = Some a' \<Longrightarrow> accountQueue_peek (pa_promoted a') = Some u \<Longrightarrow>
      unat (t_Nonce u) = Suc (unat (t_Nonce tx))"
  shows "in_order p (tx # txs)"
proof -
  obtain b where b: "get_account p' = (get_account p)(t_From tx \<mapsto> b)" "snd (accountQueue_pop (pa_promoted a)) = pa_promoted b"
    using pop a by (auto simp: popped_def)
  have ne: "pa_promoted a \<noteq> []" "pa_promoted a ! 0 = tx" using tx by (auto simp: accountQueue_peek_def split: if_splits)
  then have sub: "set (pa_promoted b) \<subseteq> set (pa_promoted a)"
    using b(2) by (metis accountQueue_popE prod.collapse set_mset_mset set_mset_add_mset_insert subset_insertI)
  let ?us = "of_sender (t_From tx) txs"
  have "first_of a (tx # ?us)"
  proof (cases "?us = []")
    case True
    then show ?thesis using ne peek_in_set [OF tx] by (simp add: first_of_def)
  next
    case False
    then have us: "first_of b ?us" using ord b(1) by (auto simp: in_order_def)
    then have "unat (t_Nonce (pa_promoted b ! 0)) = Suc (unat (t_Nonce tx))"
      using next_nonce [of b "pa_promoted b ! 0"] b(1) by (simp add: accountQueue_peek_def first_of_def)
    then show ?thesis using us sub ne peek_in_set [OF tx] by (auto simp: first_of_def upt_conv_Cons simp del: upt_Suc)
  qed
  moreover have "\<exists>c. get_account p addr = Some c \<and> first_of c (of_sender addr txs)"
    if "addr \<noteq> t_From tx" "of_sender addr txs \<noteq> []" for addr
    using that ord b(1) by (auto simp: in_order_def)
  ultimately show ?thesis using a by (auto simp: in_order_def)
qed

lemma write_loop_in_order:
  assumes "write_loop P E alone alone gasLimit time executed t p = Val (executed', t', p')"
    and "pool_reachable L S h p" and "nonces_below h" and "po_sig P = S" and "heads_ok p"
  shows "(\<exists>h'. pool_reachable L S (h @ h') p' \<and> (\<forall>c \<in> set h'. \<exists>tx. c = Popped tx (Some tx))) \<and>
    (\<exists>new. executed' = executed @ new \<and> in_order p new \<and> t_From ` set new \<subseteq> t_From ` set (p_executables p))"
  using assms
proof (induction time arbitrary: executed t p h)
  case 0
  then show ?case by (auto simp: in_order_def intro!: exI [of _ "[]"])
next
  case (Suc time)
  obtain r p1 where pk: "Peek p = (r, p1)" by fastforce
  obtain result t2 p2 where w: "writeTransaction P E r gasLimit t p1 = Val (result, t2, p2)"
    using Suc.prems(1) pk by (auto simp: obind_eq_Val)
  note r1 = pool_reachable.peek [OF Suc.prems(2) pk]
  show ?case using w
  proof (cases rule: writeTransaction_cases)
    case stop
    then show ?thesis using Suc.prems(1) pk w r1 by (auto simp: in_order_def intro!: exI [of _ "[]"])
  next
    case (pop tx)
    note pk = pk [unfolded pop(1)] and popped = Pop_popped [OF pk [unfolded pop(1)] pop(3)]
    obtain a where a: "get_account p (t_From tx) = Some a" "accountQueue_peek (pa_promoted a) = Some tx"
      using heads_okD [OF Suc.prems(5) pk] by metis
    note heads = popped_heads [OF Suc.prems(5) pk popped pool_reachable_ok [OF Suc.prems(2)]]
    have r2: "pool_reachable L S (h @ [Popped tx (Some tx)]) p2"
      using pool_reachable.pop [OF r1 Suc.prems(4) _ pop(3)] a Peek_Some(1) [OF pk] by simp
    have loop: "write_loop P E alone alone gasLimit time (executed @ [tx]) t2 p2 = Val (executed', t', p')"
      using Suc.prems(1) pk w pop(1,2) by simp
    obtain h' new where new: "pool_reachable L S (h @ [Popped tx (Some tx)] @ h') p'" "\<forall>c \<in> set h'. \<exists>tx. c = Popped tx (Some tx)"
        "executed' = executed @ tx # new" "in_order p2 new" "t_From ` set new \<subseteq> t_From ` set (p_executables p2)"
      using Suc.IH [OF loop r2 _ Suc.prems(4) heads(1)] Suc.prems(3) by auto
    have "insert (t_From tx) (t_From ` set (p_executables p1)) = t_From ` set (p_executables p)"
      using arg_cong [OF Peek_Some(2) [OF pk], of set_mset] by (metis image_insert set_mset_add_mset_insert set_mset_mset)
    then have "t_From ` set (tx # new) \<subseteq> t_From ` set (p_executables p)"
      unfolding list.set image_insert using subset_trans [OF new(5) heads(2)] by blast
    moreover have "in_order p (tx # new)" by (rule in_order_popped [OF new(4) popped a]) (rule heads(3) [OF Suc.prems(3)])
    ultimately have "\<exists>new. executed' = executed @ new \<and> in_order p new \<and> t_From ` set new \<subseteq> t_From ` set (p_executables p)"
      using new(3) by (intro exI [of _ "tx # new"] conjI)
    moreover have "\<exists>h'. pool_reachable L S (h @ h') p' \<and> (\<forall>c \<in> set h'. \<exists>tx. c = Popped tx (Some tx))"
      using new(1,2) by (intro exI [of _ "[Popped tx (Some tx)] @ h'"]) auto
    ultimately show ?thesis by blast
  next
    case (leave tx st)
    note pk = pk [unfolded leave(1)] and left = leave_left [OF pk [unfolded leave(1)] leave(4)]
    note hd = heads_okD [OF Suc.prems(5) pk]
    have r2: "pool_reachable L S h p2"
      using leave(4) pool_reachable.drop [OF r1 Suc.prems(4)] pool_reachable.demote [OF r1 Suc.prems(4)] by blast
    have loop: "write_loop P E alone alone gasLimit time executed t2 p2 = Val (executed', t', p')"
      using Suc.prems(1) pk w leave(1,2,3) by (cases st) auto
    have p2: "heads_ok p2" "t_From ` set (p_executables p2) = t_From ` set (p_executables p1)"
        "t_From tx \<notin> t_From ` set (p_executables p1)"
      using hd left by metis+
    obtain new where new: "\<exists>h'. pool_reachable L S (h @ h') p' \<and> (\<forall>c \<in> set h'. \<exists>tx. c = Popped tx (Some tx))"
        "executed' = executed @ new" "in_order p2 new" "t_From ` set new \<subseteq> t_From ` set (p_executables p1)"
      using Suc.IH [OF loop r2 Suc.prems(3,4) p2(1)] p2(2) by auto
    have "t_From ` set (p_executables p1) \<subseteq> t_From ` set (p_executables p)"
      using arg_cong [OF Peek_Some(2) [OF pk], of set_mset]
      by (metis image_mono set_mset_add_mset_insert set_mset_mset subset_insertI)
    moreover have "\<forall>u \<in> set new. t_From u \<noteq> t_From tx" using new(4) p2(3) by (metis imageI subsetD)
    ultimately have "in_order p new" "t_From ` set new \<subseteq> t_From ` set (p_executables p)"
      using in_order_left [OF new(3) left] new(4) by (assumption | blast)+
    then show ?thesis using new(1,2) by (intro conjI exI [of _ new])
  qed
qed

lemma push_all_mset: "mset (foldl pricedQueue_push q txs) = mset q + mset txs"
  by (induction txs arbitrary: q) simp_all

lemma Prepare_heads:
  assumes "pool_ok S K d n p" and "distinct order"
  shows "heads_ok (Prepare order p)" and "get_account (Prepare order p) = get_account p"
proof -
  have inv: "queues_ok addr a" if "get_account p addr = Some a" for addr a
    using pool_okD [OF assms(1) that] by (simp add: account_ok_def)
  have fr: "t_From tx = addr" if "get_account p addr = Some a" "accountQueue_peek (pa_promoted a) = Some tx" for addr a tx
    using inv [OF that(1)] peek_in_set [OF that(2)] by (simp add: queues_ok_def)
  have "distinct (map t_From (getPrimaries order (p_accounts p))) \<and> set (map t_From (getPrimaries order (p_accounts p))) \<subseteq> set order"
    using assms(2) by (induction order) (auto simp: fr split: option.split)
  moreover have "mset (map t_From (p_executables (Prepare order p))) = mset (map t_From (getPrimaries order (p_accounts p)))"
    by (simp add: Prepare_def push_all_mset mset_map del: mset_map [symmetric])
  ultimately have d: "distinct (map t_From (p_executables (Prepare order p)))" using mset_eq_imp_distinct_iff by blast
  show acc: "get_account (Prepare order p) = get_account p" by (simp add: Prepare_def)
  have "set (p_executables (Prepare order p)) = set (getPrimaries order (p_accounts p))"
    by (simp add: Prepare_def set_push_all)
  then show "heads_ok (Prepare order p)"
    using d fr unfolding heads_ok_def acc by (auto simp: set_getPrimaries)
qed

subsection \<open>The loop ends by itself\<close>

definition promoted_txs :: "TxPool \<Rightarrow> nat" where
  "promoted_txs p = (\<Sum>addr \<in> dom (get_account p). length (pa_promoted (the (get_account p addr))))"

definition work :: "TxPool \<Rightarrow> nat" where
  "work p = promoted_txs p + length (p_executables p)"

lemma promoted_txs_upd:
  assumes "finite (dom (get_account p))" and "get_account p addr = Some a" and "get_account p' = (get_account p)(addr \<mapsto> a')"
  shows "promoted_txs p' + length (pa_promoted a) = promoted_txs p + length (pa_promoted a')"
proof -
  have dom: "dom (get_account p') = dom (get_account p)" and i: "addr \<in> dom (get_account p)" using assms(2,3) by auto
  have "(\<Sum>x \<in> dom (get_account p) - {addr}. length (pa_promoted (the (get_account p' x)))) =
      (\<Sum>x \<in> dom (get_account p) - {addr}. length (pa_promoted (the (get_account p x))))"
    using assms(3) by (intro sum.cong) auto
  then show ?thesis unfolding promoted_txs_def dom sum.remove [OF assms(1) i] using assms(2,3) by simp
qed

lemma work_popped:
  assumes "popped tx p p'" and "finite (dom (get_account p))" and "get_account p (t_From tx) = Some a" and "pa_promoted a \<noteq> []"
  shows "work p' < work p"
proof -
  obtain b where b: "get_account p' = (get_account p)(t_From tx \<mapsto> b)" "snd (accountQueue_pop (pa_promoted a)) = pa_promoted b"
      "mset (p_executables p') + {#tx#} = mset (p_executables p) +
         (case accountQueue_peek (pa_promoted b) of None \<Rightarrow> {#} | Some u \<Rightarrow> {#u#})"
    using assms(1,3) by (auto simp: popped_def)
  have "length (pa_promoted a) = Suc (length (pa_promoted b))"
    using b(2) assms(4) by (metis accountQueue_popE prod.collapse size_add_mset size_mset)
  moreover have "length (p_executables p') \<le> length (p_executables p)"
    using arg_cong [OF b(3), of size] by (simp split: option.splits)
  ultimately show ?thesis using promoted_txs_upd [OF assms(2,3) b(1)] by (simp add: work_def)
qed

lemma work_left:
  assumes "left tx p p'" and "finite (dom (get_account p))"
  shows "work p' < work p"
proof -
  obtain a b where ab: "get_account p (t_From tx) = Some a" "get_account p' = (get_account p)(t_From tx \<mapsto> b)"
      "pa_promoted b = pa_promoted a \<or> pa_promoted b = []" "mset (p_executables p') + {#tx#} = mset (p_executables p)"
    using assms(1) by (auto simp: left_def)
  have "length (p_executables p) = Suc (length (p_executables p'))" using arg_cong [OF ab(4), of size] by simp
  then show ?thesis using promoted_txs_upd [OF assms(2) ab(1,2)] ab(3) by (auto simp: work_def)
qed

lemma write_loop_ends:
  assumes "pool_reachable L S h p" and "po_sig P = S" and "heads_ok p" and "work p < time"
  shows "write_loop P E alone alone gasLimit (time + k) executed t p = write_loop P E alone alone gasLimit time executed t p"
  using assms
proof (induction time arbitrary: executed t p h)
  case (Suc time)
  obtain r p1 where pk: "Peek p = (r, p1)" by fastforce
  note r1 = pool_reachable.peek [OF Suc.prems(1) pk]
  note ok = pool_reachable_ok [OF Suc.prems(1)]
  have fin: "finite (dom (get_account p))" using ok by (simp add: pool_ok_def)
  have "write_loop P E alone alone gasLimit (time + k) executed' t2 p2 = write_loop P E alone alone gasLimit time executed' t2 p2"
    if w: "writeTransaction P E r gasLimit t p1 = Val (Some result, t2, p2)" for result t2 p2 executed'
    using w
  proof (cases rule: writeTransaction_cases)
    case (pop tx)
    note pk = pk [unfolded pop(1)] and popped = Pop_popped [OF pk [unfolded pop(1)] pop(3)]
    obtain a where a: "get_account p (t_From tx) = Some a" "accountQueue_peek (pa_promoted a) = Some tx"
      using heads_okD [OF Suc.prems(3) pk] by metis
    have "pool_reachable L S (h @ [Popped tx (Some tx)]) p2"
      using pool_reachable.pop [OF r1 Suc.prems(2) _ pop(3)] a Peek_Some(1) [OF pk] by simp
    moreover have "work p2 < time"
      using work_popped [OF popped fin a(1)] a(2) Suc.prems(4) by (simp add: accountQueue_peek_def split: if_splits)
    ultimately show ?thesis using Suc.IH Suc.prems(2) popped_heads(1) [OF Suc.prems(3) pk popped ok] by blast
  next
    case (leave tx st)
    note pk = pk [unfolded leave(1)] and left = leave_left [OF pk [unfolded leave(1)] leave(4)]
    have "pool_reachable L S h p2"
      using leave(4) pool_reachable.drop [OF r1 Suc.prems(2)] pool_reachable.demote [OF r1 Suc.prems(2)] by blast
    moreover have "heads_ok p2" using heads_okD [OF Suc.prems(3) pk] left by metis
    moreover have "work p2 < time" using work_left [OF left fin] Suc.prems(4) by simp
    ultimately show ?thesis using Suc.IH Suc.prems(2) by blast
  qed simp
  then show ?case using pk
    by (cases "writeTransaction P E r gasLimit t p1") (auto split: option.split)
qed simp

lemma work_Prepare: "work (Prepare order p) \<le> promoted_txs p + length order"
proof -
  have "length (getPrimaries order m) \<le> length order" for m by (induction order) (auto split: option.split)
  moreover have "length (p_executables (Prepare order p)) = length (getPrimaries order (p_accounts p))"
    using arg_cong [OF push_all_mset, of size "[]"] by (simp add: Prepare_def)
  moreover have "promoted_txs (Prepare order p) = promoted_txs p" by (simp add: promoted_txs_def Prepare_def)
  ultimately show ?thesis by (simp add: work_def)
qed

lemma write_loop_fuel:
  assumes "EIP150 (e_config E)"
  shows "write_loop P E before during gasLimit time executed t p \<noteq> NoFuel"
proof -
  have "writeTransaction P E r gasLimit t p \<noteq> NoFuel" for r t p
    by (auto simp: writeTransaction_def obind_eq_NoFuel Write_fuel [OF assms] split: option.split apply_error.split)
  then show ?thesis
    by (induction time arbitrary: executed t p) (auto simp: obind_eq_NoFuel case_prod_beta split: option.split)
qed

subsection \<open>The receipts of the block\<close>

text \<open>A transaction that is not written leaves the block as it was, but for gas that is taken from the pool.\<close>

lemma Apply_Inl_block:
  assumes "Apply E t msg = Val (Inl e, t')" and "e_PostHook E = None"
  shows "tr_ctx t' = tr_ctx t" and "tr_receipts t' = tr_receipts t" and "tr_totalGas t' = tr_totalGas t"
    and "tr_gasPool t' \<le> tr_gasPool t" and "total_supply E (tr_state t') = total_supply E (tr_state t)"
proof -
  obtain t1 where t1: "Transition_apply E (t\<lparr>tr_state := snd (Snapshot (tr_state t))\<rparr>) msg = Val (Inl e, t1)"
    and t': "t' = t1\<lparr>tr_state := (tr_state t1)\<lparr>tx_txn := tx_txn (tr_state t)\<rparr>\<rparr>"
    using Apply_Inl [OF assms] .
  note un = Transition_apply_Inl [OF t1]
  show "tr_ctx t' = tr_ctx t" and "tr_receipts t' = tr_receipts t" and "tr_totalGas t' = tr_totalGas t"
    using un by (simp_all add: t')
  show "total_supply E (tr_state t') = total_supply E (tr_state t)"
    using un(1) by (intro supply_same tree_views(2)) (simp_all add: t')
  have "t_Gas msg \<le> tr_gasPool t" if "cause e \<in> after_pool"
    using t1 that subGasLimitPrice_Some(1,2) [of E "t\<lparr>tr_state := snd (Snapshot (tr_state t))\<rparr>" msg] unfolding Transition_apply_def
    by (auto simp: Let_def obind_eq_Val subGasPool_eq frame_def split: if_split_asm option.split_asm prod.split_asm)
  then show "tr_gasPool t' \<le> tr_gasPool t" using un(6) by (simp add: t' word_sub_le)
qed

lemma Write_Some_block:
  assumes "Write E t txn = Val (Some e, t')" and "e_PostHook E = None"
  shows "tr_ctx t' = tr_ctx t" and "tr_receipts t' = tr_receipts t" and "tr_totalGas t' = tr_totalGas t"
    and "tr_gasPool t' \<le> tr_gasPool t" and "total_supply E (tr_state t') = total_supply E (tr_state t)"
proof -
  consider "t' = t" | msg err where "Apply E t msg = Val (Inl err, t')"
  proof -
    obtain r where r: "with_sender E t txn = Val r" using assms(1) by (auto simp: Write_def obind_eq_Val)
    show ?thesis
    proof (cases r)
      case (Inr txn')
      obtain x t1 where "Apply E t (Transaction_Copy txn') = Val (x, t1)"
        using assms(1) r Inr by (auto simp: Write_def obind_eq_Val Let_def)
      then show ?thesis using that assms(1) r Inr by (cases x) (auto simp: Write_def obind_eq_Val case_prod_beta Let_def)
    qed (use that assms(1) r in \<open>simp add: Write_def\<close>)
  qed
  then have "tr_ctx t' = tr_ctx t \<and> tr_receipts t' = tr_receipts t \<and> tr_totalGas t' = tr_totalGas t \<and>
      tr_gasPool t' \<le> tr_gasPool t \<and> total_supply E (tr_state t') = total_supply E (tr_state t)"
    by cases (auto dest: Apply_Inl_block [OF _ assms(2)])
  then show "tr_ctx t' = tr_ctx t" and "tr_receipts t' = tr_receipts t" and "tr_totalGas t' = tr_totalGas t"
    and "tr_gasPool t' \<le> tr_gasPool t" and "total_supply E (tr_state t') = total_supply E (tr_state t)" by blast+
qed

lemma receipt_TxHash [simp]:
  "rc_TxHash (created_address E msg rc) = rc_TxHash rc" "rc_TxHash (set_bloom E rc) = rc_TxHash rc"
  "rc_TxHash (SetStatus rc st) = rc_TxHash rc" "rc_TxHash (new_receipt g h u) = h"
  by (simp_all add: created_address_def set_bloom_def SetStatus_def SetContractAddress_def new_receipt_def)

lemma Write_TxHash:
  assumes "Write E t txn = Val (None, t')"
  shows "rc_TxHash (last (tr_receipts t')) = t_Hash txn"
proof -
  obtain txn' where s: "with_sender E t txn = Val (Inr txn')" using assms by (auto simp: Write_def obind_case_sum)
  obtain r t1 where "Apply E t (Transaction_Copy txn') = Val (Inr r, t1)"
    using assms s by (auto simp: Write_def obind_case_sum Let_def)
  then show ?thesis using assms s with_sender_Inr [OF s]
    by (auto simp: Write_def obind_eq_Val Let_def case_prod_beta)
qed

text \<open>
  \<open>filled limit t\<close>: the block stays within its gas limit, every receipt has the gas of the block up to it. The gas pool
  may be smaller than what is left of the limit, because of transactions that took gas from it and were not written.
\<close>

definition filled :: "uint64 \<Rightarrow> ('t, 'c) Transition \<Rightarrow> bool" where
  "filled limit t \<longleftrightarrow> (\<exists>l \<le> limit. block_ok l t)"

lemma filled_less_gas:
  assumes "filled limit t" and "tr_receipts t' = tr_receipts t" and "tr_totalGas t' = tr_totalGas t" and "tr_gasPool t' \<le> tr_gasPool t"
  shows "filled limit t'"
proof -
  obtain l where l: "l \<le> limit" "block_ok l t" using assms(1) by (auto simp: filled_def)
  have le: "unat (tr_totalGas t') + unat (tr_gasPool t') \<le> unat l" using l(2) assms(3,4) by (simp add: block_ok_def word_le_nat_alt)
  then have "unat (tr_totalGas t' + tr_gasPool t') = unat (tr_totalGas t') + unat (tr_gasPool t')"
    using unat_uint64_less [of l] by (simp add: unat_add_lem [THEN iffD1])
  moreover from this le have "tr_totalGas t' + tr_gasPool t' \<le> limit" using l(1) by (simp add: word_le_nat_alt)
  ultimately show ?thesis using l(2) assms(2,3) unfolding filled_def block_ok_def by metis
qed

text \<open>
  \<open>admissible\<close>: what the pool hands out to the builder fits into the block. The pool refuses a transaction above the gas
  limit of the latest block, but the limit can go down afterwards.
\<close>

definition fits :: "uint64 \<Rightarrow> Transaction \<Rightarrow> bool" where
  "fits gasLimit tx \<longleftrightarrow> \<not> ExceedsBlockGasLimit tx gasLimit \<and> 0 \<le> t_GasPrice tx \<and> 0 \<le> t_Value tx"

definition admissible :: "uint64 \<Rightarrow> TxPool \<Rightarrow> bool" where
  "admissible gasLimit p \<longleftrightarrow> (\<forall>tx \<in> set (p_executables p). fits gasLimit tx) \<and>
     (\<forall>addr a. get_account p addr = Some a \<longrightarrow> (\<forall>tx \<in> set (pa_promoted a). fits gasLimit tx))"

lemma admissible_upd:
  assumes "admissible gasLimit p" and "get_account p addr = Some a" and "get_account p' = (get_account p)(addr \<mapsto> b)"
    and "set (pa_promoted b) \<subseteq> set (pa_promoted a)" and "set (p_executables p') \<subseteq> set (p_executables p) \<union> set (pa_promoted a)"
  shows "admissible gasLimit p'"
proof -
  have promoted: "\<forall>tx \<in> set (pa_promoted a). fits gasLimit tx" using assms(1,2) unfolding admissible_def by blast
  then have "\<forall>tx \<in> set (pa_promoted b). fits gasLimit tx" using assms(4) by blast
  moreover have "\<forall>tx \<in> set (p_executables p'). fits gasLimit tx" using assms(1,5) promoted unfolding admissible_def by blast
  ultimately show ?thesis using assms(1,3) unfolding admissible_def by (metis fun_upd_apply option.inject)
qed

lemma set_pricedQueue_push [simp]: "set (pricedQueue_push q tx) = insert tx (set q)"
  by (metis mset_pricedQueue_push set_mset_add_mset_insert set_mset_mset)

lemma admissible_Peek:
  assumes "admissible gasLimit p" and "Peek p = (r, p')"
  shows "admissible gasLimit p' \<and> (\<forall>tx. r = Some tx \<longrightarrow> fits gasLimit tx)"
proof (cases r)
  case None
  then show ?thesis using Peek_None assms by auto
next
  case (Some tx)
  have "set (p_executables p) = insert tx (set (p_executables p'))"
    using arg_cong [OF Peek_Some(2) [OF assms(2) [unfolded Some]], of set_mset] by simp
  then show ?thesis using assms(1) Some Peek_Some(1) [OF assms(2) [unfolded Some]] by (simp add: admissible_def)
qed

lemma set_accountQueue_pop: "set (snd (accountQueue_pop q)) \<subseteq> set q"
proof (cases "q = []")
  case False
  then show ?thesis by (metis accountQueue_popE prod.collapse set_mset_mset set_mset_add_mset_insert subset_insertI)
qed (simp add: accountQueue_pop_def)

lemma admissible_Pop:
  assumes "admissible gasLimit p" and "Pop P tx p = Some p'"
  shows "admissible gasLimit p'"
proof -
  obtain a where a: "get_account p (t_From tx) = Some a" using assms(2) by (auto simp: Pop_def split: option.splits)
  define b where "b = a\<lparr>pa_promoted := snd (accountQueue_pop (pa_promoted a)), pa_demotions := 0\<rparr>"
  have p': "get_account p' = (get_account p)(t_From tx \<mapsto> b)"
      "set (p_executables p') = set (p_executables p) \<union> set_option (accountQueue_peek (pa_promoted b))"
    using assms(2) a by (auto simp: Pop_def Let_def b_def case_prod_beta updatePending_def split: option.splits)
  have sub: "set (pa_promoted b) \<subseteq> set (pa_promoted a)" using set_accountQueue_pop by (simp add: b_def)
  have "set_option (accountQueue_peek (pa_promoted b)) \<subseteq> set (pa_promoted b)" by (auto simp: peek_in_set)
  with sub show ?thesis by (intro admissible_upd [OF assms(1) a p'(1) sub]) (auto simp: p'(2))
qed

lemma admissible_Drop:
  assumes "admissible gasLimit p" and "Drop P tx p = Some p'"
  shows "admissible gasLimit p'"
proof -
  obtain a where a: "get_account p (t_From tx) = Some a" using assms(2) by (auto simp: Drop_def split: option.splits)
  show ?thesis using assms(2) a by (intro admissible_upd [OF assms(1) a]) (auto simp: Drop_def Let_def clear_def)
qed

lemma admissible_Demote:
  assumes "admissible gasLimit p" and "Demote P tx p = Some p'"
  shows "admissible gasLimit p'"
proof -
  obtain a where a: "get_account p (t_From tx) = Some a" using assms(2) by (auto simp: Demote_def split: option.splits)
  show ?thesis
  proof (cases "maxAccountDemotions \<le> pa_demotions a")
    case True
    then obtain q where q: "Drop P tx p = Some q" "p' = map_account (pa_demotions_update (\<lambda>_. 0)) (t_From tx) q"
      using assms(2) a by (auto simp: Demote_def)
    show ?thesis
    proof (cases "get_account q (t_From tx)")
      case (Some b)
      then show ?thesis by (intro admissible_upd [OF admissible_Drop [OF assms(1) q(1)] Some]) (auto simp: q(2) map_account_def)
    qed (simp add: q(2) map_account_def admissible_Drop [OF assms(1) q(1)])
  next
    case False
    then show ?thesis using assms(2) a by (intro admissible_upd [OF assms(1) a]) (auto simp: Demote_def)
  qed
qed

lemma admissible_Prepare:
  assumes "admissible gasLimit p"
  shows "admissible gasLimit (Prepare order p)"
proof -
  have "fits gasLimit tx" if "tx \<in> set (getPrimaries order (p_accounts p))" for tx
    using that assms peek_in_set unfolding set_getPrimaries admissible_def by blast
  then show ?thesis using assms by (simp add: admissible_def Prepare_def set_push_all)
qed

lemma write_loop_receipts:
  assumes "write_loop P E before during gasLimit time executed t p = Val (executed', t', p')"
    and "\<And>n p. admissible gasLimit p \<Longrightarrow> admissible gasLimit (before n p) \<and> admissible gasLimit (during n p)"
    and "admissible gasLimit p" and "e_PostHook E = None" and "ctx_ok E t" and "filled limit t"
  shows "filled limit t' \<and> (laws E \<longrightarrow> total_supply E (tr_state t') \<le> total_supply E (tr_state t)) \<and>
    (\<exists>new. executed' = executed @ new \<and> map rc_TxHash (tr_receipts t') = map rc_TxHash (tr_receipts t) @ map t_Hash new)"
  using assms(1,3,5-)
proof (induction time arbitrary: executed t p)
  case (Suc time)
  obtain r p1 where pk: "Peek (before time p) = (r, p1)" by fastforce
  obtain result t2 p2 where w: "writeTransaction P E r gasLimit t (during time p1) = Val (result, t2, p2)"
    using Suc.prems(1) pk by (auto simp: obind_eq_Val)
  have adm: "admissible gasLimit (during time p1)" and fit: "\<And>tx. r = Some tx \<Longrightarrow> fits gasLimit tx"
    using admissible_Peek [OF _ pk] assms(2) Suc.prems(2) by blast+
  note err = Write_Some_block [OF _ assms(4)]
  show ?case using w
  proof (cases rule: writeTransaction_cases)
    case stop
    then have "executed' = executed" "t' = t2" using Suc.prems(1) pk w by simp_all
    then show ?thesis using stop Suc.prems(4) by (cases r) (auto simp: err intro: filled_less_gas err)
  next
    case (pop tx)
    obtain rc where rc: "adds_receipt E t t2 rc"
      using Write_adds [OF pop(4) assms(4) Suc.prems(3)] fit [OF pop(1)] unfolding fits_def by blast
    have f2: "filled limit t2" using Suc.prems(4) adds_receipt_block_ok [OF rc] by (auto simp: filled_def)
    have loop: "write_loop P E before during gasLimit time (executed @ [tx]) t2 p2 = Val (executed', t', p')"
      using Suc.prems(1) pk w pop(2) by simp
    have "map rc_TxHash (tr_receipts t2) = map rc_TxHash (tr_receipts t) @ [t_Hash tx]" "ctx_ok E t2"
        "laws E \<longrightarrow> total_supply E (tr_state t2) \<le> total_supply E (tr_state t)"
      using rc Write_TxHash [OF pop(4)] by (auto simp: adds_receipt_def)
    with Suc.IH [OF loop admissible_Pop [OF adm pop(3)] _ f2] show ?thesis by auto
  next
    case (leave tx st)
    have loop: "write_loop P E before during gasLimit time executed t2 p2 = Val (executed', t', p')"
      using Suc.prems(1) pk w leave(2,3) by (cases st) auto
    have adm2: "admissible gasLimit p2" using leave(4) admissible_Drop [OF adm] admissible_Demote [OF adm] by blast
    obtain e where e: "Write E t tx = Val (Some e, t2)" using leave(5) fit [OF leave(1)] unfolding fits_def by blast
    have "filled limit t2" "ctx_ok E t2" using Suc.prems(3,4) err [OF e] by (auto simp: ctx_ok_def intro: filled_less_gas)
    then show ?thesis using Suc.IH [OF loop adm2] err [OF e] by auto
  qed
qed simp

subsection \<open>Properties\<close>

text \<open>C10. A block is filled in the order of the nonces. When nobody else changes the pool meanwhile, the block gets of every
  sender the first transactions the pool has promoted, one for each nonce from the lowest on, without a gap and none
  twice. Every \<open>Pop\<close> of the builder then finds the transaction it was given, so the books of the pool stay as they were.\<close>

theorem writeTransactions_in_order:
  assumes "pool_reachable L S h p" and "\<forall>tx. Added tx \<in> set h \<longrightarrow> t_Nonce tx \<noteq> 0xFFFFFFFFFFFFFFFF" and "po_sig P = S" and "distinct order"
    and "writeTransactions P E alone alone shouldWrite order time gasLimit blockNumber t p = Val (executed, t', p')"
  shows "in_order p executed \<and> (\<exists>h'. pool_reachable L S (h @ h') p' \<and> (\<forall>c \<in> set h'. \<exists>tx. c = Popped tx (Some tx)))"
proof (cases "shouldWrite blockNumber")
  case True
  note prep = Prepare_heads [OF pool_reachable_ok [OF assms(1)] assms(4)]
  have loop: "write_loop P E alone alone gasLimit time [] t (Prepare order p) = Val (executed, t', p')"
    using assms(5) True by (simp add: writeTransactions_def)
  have "nonces_below h" using assms(2) by (simp add: nonces_below_def)
  from write_loop_in_order [OF loop pool_reachable.prepare [OF assms(1)] this assms(3) prep(1)]
  have "in_order (Prepare order p) executed" "\<exists>h'. pool_reachable L S (h @ h') p' \<and> (\<forall>c \<in> set h'. \<exists>tx. c = Popped tx (Some tx))"
    by simp_all
  then show ?thesis by (simp add: in_order_def prep(2))
next
  case False
  then show ?thesis using assms by (auto simp: writeTransactions_def in_order_def intro!: exI [of _ "[]"])
qed

text \<open>C11. The block that is built has exactly one receipt for each of its transactions, in their order, the receipts
  add up to the gas of the block, which is within the limit, and the execution creates no coins. This holds whatever other
  goroutines do to the pool meanwhile, as long as the transactions the pool hands out fit into the gas limit of the block.\<close>

theorem writeTransactions_receipts:
  assumes "\<forall>n p. admissible gasLimit p \<longrightarrow> admissible gasLimit (before n p) \<and> admissible gasLimit (during n p)"
    and "admissible gasLimit p" and "laws E" and "e_PostHook E = None" and "ctx_ok E t"
    and "tr_receipts t = []" and "tr_totalGas t = 0" and "tr_gasPool t = gasLimit"
    and "writeTransactions P E before during shouldWrite order time gasLimit blockNumber t p = Val (executed, t', p')"
  shows "map rc_TxHash (tr_receipts t') = map t_Hash executed \<and>
    gas_used (tr_receipts t') = unat (tr_totalGas t') \<and> tr_totalGas t' \<le> gasLimit \<and>
    (\<forall>i < length (tr_receipts t'). unat (rc_CumulativeGasUsed (tr_receipts t' ! i)) = gas_used (take (Suc i) (tr_receipts t'))) \<and>
    total_supply E (tr_state t') \<le> total_supply E (tr_state t)"
proof -
  have t: "filled gasLimit t" using assms(6-8) by (auto simp: filled_def block_ok_def gas_used_def)
  have loop: "write_loop P E before during gasLimit time [] t (Prepare order p) = Val (executed, t', p')" if "shouldWrite blockNumber"
    using assms(9) that by (simp add: writeTransactions_def)
  note run = write_loop_receipts [OF loop _ admissible_Prepare [OF assms(2)] assms(4,5) t]
  have "filled gasLimit t' \<and> total_supply E (tr_state t') \<le> total_supply E (tr_state t) \<and> map rc_TxHash (tr_receipts t') = map t_Hash executed"
    using run assms(1,3,6,9) t by (cases "shouldWrite blockNumber") (auto simp: writeTransactions_def)
  moreover from this obtain l where l: "l \<le> gasLimit" "block_ok l t'" by (auto simp: filled_def)
  moreover from l have "tr_totalGas t' \<le> gasLimit" by (simp add: block_ok_def word_le_nat_alt)
  ultimately show ?thesis by (simp add: block_ok_def)
qed


text \<open>
  A transaction above the gas limit of the block is dropped from the pool, with a failed receipt, and not added to the
  block: the block then has a receipt without a transaction.
\<close>

lemma failed_receipt_without_transaction:
  assumes "Peek p = (Some tx, p1)" and "ExceedsBlockGasLimit tx gasLimit" and "Drop P tx p1 = Some p2" and "t_From tx \<noteq> 0"
  shows "\<exists>rc t'. write_loop P E alone alone gasLimit (Suc time) executed t p = write_loop P E alone alone gasLimit time executed t' p2 \<and>
    tr_receipts t' = tr_receipts t @ [rc] \<and> rc_TxHash rc = t_Hash tx"
proof -
  obtain t' rc where "WriteFailedReceipt E t tx = Val (None, t')" "tr_receipts t' = tr_receipts t @ [rc]" "rc_TxHash rc = t_Hash tx"
    using assms(4) by (simp add: WriteFailedReceipt_def with_sender_def case_prod_beta Let_def)
  then show ?thesis using assms(1-3) by (intro exI [of _ rc] exI [of _ t']) (simp add: writeTransaction_def)
qed

subsection \<open>A block with one transaction\<close>

text \<open>The account of the sender has a balance of 1000000 and the nonce 0.\<close>

definition paid_snapshot :: readSnapshot where
  "paid_snapshot = plain_snapshot\<lparr>snap_GetAccount := \<lambda>a. Some (if a = 1 then
     Some \<lparr>ac_Nonce = 0, ac_Balance = 1000000, ac_Root = 9, ac_CodeHash = []\<rparr> else None)\<rparr>"

definition paid_transition :: "((bytes, plain_storage entry) alist, (Address \<times> bytes) list) Transition" where
  "paid_transition = plain_transition\<lparr>tr_state := newTxn plain_env paid_snapshot\<rparr>"

lemma plain_sender: "plain_sender = 1"
proof -
  have "Bytes 1 = [1]" by (simp add: Bytes_def nat_Bytes.simps [of "Suc 0"] nat_Bytes.simps [of 0])
  then show ?thesis
    by (simp add: plain_sender_def PubKeyToAddress_def plain_crypto_def MarshalPublicKey_def pad_bytes_def BytesToAddress_def)
qed

lemma paid_views:
  "Txn_GetBalance (plain_tenv C) (tr_state paid_transition) a = (if a = 1 then 1000000 else 0)"
  "Txn_GetNonce (plain_tenv C) (tr_state paid_transition) a = 0"
  "Txn_GetRefund (plain_tenv C) (tr_state paid_transition) = 0"
  "fst (Txn_GetCode (plain_tenv C) (tr_state paid_transition) 256) = []"
proof -
  have obj: "getStateObject (plain_tenv C) (tr_state paid_transition) a = (if a = 1 then
     Some \<lparr>so_Account = \<lparr>ac_Nonce = 0, ac_Balance = 1000000, ac_Root = 9, ac_CodeHash = []\<rparr>, so_Code = [], so_Suicide = False,
       so_Deleted = False, so_DirtyCode = False, so_Txn = None\<rparr> else None)" for a
    by (simp add: getStateObject_def paid_transition_def paid_snapshot_def plain_tenv_def newTxn_def plain_env_def alist_radix_def
        Account_Copy_def SetBytes_Bytes)
  show "Txn_GetBalance (plain_tenv C) (tr_state paid_transition) a = (if a = 1 then 1000000 else 0)"
    "Txn_GetNonce (plain_tenv C) (tr_state paid_transition) a = 0"
    "fst (Txn_GetCode (plain_tenv C) (tr_state paid_transition) 256) = []"
    by (simp_all add: Txn_GetBalance_def Txn_GetNonce_def Txn_GetCode_def obj)
  show "Txn_GetRefund (plain_tenv C) (tr_state paid_transition) = 0"
    by (simp add: Txn_GetRefund_def paid_transition_def newTxn_def plain_env_def plain_tenv_def alist_radix_def)
qed

lemma paid_simps [simp]:
  "tr_receipts paid_transition = []" "tr_totalGas paid_transition = 0" "tr_gasPool paid_transition = 100000"
  "ctx_ok (plain_tenv C) paid_transition"
  by (simp_all add: paid_transition_def plain_transition_def ctx_ok_def all_forks_def AllForksEnabled_def Forks_active_def
      Fork_Active_def Forks_At_def)

lemma pool_tx_fields [simp]:
  "t_Gas pool_tx = 21000" "t_GasPrice pool_tx = 1" "t_Value pool_tx = 0" "t_To pool_tx = Some 256"
  by (simp_all add: pool_tx_def plain_tx_def)

lemma paid_Write: "\<exists>t'. Write (plain_tenv C) paid_transition pool_tx = Val (None, t')"
proof -
  let ?m = "Transaction_Copy pool_tx"
  have m: "t_From ?m = 1" "t_Nonce ?m = 0" "t_Gas ?m = 21000" "t_GasPrice ?m = 1" "t_Value ?m = 0" "t_To ?m = Some 256" "t_Input ?m = []"
    by (simp_all add: Transaction_Copy_def pool_tx_def plain_tx_def plain_sender)
  have gas: "TransactionGasCost ?m h i = Some 21000" for h i
    by (simp add: TransactionGasCost_def m IsContractCreation_def TxGas_def)
  obtain r t' where ap: "Apply (plain_tenv C) paid_transition ?m = Val (Inr r, t')"
    using plain_transfer [OF laws_plain_tenv [of C], where msg = ?m and t = paid_transition and a = 256 and g = 21000]
    by (simp add: gas m paid_views Cost_def contracts_def) blast
  obtain s' where "CleanDeleteObjects (plain_tenv C) (snd (Logs (plain_tenv C) (tr_state t'))) True = Some s'"
    using CleanDeleteObjects_Some [OF laws_plain_tenv] by blast
  then show ?thesis by (simp add: Write_def with_sender_def plain_sender ap Let_def case_prod_beta)
qed

lemma paid_run:
  "\<exists>t' p'. writeTransactions plain_pool_env (plain_tenv C) alone alone (\<lambda>_. True) [plain_sender] 5 100000 5 paid_transition pool_promoted =
     Val ([pool_tx], t', p')"
proof -
  obtain t' where t': "Write (plain_tenv C) paid_transition pool_tx = Val (None, t')" using paid_Write by blast
  have "\<exists>t' p'. writeTransactions plain_pool_env (plain_tenv C) alone alone (\<lambda>_. True) [plain_sender] (Suc (Suc n)) 100000 5 paid_transition
      pool_promoted = Val ([pool_tx], t', p')" for n
    by (simp add: writeTransactions_def Prepare_def pool_promoted_accounts accountQueue_peek_def single_price Peek_def
        writeTransaction_def ExceedsBlockGasLimit_def t' Pop_def pop_single updatePending_def set_account_def pricedQueue_pop_def [of "[]"])
  from this [of 3] show ?thesis by simp
qed

theorem writeTransactions_in_order_witness:
  "\<forall>C. \<exists>t' p' h'. writeTransactions plain_pool_env (plain_tenv C) alone alone (\<lambda>_. True) [plain_sender] 5 100000 5 paid_transition pool_promoted =
     Val ([pool_tx], t', p') \<and> in_order pool_promoted [pool_tx] \<and> pool_reachable plain_crypto plain_pool_sig (Added (plain_tx 27 5 6) # h') p'"
proof
  fix C
  obtain t' p' where run: "writeTransactions plain_pool_env (plain_tenv C) alone alone (\<lambda>_. True) [plain_sender] 5 100000 5 paid_transition pool_promoted =
     Val ([pool_tx], t', p')" using paid_run by blast
  have "t_Nonce (plain_tx 27 5 6) \<noteq> 0xFFFFFFFFFFFFFFFF" by (simp add: plain_tx_def)
  with writeTransactions_in_order [OF reachable_promoted _ _ _ run] run
  show "\<exists>t' p' h'. writeTransactions plain_pool_env (plain_tenv C) alone alone (\<lambda>_. True) [plain_sender] 5 100000 5 paid_transition pool_promoted =
     Val ([pool_tx], t', p') \<and> in_order pool_promoted [pool_tx] \<and> pool_reachable plain_crypto plain_pool_sig (Added (plain_tx 27 5 6) # h') p'" by auto
qed

lemma pool_promoted_admissible: "admissible 100000 pool_promoted"
  by (simp add: admissible_def fits_def pool_promoted_accounts ExceedsBlockGasLimit_def)
    (simp add: pool_promoted_def pool_enqueued_def pool_added_def plain_pool_def NewTxPool_def)

theorem writeTransactions_receipts_witness:
  "\<forall>C. \<exists>t' p'. writeTransactions plain_pool_env (plain_tenv C) alone alone (\<lambda>_. True) [plain_sender] 5 100000 5 paid_transition pool_promoted =
     Val ([pool_tx], t', p') \<and> map rc_TxHash (tr_receipts t') = [t_Hash pool_tx] \<and>
     gas_used (tr_receipts t') = unat (tr_totalGas t') \<and> tr_totalGas t' \<le> 100000"
proof
  fix C
  obtain t' p' where run: "writeTransactions plain_pool_env (plain_tenv C) alone alone (\<lambda>_. True) [plain_sender] 5 100000 5 paid_transition pool_promoted =
     Val ([pool_tx], t', p')" using paid_run by blast
  from writeTransactions_receipts [OF _ pool_promoted_admissible laws_plain_tenv _ _ _ _ _ run] run
  show "\<exists>t' p'. writeTransactions plain_pool_env (plain_tenv C) alone alone (\<lambda>_. True) [plain_sender] 5 100000 5 paid_transition pool_promoted =
     Val ([pool_tx], t', p') \<and> map rc_TxHash (tr_receipts t') = [t_Hash pool_tx] \<and>
     gas_used (tr_receipts t') = unat (tr_totalGas t') \<and> tr_totalGas t' \<le> 100000" by auto
qed


end
