(* ===== verification/Spec2Isabelle.thy ===== *)
theory Spec2Isabelle
  imports EVM_Word Blocks Blake2 ModExp Builder
begin

text \<open>
  \<^bold>\<open>A verification of the execution core of nxchain.\<close>
  nxchain is an Ethereum-compatible blockchain node in Go. This development models what a node computes: how transactions
  are checked, pooled, put into blocks and executed, with the virtual machine, the world state and the encodings this
  needs, and proves what makes these parts correct.

  \<^bold>\<open>The parts and how they interact.\<close> A transaction arrives at the pool, which recovers its sender
  (\<^verbatim>\<open>crypto\<close>), validates it, queues it by nonce and promotes it when its turn comes (\<^verbatim>\<open>txpool\<close>). A validator
  takes promoted transactions by price and writes them into a transition (\<^verbatim>\<open>consensus/ibft/consensus_backend.go\<close>); the
  other nodes process the finished block (\<^verbatim>\<open>state/executor.go\<close>). Both apply the transactions one by one: the executor
  charges gas, transfers value and calls the runtimes, which are the precompiled contracts and the EVM. The EVM
  calls back through the \<open>Host\<close> interface, for storage and for nested calls. All changes go through a transaction
  state with snapshots (\<^verbatim>\<open>state/txn.go\<close>), which in the end gives the objects to commit.

  \<^bold>\<open>Which theory models what.\<close> Paths are below \<^verbatim>\<open>src/\<close>; definitions have the names of the sources, with a prefix
  where two methods share a name, and fields of a record carry a short prefix.
  \<^item> \<open>Prelude\<close>: machine integers, \<^verbatim>\<open>big.Int\<close>, byte slices, the type \<open>outcome\<close> and the lemmas all theories share.
  \<^item> \<open>Types\<close>, \<open>Block\<close>: transactions, receipts, logs, bloom filters, headers and blocks (\<^verbatim>\<open>types/\<close>).
  \<^item> \<open>Hex\<close>: text forms of numbers, hashes and bytes (\<^verbatim>\<open>helper/hex\<close>, \<^verbatim>\<open>types/encoding.go\<close>, \<^verbatim>\<open>types/types.go\<close>).
  \<^item> \<open>RLP\<close>: what is encoded on the wire and in storage, and how it is decoded (\<^verbatim>\<open>types/rlp_*.go\<close>, \<^verbatim>\<open>state/state.go\<close>).
  \<^item> \<open>Crypto\<close>: signature checks, the signers, sender recovery (\<^verbatim>\<open>crypto/crypto.go\<close>, \<^verbatim>\<open>crypto/txsigner.go\<close>).
  \<^item> \<open>Runtime\<close>: contracts, results, errors, the \<open>Host\<close> interface, forks (\<^verbatim>\<open>state/runtime/runtime.go\<close>,
    \<^verbatim>\<open>chain/params.go\<close>).
  \<^item> \<open>EVM_Opcodes\<close>, \<open>EVM_State\<close>, \<open>EVM_Instructions\<close>, \<open>EVM\<close>: the machine, one definition for each instruction, the dispatch
    table and the run loop (\<^verbatim>\<open>state/runtime/evm/\<close>). The machine is a record \<open>state\<close> over the type of the host's state.
  \<^item> \<open>Precompiled\<close>: the precompiled contracts (\<^verbatim>\<open>state/runtime/precompiled/\<close>).
  \<^item> \<open>Txn\<close>: the world state of a transaction (\<^verbatim>\<open>state/txn.go\<close>).
  \<^item> \<open>Transition\<close>: \<^verbatim>\<open>Transition\<close> and \<^verbatim>\<open>Executor\<close>, with the host the machine sees (\<^verbatim>\<open>state/executor.go\<close>).
  \<^item> \<open>Heap\<close>, \<open>TxQueue\<close>, \<open>TxPool\<close>: Go's binary heap, the queues and accounts, and the pool (\<^verbatim>\<open>txpool/\<close>).
  \<^item> \<open>Builder\<close>: filling a block (\<^verbatim>\<open>consensus/ibft/consensus_backend.go\<close>).

  \<^bold>\<open>What the theorems show.\<close>
  \<^item> \<open>Blocks\<close> and \<open>Accounting\<close> (from \<open>Execution\<close>): no block creates coins; processing a block ends; gas of transactions
    and blocks adds up; static calls change nothing; failed calls and refused transactions are undone; plain transfers
    succeed. \<open>EVM_Evolve\<close> and \<open>EVM_Gas\<close> carry these through every instruction: gas only falls, the stack stays sane, and the
    host changes only as its laws allow.
  \<^item> \<open>EVM_Word\<close>: the instructions on big integers implement 256-bit arithmetic. \<open>EVM\<close>: the jump destinations are right.
  \<^item> \<open>Blake2\<close>, \<open>ModExp\<close>: the two precompiled contracts computed here meet their standards.
  \<^item> \<open>World\<close>, \<open>Ledger\<close>: reading after writing, reverting, committing, refunds and the types in the tree.
  \<^item> \<open>TxQueue\<close>, \<open>TxPool\<close>: promotion, the invariants of accounts, the books of the pool and the choice by price, for every
    interleaving of the steps of the pool. \<open>Builder\<close> and this theory: blocks are filled in the order of nonces, with one receipt
    for each transaction, and the executor accepts what the pool has validated.
  \<^item> \<open>RLP\<close>, \<open>Hex\<close>, \<open>Crypto\<close>, \<open>Types\<close>: round trips, sender recovery and completeness of bloom filters.
  \<^item> Some theorems show where the code does not do what it means to: refunds that wrap across transactions, code served
    from a stale cache, gas kept by refused transactions, signature values that panic, bloom tests that miss a log, a
    \<open>Pop\<close> that charges twice, a \<open>BYTE\<close> that wraps, prices compared modulo 2 to the 64.

  \<^bold>\<open>Interfaces.\<close> \<open>byte_buffer\<close> is what the machine needs of its pooled memory, interpreted on lists and on buffers that are
  reused. \<open>evm_host\<close> and \<open>evm_host_depth\<close> have the laws of a host, interpreted on the hosts of the transition.
  \<open>world_relation\<close> has the laws of a relation that executions keep, interpreted for the supply and for static calls.
  \<open>heap_order\<close> has the laws of a comparison, interpreted on the two \<open>Less\<close> methods.

  \<^bold>\<open>Panics, loops and fuel.\<close> A Go panic is \<open>None\<close>, or \<open>Panic\<close> in the type \<open>outcome\<close>, whose third value \<open>NoFuel\<close> stands for a
  run the model cuts off. The run loop has two more units of fuel than units of gas, and calls nest 1025 levels, which is what
  the depth check of the code lets through; both are proved to be enough on chains with the \<open>EIP150\<close> fork. The time limit of the
  block builder is a number of turns of its loop. Go iterates over maps in any order, so the order is an argument.

  \<^bold>\<open>Concurrency.\<close> \<open>pool_reachable\<close> lets the steps of the pool, each one run under its locks, follow each other in any order,
  and records the calls of \<open>Pop\<close> with what they found. The block builder takes what others do to the pool between its calls
  as the arguments \<open>before\<close> and \<open>during\<close>. Creating an account is one step, which in the sources it is not quite.

  \<^bold>\<open>Parameters.\<close> Code that is not part of the sources is an argument: Keccak-256, SHA-256 and RIPEMD-160, the curves (laws
  \<open>sig_laws\<close>), the RLP library with its laws, the radix tree and the cache under the transaction state (laws \<open>laws\<close>), and
  the capacity of slices. The snapshot below the transaction state is the interface \<^verbatim>\<open>Snapshot\<close>. Witnesses give instances.

  \<^bold>\<open>Conditions.\<close> Theorems on execution suppose the \<open>EIP150\<close> fork, no \<open>PostHook\<close>, which the node never sets, and
  headers whose numbers are below 2 to the 63. Theorems on the pool's accounts exclude the last nonce. Memory is unbounded.

  \<^bold>\<open>Not modelled.\<close> The state trie and the storage below the interfaces, tracers, the header chain, the IBFT rounds (a
  library), validators, networking, synchronisation, JSON-RPC, commands, configuration files, secrets and backups: they are
  input and output, or third-party code. The delivery of pool events stops at the list of events.
\<close>

section \<open>The pool and the executor agree\<close>

lemma validateTx_Inr:
  assumes "validateTx P p tx = Some (Inr tx')"
  shows "0 \<le> t_Value tx'" and "t_GasPrice tx' = t_GasPrice tx"
    and "\<exists>b g. po_GetBalance P (hd_StateRoot (po_Header P)) (t_From tx') = Some b \<and> Cost tx' \<le> b \<and>
      TransactionGasCost tx' (Homestead (po_forks P)) (Istanbul (po_forks P)) = Some g \<and> g \<le> t_Gas tx'"
  using assms
  by (auto simp: validateTx_def validate_state_def Let_def not_less split: if_splits option.splits sum.splits)

lemma Transaction_Copy_same:
  assumes "0 \<le> t_GasPrice tx" and "0 \<le> t_Value tx"
  shows "\<exists>r s. Transaction_Copy tx = tx\<lparr>t_R := r, t_S := s\<rparr>"
  using assms by (auto simp: Transaction_Copy_def)

lemma Transition_apply_accepts:
  assumes "laws E" and "0 \<le> t_GasPrice msg" and "0 \<le> t_Value msg"
    and "Txn_GetNonce E (tr_state t) (t_From msg) = t_Nonce msg" and "Cost msg \<le> Txn_GetBalance E (tr_state t) (t_From msg)"
    and "t_Gas msg \<le> tr_gasPool t"
    and "TransactionGasCost msg (Homestead (e_config E)) (Istanbul (e_config E)) = Some g" and "g \<le> t_Gas msg"
  shows "Transition_apply E t msg \<noteq> Val (Inl e, t')"
proof -
  let ?fee = "t_GasPrice msg * uint (t_Gas msg)"
  have fee: "0 \<le> ?fee" using assms(2) by simp
  obtain s1 where s1: "SubBalance E (tr_state t) (t_From msg) ?fee = Some s1"
    using assms(3,5) SubBalance_iff [of E "tr_state t" "t_From msg" ?fee]
    by (cases "SubBalance E (tr_state t) (t_From msg) ?fee") (auto simp: Cost_def)
  have "t_Value msg \<le> Txn_GetBalance E s1 (t_From msg)"
    using SubBalance_Some(2) [OF assms(1) fee s1, of "t_From msg"] assms(5) by (simp add: Cost_def)
  moreover have "\<not> tr_gasPool t < t_Gas msg" "\<not> t_Gas msg < t_Gas msg - g"
    using assms(6) word_sub_le [OF assms(8)] by (simp_all only: not_less)
  ultimately show ?thesis using assms(4,7) s1
    by (simp add: Transition_apply_def nonceCheck_def subGasLimitPrice_def subGasPool_def Let_def obind_eq_Val case_prod_beta)
qed

text \<open>C12. The pool and the executor agree on what a valid transaction is: a transaction the pool has validated is not
  refused when it is written, provided its turn has come (its nonce is that of the account), the account still has the balance the
  pool saw, both use the same forks, and the block has gas left for it.\<close>

theorem validated_not_refused:
  assumes "validateTx P p tx = Some (Inr tx')" and "laws E" and "t_From tx' \<noteq> 0" and "0 \<le> t_GasPrice tx"
    and "Homestead (e_config E) = Homestead (po_forks P)" and "Istanbul (e_config E) = Istanbul (po_forks P)"
    and "Txn_GetNonce E (tr_state t) (t_From tx') = t_Nonce tx'"
    and "po_GetBalance P (hd_StateRoot (po_Header P)) (t_From tx') = Some (Txn_GetBalance E (tr_state t) (t_From tx'))"
    and "t_Gas tx' \<le> tr_gasPool t"
  shows "Write E t tx' \<noteq> Val (Some err, t')"
proof
  assume w: "Write E t tx' = Val (Some err, t')"
  note v = validateTx_Inr [OF assms(1)]
  obtain r s where copy: "Transaction_Copy tx' = tx'\<lparr>t_R := r, t_S := s\<rparr>"
    using Transaction_Copy_same [of tx'] v(1,2) assms(4) by auto
  obtain g where g: "Cost tx' \<le> Txn_GetBalance E (tr_state t) (t_From tx')" "g \<le> t_Gas tx'"
      "TransactionGasCost tx' (Homestead (e_config E)) (Istanbul (e_config E)) = Some g"
    using v(3) assms(5,6,8) by auto
  have "Transition_apply E (t\<lparr>tr_state := snd (Snapshot (tr_state t))\<rparr>) (Transaction_Copy tx') \<noteq> Val (Inl e, t1)" for e t1
    by (rule Transition_apply_accepts [OF assms(2), where g = g])
      (use v(1,2) assms(4,7,9) g in \<open>simp_all add: copy Cost_def TransactionGasCost_def IsContractCreation_def\<close>)
  moreover obtain x t1 where "Transition_apply E (t\<lparr>tr_state := snd (Snapshot (tr_state t))\<rparr>) (Transaction_Copy tx') = Val (x, t1)"
    using w assms(3) by (auto simp: Write_def with_sender_def Apply_def Snapshot_def obind_eq_Val Let_def)
  ultimately have "\<exists>r. Apply E t (Transaction_Copy tx') = Val (Inr r, run_PostHook E t1)"
    by (cases x) (auto simp: Apply_def Snapshot_def)
  then show False using w assms(3) by (auto simp: Write_def with_sender_def obind_eq_Val Let_def case_prod_beta)
qed

theorem validated_not_refused_witness:
  "\<forall>C err t'. validateTx plain_pool_env plain_pool (plain_tx 27 5 6) = Some (Inr ((plain_tx 27 5 6)\<lparr>t_From := plain_sender\<rparr>)) \<and>
     Write (plain_tenv C) paid_transition ((plain_tx 27 5 6)\<lparr>t_From := plain_sender\<rparr>) \<noteq> Val (Some err, t')"
proof (intro allI conjI)
  fix C err t'
  show "Write (plain_tenv C) paid_transition ((plain_tx 27 5 6)\<lparr>t_From := plain_sender\<rparr>) \<noteq> Val (Some err, t')"
    by (rule validated_not_refused [OF plain_validateTx laws_plain_tenv])
      (simp_all add: plain_sender paid_views plain_tx_def plain_pool_env_def)
qed (rule plain_validateTx)

end
